(* ===== verification/Prelude.thy ===== *)
theory Prelude
  imports Main "HOL-Library.Word"
begin

text \<open>
  What the components share: the collections of facts the proofs are run with, Go's strings
  and numbers as HOL data, and the generic lemmas on them.

  A Go \<open>string\<close> and a Go \<open>[]byte\<close> are both sequences of bytes. Both are the HOL type
  \<open>string\<close>, whose characters are exactly the 256 bytes, so \<open>length\<close> is Go's \<open>len\<close>.
  A pointer is an \<open>option\<close>, a Go map a partial function. A time is an \<open>int\<close> number of
  nanoseconds since the Unix epoch and a duration an \<open>int\<close> number of nanoseconds. An
  \<open>int64\<close> that can overflow is an \<open>int\<close> with the wrap-around written out by \<open>i64\<close>.
\<close>

named_theorems str_simps "evaluation of the string library"
named_theorems branch_simps "the branches of an operation, one equation per early return"
named_theorems inv_intros "every operation keeps its component's invariant"

type_synonym bytes = string
type_synonym time = int
type_synonym duration = int
type_synonym header = "string \<times> string"


section \<open>Numbers and time\<close>

definition i64 :: "int \<Rightarrow> int" where
  "i64 x = (x + 2 ^ 63) mod 2 ^ 64 - 2 ^ 63"

definition second :: duration where
  "second = 1000000000"

definition millisecond :: duration where
  "millisecond = 1000000"

definition minute :: duration where
  "minute = 60 * second"

text \<open>\<open>time.Time.Unix\<close> takes the second a time falls in, \<open>time.Unix(s, 0)\<close> the second's start.\<close>

definition unix :: "time \<Rightarrow> int" where
  "unix t = t div second"

definition unix_time :: "int \<Rightarrow> time" where
  "unix_time s = s * second"

text \<open>\<open>int64(d.Seconds())\<close>: the conversion drops the fraction, towards zero.\<close>

definition whole_seconds :: "duration \<Rightarrow> int" where
  "whole_seconds d = (if d < 0 then - (- d div second) else d div second)"

text \<open>Go's \<open>/\<close> truncates towards zero; a zero divisor panics.\<close>

definition go_div :: "int \<Rightarrow> int \<Rightarrow> int option" where
  "go_div a b = (if b = 0 then None else Some (sgn a * sgn b * (\<bar>a\<bar> div \<bar>b\<bar>)))"

lemma i64_id [simp]: "- (2 ^ 63) \<le> x \<Longrightarrow> x < 2 ^ 63 \<Longrightarrow> i64 x = x"
  by (simp add: i64_def)

lemma i64_bounds: "- (2 ^ 63) \<le> i64 x \<and> i64 x < 2 ^ 63"
  using pos_mod_sign [of "2 ^ 64" "x + 2 ^ 63"] pos_mod_bound [of "2 ^ 64" "x + 2 ^ 63"]
  by (simp add: i64_def)

lemma unix_unix_time [simp]: "unix (unix_time s) = s"
  by (simp add: unix_def unix_time_def second_def)

lemma unix_mono: "t \<le> (u :: time) \<Longrightarrow> unix t \<le> unix u"
  by (simp add: unix_def second_def zdiv_mono1)

lemma unix_less_iff: "unix t < s \<longleftrightarrow> t < unix_time s"
  by (auto simp: unix_def unix_time_def second_def)

lemma unix_add_seconds: "unix (t + unix_time s) = unix t + s"
  by (simp add: unix_def unix_time_def second_def)

lemma unix_time_unix: "unix_time (unix t) \<le> t" "t < unix_time (unix t + 1)"
  by (auto simp: unix_def unix_time_def second_def)


section \<open>Checks in order\<close>

text \<open>
  A validator of the source is a row of \<open>if bad { return err }\<close>. It is the list of its
  pairs of condition and error, in the source's order; the first condition that holds wins.
\<close>

fun first_err :: "(bool \<times> 'e) list \<Rightarrow> 'e option" where
  "first_err [] = None"
| "first_err ((bad, e) # cs) = (if bad then Some e else first_err cs)"

lemma first_err_None [simp]: "first_err cs = None \<longleftrightarrow> (\<forall>c \<in> set cs. \<not> fst c)"
  by (induction cs rule: first_err.induct) auto

lemma first_err_append: "first_err (xs @ ys) = (case first_err xs of None \<Rightarrow> first_err ys | Some e \<Rightarrow> Some e)"
  by (induction xs rule: first_err.induct) auto

text \<open>The first error a loop meets, with the index the source puts into its message.\<close>

fun first_err_at :: "nat \<Rightarrow> (nat \<Rightarrow> 'a \<Rightarrow> 'e option) \<Rightarrow> 'a list \<Rightarrow> 'e option" where
  "first_err_at i f [] = None"
| "first_err_at i f (x # xs) = (case f i x of Some e \<Rightarrow> Some e | None \<Rightarrow> first_err_at (Suc i) f xs)"

lemma first_err_at_None: "first_err_at i f xs = None \<longleftrightarrow> (\<forall>k < length xs. f (i + k) (xs ! k) = None)"
proof (induction xs arbitrary: i)
  case Nil
  then show ?case by simp
next
  case (Cons x xs)
  then show ?case
    by (auto simp: nth_Cons' less_Suc_eq_0_disj split: option.splits)
qed


section \<open>Strings\<close>

definition HasPrefix :: "string \<Rightarrow> string \<Rightarrow> bool" where
  "HasPrefix s p \<longleftrightarrow> take (length p) s = p"

definition HasSuffix :: "string \<Rightarrow> string \<Rightarrow> bool" where
  "HasSuffix s p \<longleftrightarrow> length p \<le> length s \<and> drop (length s - length p) s = p"

fun ContainsStr :: "string \<Rightarrow> string \<Rightarrow> bool" where
  "ContainsStr [] sub = (sub = [])"
| "ContainsStr (c # s) sub = (HasPrefix (c # s) sub \<or> ContainsStr s sub)"

text \<open>\<open>strings.Cut\<close> at a one-byte separator; \<open>None\<close> is \<open>found = false\<close>.\<close>

fun Cut :: "char \<Rightarrow> string \<Rightarrow> (string \<times> string) option" where
  "Cut sep [] = None"
| "Cut sep (c # s) =
     (if c = sep then Some ([], s)
      else map_option (\<lambda>(a, b). (c # a, b)) (Cut sep s))"

text \<open>\<open>strings.Split\<close> at a one-byte separator: never the empty list.\<close>

fun Split :: "char \<Rightarrow> string \<Rightarrow> string list" where
  "Split sep [] = [[]]"
| "Split sep (c # s) =
     (if c = sep then [] # Split sep s
      else (case Split sep s of [] \<Rightarrow> [[c]] | w # ws \<Rightarrow> (c # w) # ws))"

fun Join :: "string \<Rightarrow> string list \<Rightarrow> string" where
  "Join sep [] = []"
| "Join sep [w] = w"
| "Join sep (w # v # ws) = w @ sep @ Join sep (v # ws)"

definition TrimRightBytes :: "string \<Rightarrow> string \<Rightarrow> string" where
  "TrimRightBytes cutset s = rev (dropWhile (\<lambda>c. c \<in> set cutset) (rev s))"

definition TrimBytes :: "string \<Rightarrow> string \<Rightarrow> string" where
  "TrimBytes cutset s = TrimRightBytes cutset (dropWhile (\<lambda>c. c \<in> set cutset) s)"

text \<open>
  \<open>strings.TrimSpace\<close> drops every character of Unicode's white space from both ends: the six
  ASCII ones, U+0085, U+00A0, U+1680, U+2000 to U+200A, U+2028, U+2029, U+202F, U+205F and
  U+3000, each given by its UTF-8 bytes.
\<close>

definition white_space :: "string list" where
  "white_space =
     map (\<lambda>c. [c]) [CHR 0x09, CHR 0x0A, CHR 0x0B, CHR 0x0C, CHR 0x0D, CHR 0x20] @
     [[CHR 0xC2, CHR 0x85], [CHR 0xC2, CHR 0xA0], [CHR 0xE1, CHR 0x9A, CHR 0x80]] @
     map (\<lambda>c. [CHR 0xE2, CHR 0x80, c])
       [CHR 0x80, CHR 0x81, CHR 0x82, CHR 0x83, CHR 0x84, CHR 0x85, CHR 0x86, CHR 0x87,
        CHR 0x88, CHR 0x89, CHR 0x8A, CHR 0xA8, CHR 0xA9, CHR 0xAF] @
     [[CHR 0xE2, CHR 0x81, CHR 0x9F], [CHR 0xE3, CHR 0x80, CHR 0x80]]"

function strip_front :: "string list \<Rightarrow> string \<Rightarrow> string" where
  "strip_front ws s =
     (case find (\<lambda>w. w \<noteq> [] \<and> HasPrefix s w) ws of
        None \<Rightarrow> s
      | Some w \<Rightarrow> strip_front ws (drop (length w) s))"
  by pat_completeness auto
termination
proof (relation "measure (\<lambda>(ws, s). length s)", simp, clarsimp)
  fix ws s w
  assume "find (\<lambda>w. w \<noteq> [] \<and> HasPrefix s w) ws = Some w"
  then have "w \<noteq> []" and "HasPrefix s w"
    by (auto simp: find_Some_iff)
  then show "length s - length w < length s"
    by (cases s) (auto simp: HasPrefix_def)
qed

declare strip_front.simps [simp del]

definition TrimSpace :: "string \<Rightarrow> string" where
  "TrimSpace s = rev (strip_front (map rev white_space) (rev (strip_front white_space s)))"

text \<open>
  \<open>strings.ToLower\<close>, \<open>ToUpper\<close> and \<open>EqualFold\<close> follow the case tables of Go's
  \<open>unicode\<close> package, which are data of the Go release: they come in as a record. Two strings
  are equal under folding iff their canonical foldings are the same string.
\<close>

record case_tables =
  ct_lower :: "string \<Rightarrow> string"
  ct_upper :: "string \<Rightarrow> string"
  ct_fold :: "string \<Rightarrow> string"

definition EqualFold :: "case_tables \<Rightarrow> string \<Rightarrow> string \<Rightarrow> bool" where
  "EqualFold ct a b \<longleftrightarrow> ct_fold ct a = ct_fold ct b"

text \<open>The tables on ASCII, where every Go release agrees.\<close>

definition ascii_lower_char :: "char \<Rightarrow> char" where
  "ascii_lower_char c =
     (let n = (of_char c :: nat) in if 65 \<le> n \<and> n \<le> 90 then char_of (n + 32) else c)"

definition ascii_upper_char :: "char \<Rightarrow> char" where
  "ascii_upper_char c =
     (let n = (of_char c :: nat) in if 97 \<le> n \<and> n \<le> 122 then char_of (n - 32) else c)"

definition ascii_tables :: case_tables where
  "ascii_tables =
     \<lparr>ct_lower = map ascii_lower_char, ct_upper = map ascii_upper_char,
      ct_fold = map ascii_lower_char\<rparr>"

text \<open>\<open>url.QueryEscape\<close>.\<close>

definition hex_upper :: "nat \<Rightarrow> char" where
  "hex_upper n = (if n < 10 then char_of (48 + n) else char_of (55 + n))"

definition unreserved :: "char \<Rightarrow> bool" where
  "unreserved c \<longleftrightarrow>
     (let n = (of_char c :: nat)
      in (48 \<le> n \<and> n \<le> 57) \<or> (65 \<le> n \<and> n \<le> 90) \<or> (97 \<le> n \<and> n \<le> 122)
         \<or> n = 45 \<or> n = 46 \<or> n = 95 \<or> n = 126)"

definition escape_char :: "char \<Rightarrow> string" where
  "escape_char c =
     (if unreserved c then [c]
      else if c = CHR '' '' then ''+''
      else (let n = (of_char c :: nat) in [CHR ''%'', hex_upper (n div 16), hex_upper (n mod 16)]))"

definition QueryEscape :: "string \<Rightarrow> string" where
  "QueryEscape s = concat (map escape_char s)"


subsection \<open>Facts about strings\<close>

lemma HasPrefix_append [simp]: "HasPrefix (p @ s) p"
  by (simp add: HasPrefix_def)

lemma HasPrefix_Nil [simp]: "HasPrefix s []"
  by (simp add: HasPrefix_def)

lemma HasPrefix_Nil_iff [simp]: "HasPrefix [] p \<longleftrightarrow> p = []"
  by (auto simp: HasPrefix_def)

lemma HasPrefix_Cons [simp]: "HasPrefix (c # s) (d # p) \<longleftrightarrow> c = d \<and> HasPrefix s p"
  by (auto simp: HasPrefix_def)

lemma HasPrefixE:
  assumes "HasPrefix s p"
  obtains t where "s = p @ t"
  using assms by (metis HasPrefix_def append_take_drop_id)

lemma HasPrefix_iff: "HasPrefix s p \<longleftrightarrow> (\<exists>t. s = p @ t)"
  by (auto elim: HasPrefixE)

lemma Cut_append: "sep \<notin> set a \<Longrightarrow> Cut sep (a @ sep # b) = Some (a, b)"
  by (induction a) auto

lemma Cut_Some: "Cut sep s = Some (a, b) \<longleftrightarrow> sep \<notin> set a \<and> s = a @ sep # b"
proof
  show "Cut sep s = Some (a, b) \<Longrightarrow> sep \<notin> set a \<and> s = a @ sep # b"
    by (induction s arbitrary: a) (auto split: if_splits)
qed (auto simp: Cut_append)

lemma Cut_None: "Cut sep s = None \<longleftrightarrow> sep \<notin> set s"
  by (induction s) auto

lemma Split_not_Nil [simp]: "Split sep s \<noteq> []"
  by (induction s) (auto split: list.splits)

lemma Split_no_sep: "w \<in> set (Split sep s) \<Longrightarrow> sep \<notin> set w"
  by (induction s arbitrary: w) (auto split: list.splits if_splits)

lemma Join_Split: "Join [sep] (Split sep s) = s"
proof (induction s)
  case Nil
  then show ?case by simp
next
  case (Cons c s)
  then show ?case
  proof (cases "Split sep s")
    case Nil
    then show ?thesis by simp
  next
    case (Cons w ws)
    then show ?thesis
      using Cons.IH by (cases ws) auto
  qed
qed

lemma Split_single: "sep \<notin> set s \<Longrightarrow> Split sep s = [s]"
  by (induction s) auto

lemma Split_append: "sep \<notin> set w \<Longrightarrow> Split sep (w @ sep # s) = w # Split sep s"
  by (induction w) auto

lemma EqualFold_refl [simp]: "EqualFold ct a a"
  by (simp add: EqualFold_def)

lemma EqualFold_sym: "EqualFold ct a b \<longleftrightarrow> EqualFold ct b a"
  by (auto simp: EqualFold_def)

subsection \<open>Trimming\<close>

text \<open>A visible ASCII character: never part of white space.\<close>

definition visible :: "char \<Rightarrow> bool" where
  "visible c \<longleftrightarrow> (let n = (of_char c :: nat) in 0x21 \<le> n \<and> n \<le> 0x7e)"

lemma white_space_not_visible:
  "w \<in> set white_space \<Longrightarrow> w \<noteq> [] \<and> \<not> visible (hd w) \<and> \<not> visible (last w)"
  unfolding white_space_def by (auto simp: visible_def)

lemma strip_front_stop:
  assumes "\<And>w. w \<in> set ws \<Longrightarrow> w \<noteq> [] \<Longrightarrow> \<not> HasPrefix s w"
  shows "strip_front ws s = s"
proof -
  have "find (\<lambda>w. w \<noteq> [] \<and> HasPrefix s w) ws = None"
    using assms by (auto simp: find_None_iff)
  then show ?thesis
    by (subst strip_front.simps) simp
qed

lemma strip_front_visible [simp]:
  "visible c \<Longrightarrow> strip_front white_space (c # s) = c # s"
  "visible c \<Longrightarrow> strip_front (map rev white_space) (c # s) = c # s"
proof -
  assume c: "visible c"
  show "strip_front white_space (c # s) = c # s"
  proof (rule strip_front_stop)
    fix w assume "w \<in> set white_space" "w \<noteq> []"
    with c show "\<not> HasPrefix (c # s) w"
      using white_space_not_visible [of w] by (cases w) auto
  qed
  show "strip_front (map rev white_space) (c # s) = c # s"
  proof (rule strip_front_stop)
    fix w assume "w \<in> set (map rev white_space)" "w \<noteq> []"
    then obtain v where v: "v \<in> set white_space" "w = rev v" by auto
    with c show "\<not> HasPrefix (c # s) w"
      using white_space_not_visible [OF v(1)] by (cases v rule: rev_cases) auto
  qed
qed

lemma strip_front_Nil [simp]: "strip_front ws [] = []"
  by (rule strip_front_stop) simp

lemma strip_front_blank [simp]: "strip_front white_space (CHR '' '' # s) = strip_front white_space s"
proof -
  have "find (\<lambda>w. w \<noteq> [] \<and> HasPrefix (CHR '' '' # s) w) white_space = Some [CHR '' '']"
    by (simp add: white_space_def)
  then show ?thesis
    by (subst strip_front.simps) simp
qed

lemma TrimSpace_Nil [simp]: "TrimSpace [] = []"
  by (simp add: TrimSpace_def)

text \<open>Text that starts and ends with a visible character is left alone.\<close>

definition tidy :: "string \<Rightarrow> bool" where
  "tidy s \<longleftrightarrow> s = [] \<or> (visible (hd s) \<and> visible (last s))"

lemma TrimSpace_tidy [simp]: "tidy s \<Longrightarrow> TrimSpace s = s"
proof (cases "s = []")
  case False
  assume "tidy s"
  with False obtain c t where s: "s = c # t" "visible c" by (cases s) (auto simp: tidy_def)
  from False \<open>tidy s\<close> obtain d u where u: "s = u @ [d]" "visible d"
    by (cases s rule: rev_cases) (auto simp: tidy_def)
  have "strip_front white_space s = s"
    unfolding s(1) by (rule strip_front_visible(1) [OF s(2)])
  moreover have "strip_front (map rev white_space) (rev s) = rev s"
    unfolding u(1) using u(2) by simp
  ultimately show ?thesis
    by (simp add: TrimSpace_def)
qed (simp add: TrimSpace_def)

lemma TrimSpace_blank [simp]: "TrimSpace (CHR '' '' # s) = TrimSpace s"
  by (simp add: TrimSpace_def)

lemma tidy_visible: "list_all visible s \<Longrightarrow> tidy s"
  by (cases s rule: rev_cases) (auto simp: tidy_def hd_append list_all_iff)

lemma unreserved_not_space: "unreserved c \<Longrightarrow> c \<noteq> CHR '' ''"
  by (auto simp: unreserved_def)

end
