(* ===== verification/Encoding.thy ===== *)
theory Encoding
  imports Prelude
begin

text \<open>
  The text encodings of Go's standard library the program uses: \<open>base64.RawURLEncoding\<close>,
  lower-case hexadecimal (\<open>hex.EncodeToString\<close>, the verb \<open>%016x\<close>,
  \<open>strconv.ParseUint(s, 16, 64)\<close>) and decimal (\<open>strconv.FormatUint\<close>), with their round
  trips. A byte is read as a \<open>nat\<close> below 256.
\<close>

abbreviation (input) byte_val :: "char \<Rightarrow> nat" where
  "byte_val c \<equiv> of_char c"

lemma byte_val_less [simp]: "byte_val c < 256"
  by (metis of_char_mod_256 mod_less_divisor zero_less_numeral)


section \<open>Unpadded URL-safe base64\<close>

definition b64_char :: "nat \<Rightarrow> char" where
  "b64_char i =
     (if i < 26 then char_of (65 + i) else if i < 52 then char_of (71 + i)
      else if i < 62 then char_of (i - 4) else if i = 62 then CHR ''-'' else CHR ''_'')"

definition b64_val :: "char \<Rightarrow> nat option" where
  "b64_val c =
     (let n = byte_val c
      in if 65 \<le> n \<and> n \<le> 90 then Some (n - 65)
         else if 97 \<le> n \<and> n \<le> 122 then Some (n - 71)
         else if 48 \<le> n \<and> n \<le> 57 then Some (n + 4)
         else if n = 45 then Some 62 else if n = 95 then Some 63 else None)"

fun b64_quads :: "nat list \<Rightarrow> nat list" where
  "b64_quads [] = []"
| "b64_quads [a] = [a div 4, a mod 4 * 16]"
| "b64_quads [a, b] = [a div 4, a mod 4 * 16 + b div 16, b mod 16 * 4]"
| "b64_quads (a # b # c # xs) =
     [a div 4, a mod 4 * 16 + b div 16, b mod 16 * 4 + c div 64, c mod 64] @ b64_quads xs"

text \<open>
  The decoder is not strict: the bits of the last character beyond the last byte are ignored.
  One character left over is an error.
\<close>

fun b64_bytes :: "nat list \<Rightarrow> nat list option" where
  "b64_bytes [] = Some []"
| "b64_bytes [i] = None"
| "b64_bytes [i, j] = Some [i * 4 + j div 16]"
| "b64_bytes [i, j, k] = Some [i * 4 + j div 16, j mod 16 * 16 + k div 4]"
| "b64_bytes (i # j # k # l # xs) =
     map_option (\<lambda>ys. [i * 4 + j div 16, j mod 16 * 16 + k div 4, k mod 4 * 64 + l] @ ys)
       (b64_bytes xs)"

fun all_some :: "'a option list \<Rightarrow> 'a list option" where
  "all_some [] = Some []"
| "all_some (None # xs) = None"
| "all_some (Some x # xs) = map_option ((#) x) (all_some xs)"

definition b64_encode :: "bytes \<Rightarrow> string" where
  "b64_encode s = map b64_char (b64_quads (map byte_val s))"

text \<open>Carriage returns and line feeds are skipped wherever they stand, as Go's decoder does.\<close>

definition b64_decode :: "string \<Rightarrow> bytes option" where
  "b64_decode s =
     (case all_some (map b64_val (filter (\<lambda>c. byte_val c \<noteq> 10 \<and> byte_val c \<noteq> 13) s)) of
        None \<Rightarrow> None
      | Some vs \<Rightarrow> map_option (map char_of) (b64_bytes vs))"

lemma b64_byte_val_char:
  "i < 64 \<Longrightarrow> byte_val (b64_char i) =
     (if i < 26 then 65 + i else if i < 52 then 71 + i else if i < 62 then i - 4
      else if i = 62 then 45 else 95)"
  by (simp add: b64_char_def)

lemma b64_val_char: "i < 64 \<Longrightarrow> b64_val (b64_char i) = Some i"
  unfolding b64_val_def Let_def by (simp only: b64_byte_val_char) auto

lemma b64_char_plain:
  assumes "i < 64"
  shows "byte_val (b64_char i) \<noteq> 10 \<and> byte_val (b64_char i) \<noteq> 13 \<and> b64_char i \<noteq> CHR ''.''"
proof -
  have "byte_val (b64_char i) \<noteq> 46"
    using assms by (simp only: b64_byte_val_char) auto
  then have "b64_char i \<noteq> CHR ''.''" by auto
  moreover have "byte_val (b64_char i) \<noteq> 10 \<and> byte_val (b64_char i) \<noteq> 13"
    using assms by (simp only: b64_byte_val_char) auto
  ultimately show ?thesis by simp
qed

lemma div_less_of_256: "(a :: nat) < 256 \<Longrightarrow> a div 4 < 64" "(a :: nat) < 256 \<Longrightarrow> a div 16 < 16"
  "(a :: nat) < 256 \<Longrightarrow> a div 64 < 4"
  by auto

lemma sextet_less: "(m :: nat) < 4 \<Longrightarrow> q < 16 \<Longrightarrow> m * 16 + q < 64" "(m :: nat) < 16 \<Longrightarrow> q < 4 \<Longrightarrow> m * 4 + q < 64"
  by simp_all

lemma b64_quads_less: "\<forall>a \<in> set xs. a < 256 \<Longrightarrow> \<forall>i \<in> set (b64_quads xs). i < 64"
proof (induction xs rule: b64_quads.induct)
  case (4 a b c xs)
  have "b div 16 < 16" "c div 64 < 4"
    using "4.prems" by (auto simp: div_less_of_256)
  then have "a mod 4 * 16 + b div 16 < 64" "b mod 16 * 4 + c div 64 < 64"
    by (simp_all add: sextet_less)
  moreover have "c mod 64 < 64" by simp
  ultimately show ?case
    using 4 by (simp add: div_less_of_256 del: mod_less_divisor)
next
  case (3 a b)
  have "b div 16 < 16"
    using "3.prems" by (auto simp: div_less_of_256)
  then have "a mod 4 * 16 + b div 16 < 64" "b mod 16 * 4 + 0 < 64"
    by (simp_all only: sextet_less mod_less_divisor zero_less_numeral)
  with 3 show ?case by (simp add: div_less_of_256)
next
  case (2 a)
  have "a mod 4 * 16 + 0 < 64"
    by (intro sextet_less; simp)
  with 2 show ?case by (simp add: div_less_of_256)
qed simp

lemma top_bits:
  fixes b :: nat
  shows "b < 256 \<Longrightarrow> b div 16 div 16 = 0" "b < 256 \<Longrightarrow> b div 16 mod 16 = b div 16"
    and "b < 256 \<Longrightarrow> b div 64 div 4 = 0" "b < 256 \<Longrightarrow> b div 64 mod 4 = b div 64"
  by (simp_all add: div_less_of_256)

lemma b64_bytes_quads: "\<forall>a \<in> set xs. a < 256 \<Longrightarrow> b64_bytes (b64_quads xs) = Some xs"
  by (induction xs rule: b64_quads.induct) (simp_all add: top_bits)

lemma all_some_map: "(\<And>x. x \<in> set xs \<Longrightarrow> f x = Some (g x)) \<Longrightarrow> all_some (map f xs) = Some (map g xs)"
  by (induction xs) auto

lemma b64_encode_chars: "c \<in> set (b64_encode s) \<Longrightarrow> \<exists>i < 64. c = b64_char i"
  using b64_quads_less [of "map byte_val s"] by (auto simp: b64_encode_def)

lemma b64_decode_encode [simp]: "b64_decode (b64_encode s) = Some s"
proof -
  let ?qs = "b64_quads (map byte_val s)"
  have less: "\<forall>i \<in> set ?qs. i < 64"
    by (rule b64_quads_less) auto
  then have plain: "filter (\<lambda>c. byte_val c \<noteq> 10 \<and> byte_val c \<noteq> 13) (map b64_char ?qs) = map b64_char ?qs"
    by (intro filter_True) (auto dest: b64_char_plain)
  have vals: "all_some (map (\<lambda>i. b64_val (b64_char i)) ?qs) = Some ?qs"
    using less all_some_map [of ?qs "\<lambda>i. b64_val (b64_char i)" "\<lambda>i. i"] b64_val_char by auto
  have "b64_bytes ?qs = Some (map byte_val s)"
    by (rule b64_bytes_quads) auto
  then show ?thesis
    by (simp add: b64_decode_def b64_encode_def plain vals comp_def)
qed

lemma b64_encode_no_dot: "CHR ''.'' \<notin> set (b64_encode s)"
  using b64_encode_chars [of "CHR ''.''" s] b64_char_plain by metis

lemma b64_encode_eq_Nil [simp]: "b64_encode s = [] \<longleftrightarrow> s = []"
proof
  assume "b64_encode s = []"
  then have "b64_decode [] = Some s" by (metis b64_decode_encode)
  then show "s = []" by (simp add: b64_decode_def)
qed (simp add: b64_encode_def)


section \<open>Hexadecimal\<close>

definition hex_lower :: "nat \<Rightarrow> char" where
  "hex_lower n = (if n < 10 then char_of (48 + n) else char_of (87 + n))"

text \<open>\<open>hex_digits k n\<close> is \<open>n\<close> in \<open>k\<close> digits, the most significant first.\<close>

fun hex_digits :: "nat \<Rightarrow> nat \<Rightarrow> string" where
  "hex_digits 0 n = []"
| "hex_digits (Suc k) n = hex_digits k (n div 16) @ [hex_lower (n mod 16)]"

definition hexOf :: "64 word \<Rightarrow> string" where
  "hexOf v = hex_digits 16 (unat v)"

definition HexString :: "bytes \<Rightarrow> string" where
  "HexString s = concat (map (\<lambda>c. hex_digits 2 (byte_val c)) s)"

definition hex_val :: "char \<Rightarrow> nat option" where
  "hex_val c =
     (let n = byte_val c
      in if 48 \<le> n \<and> n \<le> 57 then Some (n - 48)
         else if 97 \<le> n \<and> n \<le> 102 then Some (n - 87)
         else if 65 \<le> n \<and> n \<le> 70 then Some (n - 55) else None)"

definition hex_value :: "nat list \<Rightarrow> nat" where
  "hex_value = foldl (\<lambda>n d. n * 16 + d) 0"

text \<open>\<open>strconv.ParseUint(s, 16, 64)\<close>: at least one digit, and the value must fit 64 bits.\<close>

definition ParseHex64 :: "string \<Rightarrow> 64 word option" where
  "ParseHex64 s =
     (case all_some (map hex_val s) of
        None \<Rightarrow> None
      | Some ds \<Rightarrow>
          (if ds = [] \<or> hex_value ds \<ge> 2 ^ 64 then None else Some (of_nat (hex_value ds))))"

lemma hex_val_lower: "n < 16 \<Longrightarrow> hex_val (hex_lower n) = Some n"
proof -
  assume "n < 16"
  then have "byte_val (hex_lower n) = (if n < 10 then 48 + n else 87 + n)"
    by (simp add: hex_lower_def)
  with \<open>n < 16\<close> show ?thesis
    unfolding hex_val_def Let_def by auto
qed

lemma length_hex_digits [simp]: "length (hex_digits k n) = k"
  by (induction k arbitrary: n) auto

lemma length_HexString [simp]: "length (HexString s) = 2 * length s"
  by (induction s) (auto simp: HexString_def)

lemma HexString_eq_Nil [simp]: "HexString s = [] \<longleftrightarrow> s = []"
  by (simp flip: length_0_conv)

fun hex_nibbles :: "nat \<Rightarrow> nat \<Rightarrow> nat list" where
  "hex_nibbles 0 n = []"
| "hex_nibbles (Suc k) n = hex_nibbles k (n div 16) @ [n mod 16]"

lemma hex_digits_nibbles: "hex_digits k n = map hex_lower (hex_nibbles k n)"
  by (induction k arbitrary: n) auto

lemma hex_nibbles_less: "d \<in> set (hex_nibbles k n) \<Longrightarrow> d < 16"
  by (induction k arbitrary: n) auto

lemma hex_value_nibbles: "n < 16 ^ k \<Longrightarrow> hex_value (hex_nibbles k n) = n"
proof (induction k arbitrary: n)
  case 0
  then show ?case by (simp add: hex_value_def)
next
  case (Suc k)
  from Suc.prems have "n div 16 < 16 ^ k"
    by (simp add: less_mult_imp_div_less mult.commute)
  then have "foldl (\<lambda>n d. n * 16 + d) 0 (hex_nibbles k (n div 16)) = n div 16"
    using Suc.IH by (simp add: hex_value_def)
  then show ?case by (simp add: hex_value_def)
qed

lemma all_some_hex: "all_some (map hex_val (hex_digits k n)) = Some (hex_nibbles k n)"
  using all_some_map [of "hex_nibbles k n" "\<lambda>i. hex_val (hex_lower i)" "\<lambda>i. i"]
  by (auto simp: hex_digits_nibbles comp_def hex_val_lower hex_nibbles_less)

lemma unat_less_16: "unat (v :: 64 word) < 2 ^ 64"
  using unsigned_less [of v] by simp

lemma hex_nibbles_not_Nil: "0 < k \<Longrightarrow> hex_nibbles k n \<noteq> []"
  by (cases k) auto

lemma ParseHex64_hexOf [simp]: "ParseHex64 (hexOf v) = Some v"
proof -
  have "hex_nibbles 16 (unat v) \<noteq> []"
    by (rule hex_nibbles_not_Nil) simp
  moreover have "hex_value (hex_nibbles 16 (unat v)) = unat v"
    using unat_less_16 [of v] by (intro hex_value_nibbles) simp
  ultimately show ?thesis
    using unat_less_16 [of v]
    by (simp add: ParseHex64_def hexOf_def all_some_hex del: hex_nibbles.simps)
qed

lemma hexOf_inject [simp]: "hexOf v = hexOf w \<longleftrightarrow> v = w"
  by (metis ParseHex64_hexOf option.inject)

lemma hexOf_not_Nil [simp]: "hexOf v \<noteq> []"
  using length_hex_digits [of 16 "unat v"] by (auto simp: hexOf_def simp del: length_hex_digits)


section \<open>Decimal\<close>

fun FormatUint :: "nat \<Rightarrow> string" where
  "FormatUint n = (if n < 10 then [char_of (48 + n)]
     else FormatUint (n div 10) @ [char_of (48 + n mod 10)])"

declare FormatUint.simps [simp del]

lemma FormatUint_not_Nil [simp]: "FormatUint n \<noteq> []"
  by (subst FormatUint.simps) simp

lemma digit_char_inject:
  fixes a b :: nat
  assumes "a < 10" "b < 10" and "(char_of (48 + a) :: char) = char_of (48 + b)"
  shows "a = b"
proof -
  from assms(3) have "byte_val (char_of (48 + a)) = byte_val (char_of (48 + b))" by simp
  with assms(1,2) show ?thesis by simp
qed

lemma FormatUint_small: "n < 10 \<Longrightarrow> FormatUint n = [char_of (48 + n)]"
  by (subst FormatUint.simps) simp

lemma FormatUint_big: "\<not> n < 10 \<Longrightarrow> FormatUint n = FormatUint (n div 10) @ [char_of (48 + n mod 10)]"
  by (subst FormatUint.simps) simp

lemma FormatUint_inject: "FormatUint m = FormatUint n \<Longrightarrow> m = n"
proof (induction m arbitrary: n rule: FormatUint.induct)
  case (1 m)
  show ?case
  proof (cases "m < 10 \<or> n < 10")
    case True
    with "1.prems" have "m < 10 \<and> n < 10"
      by (cases "m < 10"; cases "n < 10") (auto simp: FormatUint_small FormatUint_big dest: sym)
    with "1.prems" show ?thesis
      by (auto simp: FormatUint_small intro: digit_char_inject)
  next
    case False
    with "1.prems" have eq: "FormatUint (m div 10) = FormatUint (n div 10)"
      and last: "(char_of (48 + m mod 10) :: char) = char_of (48 + n mod 10)"
      by (auto simp: FormatUint_big)
    have "m mod 10 = n mod 10"
      by (rule digit_char_inject [OF _ _ last]) simp_all
    moreover have "m div 10 = n div 10"
      using "1.IH" [OF _ eq] False by simp
    ultimately show ?thesis
      by (metis div_mult_mod_eq)
  qed
qed

end
