(* ===== verification/Protocol.thy ===== *)
theory Protocol
  imports Encoding
begin

text \<open>
  The bus protocol (\<open>internal/protocol/protocol.go\<close>) and the overload rule
  (\<open>internal/overload/overload.go\<close>): messages and replies as records, the checks a
  message must pass before it is queued, and the constructors of replies. JSON decoding is
  the parameter \<open>unmarshal\<close>: it gives the decoded request, or nothing for invalid JSON.
\<close>

section \<open>Messages\<close>

record conn =
  conn_ClientIP :: string

record http =
  http_Method :: string
  http_URI :: string

record response =
  rsp_Status :: int
  rsp_Headers :: "header list"

record locator =
  loc_Driver :: string
  loc_Key :: string
  loc_Unavailable :: string
  loc_Encrypted :: bool

record store_section =
  st_Headers :: "locator option"
  st_Args :: "locator option"
  st_Body :: "locator option"

record object_spec =
  os_Set :: string
  os_Limit :: int
  os_Source :: string

record action =
  act_To :: string
  act_Do :: string
  act_Apply :: string
  act_Phase :: string
  act_Code :: string
  act_Delta :: int
  act_Value :: int
  act_Counter :: string
  act_Marker :: string
  act_Group :: string
  act_Set :: string
  act_TTL :: "int option"
  act_When :: "string list"
  act_Headers :: "object_spec option"
  act_Args :: "object_spec option"
  act_Body :: "object_spec option"

record prior_verdict =
  pv_Phase :: string
  pv_Inspector :: string
  pv_Verdict :: string
  pv_Actions :: "action list"

record request =
  req_V :: int
  req_RID :: string
  req_Ray :: string
  req_Phase :: string
  req_Inspector :: string
  req_DeadlineMS :: int
  req_AuditSubject :: "string option"
  req_Node :: string
  req_Conn :: conn
  req_HTTP :: http
  req_Needs :: "string list"
  req_Store :: store_section
  req_Profile :: string
  req_Prior :: "prior_verdict list"
  req_Response :: "response option"
  req_RequestStore :: "store_section option"

abbreviation "PhaseRequest \<equiv> ''request''"
abbreviation "PhaseResponse \<equiv> ''response''"
abbreviation "PhaseFrame \<equiv> ''frame''"

abbreviation "DoChallenge \<equiv> ''challenge''"
abbreviation "DoThreshold \<equiv> ''threshold''"
abbreviation "DoSkip \<equiv> ''skip''"
abbreviation "DoReauth \<equiv> ''reauth''"
abbreviation "DoNote \<equiv> ''note''"
abbreviation "DoMutate \<equiv> ''mutate''"
abbreviation "DoActive \<equiv> ''active''"
abbreviation "DoPassive \<equiv> ''passive''"
abbreviation "DoOff \<equiv> ''off''"
abbreviation "DoVote \<equiv> ''vote''"
abbreviation "DoAudit \<equiv> ''audit''"
abbreviation "DoArchive \<equiv> ''archive''"
abbreviation "DoMark \<equiv> ''mark''"
abbreviation "DoScore \<equiv> ''score''"

abbreviation "ApplyRequest \<equiv> ''request''"
abbreviation "ApplyIP \<equiv> ''ip''"
abbreviation "ApplyASN \<equiv> ''asn''"
abbreviation "ApplySession \<equiv> ''session''"
abbreviation "ApplyConn \<equiv> ''conn''"
abbreviation "ApplyResponse \<equiv> ''response''"

definition Locator_Placed :: "locator option \<Rightarrow> bool" where
  "Locator_Placed l = (case l of None \<Rightarrow> False
     | Some l \<Rightarrow> loc_Unavailable l = [] \<and> loc_Driver l \<noteq> [] \<and> loc_Key l \<noteq> [])"

definition Action_Scope :: "action \<Rightarrow> string" where
  "Action_Scope a = (if act_Apply a = [] then ApplyRequest else act_Apply a)"

fun member_loop :: "'a list \<Rightarrow> 'a \<Rightarrow> bool" where
  "member_loop [] x = False"
| "member_loop (y # ys) x = (if y = x then True else member_loop ys x)"

lemma member_loop_iff [simp]: "member_loop ys x \<longleftrightarrow> x \<in> set ys"
  by (induction ys) auto

definition Request_Needed :: "request \<Rightarrow> string \<Rightarrow> bool" where
  "Request_Needed r obj = member_loop (req_Needs r) obj"


section \<open>Checks of the parts of an ask\<close>

datatype part_error =
    WhenUnknown string | WhenTwice string
  | SpecSet | SpecLimit | SpecSource
  | MarkEmpty | MarkLong | MarkControl | MarkSpace

fun archive_scan :: "case_tables \<Rightarrow> string list \<Rightarrow> string list \<Rightarrow> part_error + string list" where
  "archive_scan ct seen [] = Inr seen"
| "archive_scan ct seen (word # ws) =
     (let name = ct_lower ct (TrimSpace word)
      in if name \<noteq> ''allow'' \<and> name \<noteq> ''deny'' then Inl (WhenUnknown word)
         else if name \<in> set seen then Inl (WhenTwice name)
         else archive_scan ct (name # seen) ws)"

definition CheckArchiveWhen :: "case_tables \<Rightarrow> string list \<Rightarrow> part_error + string list" where
  "CheckArchiveWhen ct words =
     (case archive_scan ct [] words of
        Inl e \<Rightarrow> Inl e
      | Inr seen \<Rightarrow> Inr (filter (\<lambda>n. n \<in> set seen) [''allow'', ''deny'']))"

definition CheckObjectSpec :: "object_spec option \<Rightarrow> part_error option" where
  "CheckObjectSpec spec =
     (case spec of None \<Rightarrow> None
      | Some s \<Rightarrow> first_err
          [(os_Set s \<noteq> [] \<and> os_Set s \<noteq> ''on'' \<and> os_Set s \<noteq> ''off'', SpecSet),
           (os_Limit s < 0, SpecLimit),
           (os_Source s \<noteq> [] \<and> os_Source s \<noteq> ''store'' \<and> os_Source s \<noteq> ''original'', SpecSource)])"

definition MarkerMax :: nat where
  "MarkerMax = 128"

definition CheckMarker :: "string \<Rightarrow> part_error option" where
  "CheckMarker marker = first_err
     [(marker = [], MarkEmpty),
      (length marker > MarkerMax, MarkLong),
      (list_ex (\<lambda>c. byte_val c < 0x20 \<or> byte_val c = 0x7f) marker, MarkControl),
      (marker \<noteq> [] \<and> (hd marker = CHR '' '' \<or> last marker = CHR '' ''), MarkSpace)]"


section \<open>Replies\<close>

abbreviation "VerdictAllow \<equiv> ''allow''"
abbreviation "VerdictScore \<equiv> ''score''"
abbreviation "VerdictRedirect \<equiv> ''redirect''"
abbreviation "VerdictDeny \<equiv> ''deny''"
abbreviation "VerdictError \<equiv> ''error''"

abbreviation "SessionOwn \<equiv> ''own''"
abbreviation "SessionJWT \<equiv> ''jwt''"
abbreviation "SessionApp \<equiv> ''app''"

record reason =
  rsn_Code :: string
  rsn_Class :: string

record redirect_ref =
  rd_URL :: string
  rd_Status :: int

record cookie =
  ck_Name :: string
  ck_Value :: string
  ck_Path :: string
  ck_MaxAge :: int

record rewrite =
  rw_Key :: string
  rw_Size :: int
  rw_SHA256 :: string
  rw_ContentType :: string

record psession =
  ps_Source :: string
  ps_Kind :: string
  ps_User :: string
  ps_ID :: string
  ps_Verified :: bool
  ps_Issued :: int
  ps_Expires :: int
  ps_Groups :: "string list"

record reply =
  rp_V :: int
  rp_RID :: string
  rp_Inspector :: string
  rp_Verdict :: string
  rp_Score :: "int option"
  rp_Reason :: "reason option"
  rp_Response :: "string option"
  rp_Redirect :: "redirect_ref option"
  rp_HeaderSet :: "(string \<rightharpoonup> string) option"
  rp_Rewrite :: "rewrite option"
  rp_Cookies :: "cookie list"
  rp_Actions :: "action list"
  rp_Sessions :: "psession list"

definition ProtocolVersion :: int where
  "ProtocolVersion = 2"

definition blank_reply :: "int \<Rightarrow> string \<Rightarrow> string \<Rightarrow> string \<Rightarrow> reply" where
  "blank_reply v rid inspector verdict =
     \<lparr>rp_V = v, rp_RID = rid, rp_Inspector = inspector, rp_Verdict = verdict, rp_Score = None,
      rp_Reason = None, rp_Response = None, rp_Redirect = None, rp_HeaderSet = None,
      rp_Rewrite = None, rp_Cookies = [], rp_Actions = [], rp_Sessions = []\<rparr>"

definition NewReply :: "request \<Rightarrow> string \<Rightarrow> reply" where
  "NewReply req verdict = blank_reply (req_V req) (req_RID req) (req_Inspector req) verdict"

definition ErrorReply :: "request \<Rightarrow> string \<Rightarrow> reply" where
  "ErrorReply req code =
     (NewReply req VerdictError)\<lparr>rp_Reason := Some \<lparr>rsn_Code = code, rsn_Class = []\<rparr>\<rparr>"

definition ShedReply :: "request \<Rightarrow> string \<Rightarrow> reply" where
  "ShedReply req code =
     (ErrorReply req code)\<lparr>rp_Reason := Some \<lparr>rsn_Code = code, rsn_Class = ''overload''\<rparr>\<rparr>"

definition FallbackReply :: "string \<Rightarrow> string \<Rightarrow> string \<Rightarrow> reply" where
  "FallbackReply rid inspector code =
     (blank_reply ProtocolVersion rid inspector VerdictError)
       \<lparr>rp_Reason := Some \<lparr>rsn_Code = code, rsn_Class = []\<rparr>\<rparr>"

definition Reply_SetHeader :: "string \<Rightarrow> string \<Rightarrow> reply \<Rightarrow> reply" where
  "Reply_SetHeader name value r =
     (if name = [] then r
      else r\<lparr>rp_HeaderSet := Some ((case rp_HeaderSet r of None \<Rightarrow> Map.empty | Some m \<Rightarrow> m)(name \<mapsto> value))\<rparr>)"

datatype score_error = ErrScoreRange int

definition Reply_WithScore :: "int \<Rightarrow> reply \<Rightarrow> score_error + reply" where
  "Reply_WithScore score r =
     (if score < 0 \<or> score > 100 then Inl (ErrScoreRange score)
      else Inr (r\<lparr>rp_Verdict := VerdictScore, rp_Score := Some score\<rparr>))"

text \<open>\<open>Marshal\<close> refuses a score out of range; the JSON text of the rest is \<open>marshal\<close>.\<close>

definition Reply_Marshal :: "(reply \<Rightarrow> bytes) \<Rightarrow> reply \<Rightarrow> score_error + bytes" where
  "Reply_Marshal marshal r =
     (case rp_Score r of
        Some s \<Rightarrow> (if s < 0 \<or> s > 100 then Inl (ErrScoreRange s) else Inr (marshal r))
      | None \<Rightarrow> Inr (marshal r))"


section \<open>Parsing a message\<close>

datatype parse_error_kind =
  PE_json | PE_rid | PE_version | PE_inspector | PE_phase | PE_http | PE_locator

record parse_error =
  pe_RID :: string
  pe_Err :: parse_error_kind

text \<open>
  \<open>Locator.validate\<close> as a test. The source checks the three locators in the order of a map
  iteration, which Go leaves open; all give the same kind of error.
\<close>

definition Locator_validate :: "locator option \<Rightarrow> bool" where
  "Locator_validate l =
     (case l of None \<Rightarrow> True
      | Some l \<Rightarrow>
          \<not> (loc_Unavailable l \<noteq> [] \<and> (loc_Driver l \<noteq> [] \<or> loc_Key l \<noteq> []))
          \<and> (loc_Driver l = []) = (loc_Key l = []))"

text \<open>
  The regular expression \<open>"rid"\s*:\s*"([0-9a-fA-F]{1,32})"\<close>, searched from the left.
\<close>

abbreviation quote :: char where
  "quote \<equiv> CHR 0x22"

definition re_space :: "char \<Rightarrow> bool" where
  "re_space c \<longleftrightarrow> byte_val c \<in> {9, 10, 12, 13, 32}"

definition is_hex :: "char \<Rightarrow> bool" where
  "is_hex c \<longleftrightarrow> hex_val c \<noteq> None"

definition rid_match :: "string \<Rightarrow> string option" where
  "rid_match s =
     (if \<not> HasPrefix s ([quote] @ ''rid'' @ [quote]) then None
      else (case dropWhile re_space (drop 5 s) of
              [] \<Rightarrow> None
            | c # t \<Rightarrow>
                (if c \<noteq> CHR '':'' then None
                 else (case dropWhile re_space t of
                         [] \<Rightarrow> None
                       | q # u \<Rightarrow>
                           (let h = takeWhile is_hex u; rest = dropWhile is_hex u
                            in if q = quote \<and> h \<noteq> [] \<and> length h \<le> 32 \<and> HasPrefix rest [quote]
                               then Some h else None)))))"

fun sniffRID :: "bytes \<Rightarrow> string" where
  "sniffRID [] = []"
| "sniffRID (c # s) = (case rid_match (c # s) of Some rid \<Rightarrow> rid | None \<Rightarrow> sniffRID s)"

definition Parse :: "(bytes \<Rightarrow> request option) \<Rightarrow> bytes \<Rightarrow> parse_error + request" where
  "Parse unmarshal payload =
     (case unmarshal payload of
        None \<Rightarrow> Inl \<lparr>pe_RID = sniffRID payload, pe_Err = PE_json\<rparr>
      | Some req \<Rightarrow>
          (case first_err
             [(req_RID req = [], \<lparr>pe_RID = [], pe_Err = PE_rid\<rparr>),
              (req_V req = 0, \<lparr>pe_RID = req_RID req, pe_Err = PE_version\<rparr>),
              (req_Inspector req = [], \<lparr>pe_RID = req_RID req, pe_Err = PE_inspector\<rparr>),
              (req_Phase req \<notin> {PhaseRequest, PhaseResponse, PhaseFrame},
                 \<lparr>pe_RID = req_RID req, pe_Err = PE_phase\<rparr>),
              (http_Method (req_HTTP req) = [] \<or> http_URI (req_HTTP req) = [],
                 \<lparr>pe_RID = req_RID req, pe_Err = PE_http\<rparr>),
              (\<not> (Locator_validate (st_Headers (req_Store req)) \<and>
                  Locator_validate (st_Args (req_Store req)) \<and>
                  Locator_validate (st_Body (req_Store req))),
                 \<lparr>pe_RID = req_RID req, pe_Err = PE_locator\<rparr>)] of
             Some e \<Rightarrow> Inl e
           | None \<Rightarrow> Inr req))"


section \<open>Overload\<close>

definition AtMin :: int where "AtMin = 25"
definition AtMax :: int where "AtMax = 100"

abbreviation "OnOverload \<equiv> ''overload''"

definition overload_At :: "int option \<Rightarrow> int" where
  "overload_At at = (case at of None \<Rightarrow> AtMax | Some a \<Rightarrow> a)"

text \<open>\<open>overload.Check\<close>: whether the threshold is accepted.\<close>

definition overload_Check :: "int option \<Rightarrow> bool" where
  "overload_Check at = (case at of None \<Rightarrow> True | Some a \<Rightarrow> \<not> (a < AtMin \<or> a > AtMax))"

definition overload_Fires :: "int \<Rightarrow> int \<Rightarrow> bool \<Rightarrow> bool" where
  "overload_Fires at fill shed = (if shed then True else at < AtMax \<and> fill \<ge> at)"


section \<open>Facts\<close>

lemma Locator_Placed_valid: "Locator_Placed l \<Longrightarrow> Locator_validate l"
  by (auto simp: Locator_Placed_def Locator_validate_def split: option.splits)

text \<open>An accepted message has the parts the handlers read without a further check.\<close>

definition well_formed :: "request \<Rightarrow> bool" where
  "well_formed req \<longleftrightarrow>
     req_RID req \<noteq> [] \<and> req_V req \<noteq> 0 \<and> req_Inspector req \<noteq> [] \<and>
     req_Phase req \<in> {PhaseRequest, PhaseResponse, PhaseFrame} \<and>
     http_Method (req_HTTP req) \<noteq> [] \<and> http_URI (req_HTTP req) \<noteq> [] \<and>
     Locator_validate (st_Headers (req_Store req)) \<and>
     Locator_validate (st_Args (req_Store req)) \<and>
     Locator_validate (st_Body (req_Store req))"

lemma Parse_Inr: "Parse unmarshal payload = Inr req \<longleftrightarrow> unmarshal payload = Some req \<and> well_formed req"
  by (auto simp: Parse_def well_formed_def split: option.splits)

lemma sniffRID_plain:
  "sniffRID s = rid \<Longrightarrow> rid = [] \<or> (length rid \<le> 32 \<and> list_all is_hex rid)"
proof (induction s arbitrary: rid rule: sniffRID.induct)
  case 1
  then show ?case by simp
next
  case (2 c s)
  have "rid_match t = Some r \<Longrightarrow> length r \<le> 32 \<and> list_all is_hex r" for t r
    by (auto simp: rid_match_def Let_def list_all_iff dest: set_takeWhileD split: if_splits list.splits)
  with 2 show ?case
    by (auto split: option.splits)
qed

lemma Action_Scope_not_Nil [simp]: "Action_Scope a \<noteq> []"
  by (simp add: Action_Scope_def)

end
