(* ===== verification/Queue.thy ===== *)
theory Queue
  imports Protocol "HOL-Library.Multiset"
begin

text \<open>
  The bounded queue between the bus and the workers (\<open>internal/queue/queue.go\<close>). The pool's
  mutex makes each critical section one atomic step; a step relation interleaves the
  goroutines that submit, wait, sweep and work. A task between two critical sections is in the
  hands of its goroutine: \<open>pp_entered\<close> before \<open>Submit\<close> has the lock, \<open>pp_wait\<close> in
  \<open>submitWaitLocked\<close>, \<open>pp_taken\<close> with a worker. \<open>pp_calls\<close> is the trace of the handler's
  calls. The traffic counter \<open>io\<close> is not modelled. Every clock reading is an argument.
\<close>

abbreviation "ReasonQueueLimit \<equiv> ''AUTH_QUEUE_LIMIT''"
abbreviation "ReasonDeadlineExceeded \<equiv> ''AUTH_DEADLINE_EXCEEDED''"
abbreviation "FullDrop \<equiv> ''drop''"
abbreviation "FullWait \<equiv> ''wait''"

record task =
  qt_Req :: request
  qt_Reply :: string
  qt_Fill :: nat
  qt_enqueued :: time

record call =
  cl_task :: task
  cl_budget :: duration
  cl_shed :: string

record pool =
  pp_q :: "task list"
  pp_depth :: nat
  pp_closed :: bool
  pp_full :: string
  pp_reserve :: duration
  pp_minBudget :: duration
  pp_Accepted :: int
  pp_Shed :: int
  pp_Expired :: int
  pp_entered :: "task list"
  pp_wait :: "task list"
  pp_taken :: "task list"
  pp_calls :: "call list"

definition NewPool :: "int \<Rightarrow> int \<Rightarrow> int \<Rightarrow> string \<Rightarrow> pool" where
  "NewPool depth reserveMS minBudgetMS full =
     \<lparr>pp_q = [], pp_depth = (if depth < 1 then 1 else nat depth), pp_closed = False,
      pp_full = (if full = [] then FullDrop else full), pp_reserve = reserveMS * millisecond,
      pp_minBudget = minBudgetMS * millisecond, pp_Accepted = 0, pp_Shed = 0, pp_Expired = 0,
      pp_entered = [], pp_wait = [], pp_taken = [], pp_calls = []\<rparr>"

definition leftAt :: "pool \<Rightarrow> task \<Rightarrow> time \<Rightarrow> duration" where
  "leftAt p t now = req_DeadlineMS (qt_Req t) * millisecond - (now - qt_enqueued t) - pp_reserve p"

definition fillLocked :: "pool \<Rightarrow> nat" where
  "fillLocked p =
     (if length (pp_q p) \<ge> pp_depth p then 100 else length (pp_q p) * 100 div pp_depth p)"

definition handle :: "task \<Rightarrow> duration \<Rightarrow> string \<Rightarrow> pool \<Rightarrow> pool" where
  "handle t budget shed p =
     p\<lparr>pp_calls := pp_calls p @ [\<lparr>cl_task = t, cl_budget = budget, cl_shed = shed\<rparr>]\<rparr>"

definition expire :: "task \<Rightarrow> duration \<Rightarrow> pool \<Rightarrow> pool" where
  "expire t left p = handle t left ReasonDeadlineExceeded (p\<lparr>pp_Expired := pp_Expired p + 1\<rparr>)"

definition shedLimit :: "task \<Rightarrow> pool \<Rightarrow> pool" where
  "shedLimit t p = handle t 0 ReasonQueueLimit (p\<lparr>pp_Shed := pp_Shed p + 1\<rparr>)"

fun replyDead :: "task list \<Rightarrow> pool \<Rightarrow> pool" where
  "replyDead [] p = p"
| "replyDead (t # ts) p = replyDead ts (expire t 0 p)"

definition enqueueLocked :: "task \<Rightarrow> pool \<Rightarrow> pool" where
  "enqueueLocked t p = p\<lparr>pp_q := pp_q p @ [t], pp_Accepted := pp_Accepted p + 1\<rparr>"

text \<open>The loop of \<open>takeExpiredLocked\<close>: what is kept and what is dead.\<close>

fun split_expired :: "pool \<Rightarrow> time \<Rightarrow> task list \<Rightarrow> task list \<times> task list" where
  "split_expired p now [] = ([], [])"
| "split_expired p now (t # ts) =
     (let (kept, dead) = split_expired p now ts
      in if leftAt p t now < pp_minBudget p then (kept, t # dead) else (t # kept, dead))"

definition takeExpiredLocked :: "time \<Rightarrow> pool \<Rightarrow> pool \<times> task list" where
  "takeExpiredLocked now p =
     (let (kept, dead) = split_expired p now (pp_q p) in (p\<lparr>pp_q := kept\<rparr>, dead))"

text \<open>\<open>collectExpired\<close> with the replies to what it found: a tick of \<open>sweep\<close>, or part of \<open>Submit\<close>.\<close>

definition collect :: "time \<Rightarrow> pool \<Rightarrow> pool" where
  "collect now p = (let (p, dead) = takeExpiredLocked now p in replyDead dead p)"


section \<open>Submitting\<close>

text \<open>\<open>Submit\<close> up to the lock: a task with too little time left is answered at once.\<close>

definition Submit_arrive :: "task \<Rightarrow> time \<Rightarrow> time \<Rightarrow> pool \<Rightarrow> pool" where
  "Submit_arrive t now now' p =
     (if leftAt p t now < pp_minBudget p then expire t (leftAt p t now') p
      else p\<lparr>pp_entered := pp_entered p @ [t]\<rparr>)"

text \<open>The critical section of \<open>Submit\<close>, with the first check of \<open>submitWaitLocked\<close>.\<close>

definition Submit_locked :: "task \<Rightarrow> time \<Rightarrow> pool \<Rightarrow> pool" where
  "Submit_locked t now p =
     (let p = p\<lparr>pp_entered := remove1 t (pp_entered p)\<rparr>
      in if pp_closed p then expire t 0 p
         else
           (let t = t\<lparr>qt_Fill := fillLocked p\<rparr>
            in if length (pp_q p) < pp_depth p then enqueueLocked t p
               else if pp_full p = FullWait then
                 (let left = leftAt p t now
                  in if left < pp_minBudget p then expire t left p
                     else p\<lparr>pp_wait := pp_wait p @ [t]\<rparr>)
               else shedLimit t p))"

text \<open>The end of \<open>submitWaitLocked\<close>, once its loop has stopped.\<close>

definition submitWait_end :: "task \<Rightarrow> pool \<Rightarrow> pool" where
  "submitWait_end t p =
     (let p = p\<lparr>pp_wait := remove1 t (pp_wait p)\<rparr>
      in if pp_closed p then expire t 0 p
         else if length (pp_q p) < pp_depth p then enqueueLocked t p
         else expire t 0 p)"


section \<open>Working\<close>

text \<open>One pass of \<open>pop\<close>: the dead are replied to, a first task is taken if there is one.\<close>

definition pop :: "time \<Rightarrow> pool \<Rightarrow> pool" where
  "pop now p =
     (let (p, dead) = takeExpiredLocked now p;
          p = (case pp_q p of [] \<Rightarrow> p | t # q \<Rightarrow> p\<lparr>pp_q := q, pp_taken := pp_taken p @ [t]\<rparr>)
      in replyDead dead p)"

text \<open>\<open>budget\<close> and the handler's call.\<close>

definition work :: "task \<Rightarrow> time \<Rightarrow> pool \<Rightarrow> pool" where
  "work t now p =
     (let p = p\<lparr>pp_taken := remove1 t (pp_taken p)\<rparr>; left = leftAt p t now
      in if left < pp_minBudget p
         then handle t left ReasonDeadlineExceeded (p\<lparr>pp_Expired := pp_Expired p + 1\<rparr>)
         else handle t left [] p)"

definition Pool_Close :: "pool \<Rightarrow> pool" where
  "Pool_Close p = p\<lparr>pp_closed := True\<rparr>"


section \<open>The steps\<close>

text \<open>
  \<open>h\<close> is the list of the tasks submitted so far. A waiting submitter goes on when the pool is
  closed, the queue has room, or its timer, set to the time left, has fired.
\<close>

inductive pool_steps :: "pool \<Rightarrow> task list \<Rightarrow> pool \<Rightarrow> bool" for p0 where
  start: "pool_steps p0 [] p0"
| arrive: "pool_steps p0 h p \<Longrightarrow> pool_steps p0 (t # h) (Submit_arrive t now now' p)"
| locked: "pool_steps p0 h p \<Longrightarrow> t \<in> set (pp_entered p) \<Longrightarrow> pool_steps p0 h (Submit_locked t now p)"
| resume: "pool_steps p0 h p \<Longrightarrow> t \<in> set (pp_wait p) \<Longrightarrow>
    pp_closed p \<or> length (pp_q p) < pp_depth p \<or> leftAt p t now \<le> 0 \<Longrightarrow>
    pool_steps p0 h (submitWait_end t p)"
| sweep: "pool_steps p0 h p \<Longrightarrow> pool_steps p0 h (collect now p)"
| pop: "pool_steps p0 h p \<Longrightarrow> pool_steps p0 h (pop now p)"
| work: "pool_steps p0 h p \<Longrightarrow> t \<in> set (pp_taken p) \<Longrightarrow> pool_steps p0 h (work t now p)"
| close: "pool_steps p0 h p \<Longrightarrow> pool_steps p0 h (Pool_Close p)"


section \<open>Facts\<close>

lemma handle_simps [simp]:
  "pp_q (handle t b r p) = pp_q p" "pp_depth (handle t b r p) = pp_depth p"
  "pp_minBudget (handle t b r p) = pp_minBudget p" "pp_reserve (handle t b r p) = pp_reserve p"
  "pp_Expired (handle t b r p) = pp_Expired p" "pp_Shed (handle t b r p) = pp_Shed p"
  "pp_entered (handle t b r p) = pp_entered p" "pp_wait (handle t b r p) = pp_wait p"
  "pp_taken (handle t b r p) = pp_taken p" "pp_closed (handle t b r p) = pp_closed p"
  "pp_calls (handle t b r p) = pp_calls p @ [\<lparr>cl_task = t, cl_budget = b, cl_shed = r\<rparr>]"
  by (simp_all add: handle_def)

lemma replyDead_simps [simp]:
  "pp_q (replyDead ts p) = pp_q p" "pp_depth (replyDead ts p) = pp_depth p"
  "pp_minBudget (replyDead ts p) = pp_minBudget p" "pp_reserve (replyDead ts p) = pp_reserve p"
  "pp_Expired (replyDead ts p) = pp_Expired p + int (length ts)" "pp_Shed (replyDead ts p) = pp_Shed p"
  "pp_entered (replyDead ts p) = pp_entered p" "pp_wait (replyDead ts p) = pp_wait p"
  "pp_taken (replyDead ts p) = pp_taken p" "pp_closed (replyDead ts p) = pp_closed p"
  "pp_calls (replyDead ts p) = pp_calls p @
     map (\<lambda>t. \<lparr>cl_task = t, cl_budget = 0, cl_shed = ReasonDeadlineExceeded\<rparr>) ts"
  by (induction ts arbitrary: p) (simp_all add: expire_def)

lemma split_expired_filter:
  "split_expired p now ts =
     (filter (\<lambda>t. \<not> leftAt p t now < pp_minBudget p) ts, filter (\<lambda>t. leftAt p t now < pp_minBudget p) ts)"
  by (induction ts) auto

lemmas pool_defs = Submit_arrive_def Submit_locked_def submitWait_end_def collect_def pop_def work_def
  Pool_Close_def takeExpiredLocked_def split_expired_filter enqueueLocked_def expire_def shedLimit_def Let_def

text \<open>The settings never change, and the queue never outgrows its depth.\<close>

definition pool_bounded :: "pool \<Rightarrow> pool \<Rightarrow> bool" where
  "pool_bounded p0 p \<longleftrightarrow> pp_depth p = pp_depth p0 \<and> pp_minBudget p = pp_minBudget p0 \<and>
     pp_reserve p = pp_reserve p0 \<and> length (pp_q p) \<le> pp_depth p"

lemma pool_steps_bounded:
  assumes "pool_steps p0 h p" "length (pp_q p0) \<le> pp_depth p0"
  shows "pool_bounded p0 p"
  using assms
proof (induction rule: pool_steps.induct)
  case (sweep h p now)
  then show ?case
    by (auto simp: pool_bounded_def pool_defs intro: le_trans [OF length_filter_le])
next
  case (pop h p now)
  let ?keep = "filter (\<lambda>t. \<not> leftAt p t now < pp_minBudget p) (pp_q p)"
  have "length ?keep \<le> length (pp_q p)" by simp
  then show ?case
    using pop by (cases ?keep) (simp_all add: pool_bounded_def pool_defs)
qed (auto simp: pool_bounded_def pool_defs)

text \<open>A task is the same task whatever fill was written into it.\<close>

definition ident :: "task \<Rightarrow> task" where
  "ident t = t\<lparr>qt_Fill := 0\<rparr>"

lemma ident_fill [simp]: "ident (t\<lparr>qt_Fill := n\<rparr>) = ident t"
  by (simp add: ident_def)

definition accounts :: "task list \<Rightarrow> pool \<Rightarrow> bool" where
  "accounts h p \<longleftrightarrow>
     image_mset ident (mset h) =
       image_mset ident (mset (pp_q p) + mset (pp_entered p) + mset (pp_wait p) + mset (pp_taken p) +
         mset (map cl_task (pp_calls p)))"

lemma mset_split: "mset (filter P xs) + mset (filter (\<lambda>x. \<not> P x) xs) = mset xs"
  by (simp add: mset_filter multiset_partition [symmetric])

lemma mset_take_one: "t \<in> set xs \<Longrightarrow> image_mset f (mset xs) = add_mset (f t) (image_mset f (mset (remove1 t xs)))"
  by (metis image_mset_add_mset insert_DiffM mset_remove1 set_mset_mset)

lemma map_cl_task: "map cl_task (map (\<lambda>t. \<lparr>cl_task = t, cl_budget = b, cl_shed = r\<rparr>) ts) = ts"
  by (simp add: comp_def)

lemma mset_expired:
  "image_mset f (mset (filter (\<lambda>t. leftAt p t now < m) ts)) +
     image_mset f (mset (filter (\<lambda>t. \<not> leftAt p t now < m) ts)) = image_mset f (mset ts)"
  by (metis image_mset_union mset_split)

lemma accounts_steps: "pool_steps p0 h p \<Longrightarrow> accounts [] p0 \<Longrightarrow> accounts h p"
proof (induction rule: pool_steps.induct)
  case start
  then show ?case .
next
  case (arrive h p t now now')
  then show ?case by (auto simp: accounts_def pool_defs)
next
  case (locked h p t now)
  then show ?case
    using mset_take_one [of t "pp_entered p" ident] by (auto simp: accounts_def pool_defs)
next
  case (resume h p t now)
  then show ?case
    using mset_take_one [of t "pp_wait p" ident] by (auto simp: accounts_def pool_defs)
next
  case (sweep h p now)
  then show ?case
    using mset_expired [of ident p now "pp_minBudget p" "pp_q p"]
    by (simp add: accounts_def pool_defs map_cl_task comp_def ac_simps)
next
  case (pop h p now)
  let ?keep = "filter (\<lambda>t. \<not> leftAt p t now < pp_minBudget p) (pp_q p)"
  show ?case
    using pop mset_expired [of ident p now "pp_minBudget p" "pp_q p"]
    by (cases ?keep) (simp_all add: accounts_def pool_defs map_cl_task comp_def ac_simps)
next
  case (work h p t now)
  then show ?case
    using mset_take_one [of t "pp_taken p" ident] by (auto simp: accounts_def pool_defs)
next
  case (close h p)
  then show ?case by (simp add: accounts_def pool_defs)
qed

text \<open>What the handler is told.\<close>

definition calls_ok :: "pool \<Rightarrow> bool" where
  "calls_ok p \<longleftrightarrow>
     list_all (\<lambda>c. (cl_shed c = [] \<longrightarrow> pp_minBudget p \<le> cl_budget c) \<and>
       cl_shed c \<in> {[], ReasonQueueLimit, ReasonDeadlineExceeded}) (pp_calls p) \<and>
     pp_Expired p = int (length (filter (\<lambda>c. cl_shed c = ReasonDeadlineExceeded) (pp_calls p))) \<and>
     pp_Shed p = int (length (filter (\<lambda>c. cl_shed c = ReasonQueueLimit) (pp_calls p)))"

lemma filter_dead:
  "filter (\<lambda>c. cl_shed c = r) (map (\<lambda>t. \<lparr>cl_task = t, cl_budget = b, cl_shed = r'\<rparr>) ts) =
     (if r = r' then map (\<lambda>t. \<lparr>cl_task = t, cl_budget = b, cl_shed = r'\<rparr>) ts else [])"
  by (induction ts) auto

lemma calls_ok_steps: "pool_steps p0 h p \<Longrightarrow> calls_ok p0 \<Longrightarrow> calls_ok p"
proof (induction rule: pool_steps.induct)
  case (sweep h p now)
  then show ?case by (auto simp: calls_ok_def pool_defs filter_dead list_all_iff)
next
  case (pop h p now)
  then show ?case by (auto simp: calls_ok_def pool_defs filter_dead list_all_iff split: list.splits)
qed (auto simp: calls_ok_def pool_defs)

lemma fillLocked_bounds:
  assumes "0 < pp_depth p"
  shows "fillLocked p \<le> 100" "fillLocked p = 100 \<longleftrightarrow> pp_depth p \<le> length (pp_q p)"
proof -
  have "length (pp_q p) * 100 div pp_depth p < 100" if "length (pp_q p) < pp_depth p"
    using that assms by (simp add: div_less_iff_less_mult)
  then show "fillLocked p \<le> 100" "fillLocked p = 100 \<longleftrightarrow> pp_depth p \<le> length (pp_q p)"
    by (auto simp: fillLocked_def not_le)
qed

section \<open>Properties\<close>

text \<open>the queue never holds more tasks than its depth, whatever the goroutines interleave.\<close>

theorem queue_bounded:
  "pool_steps (NewPool depth reserveMS minBudgetMS full) h p \<Longrightarrow>
     length (pp_q p) \<le> pp_depth (NewPool depth reserveMS minBudgetMS full)"
  using pool_steps_bounded [of "NewPool depth reserveMS minBudgetMS full" h p]
  by (auto simp: pool_bounded_def NewPool_def)

text \<open>An example: a pool of depth one, a task that is queued and a second one that is shed.\<close>

definition sample_request :: request where
  "sample_request =
     \<lparr>req_V = 2, req_RID = ''ab'', req_Ray = [], req_Phase = PhaseRequest, req_Inspector = ''auth'',
      req_DeadlineMS = 1000, req_AuditSubject = None, req_Node = ''n'',
      req_Conn = \<lparr>conn_ClientIP = ''192.0.2.1''\<rparr>, req_HTTP = \<lparr>http_Method = ''GET'', http_URI = ''/''\<rparr>,
      req_Needs = [], req_Store = \<lparr>st_Headers = None, st_Args = None, st_Body = None\<rparr>,
      req_Profile = ''site'', req_Prior = [], req_Response = None, req_RequestStore = None\<rparr>"

definition sample_task :: "time \<Rightarrow> task" where
  "sample_task now = \<lparr>qt_Req = sample_request, qt_Reply = ''inbox'', qt_Fill = 0, qt_enqueued = now\<rparr>"

abbreviation sample_pool :: pool where
  "sample_pool \<equiv> NewPool 1 10 5 []"

definition sample_pool_run :: pool where
  "sample_pool_run =
     Submit_locked (sample_task 1) 3 (Submit_arrive (sample_task 1) 2 2
       (Submit_locked (sample_task 0) 1 (Submit_arrive (sample_task 0) 0 0 sample_pool)))"

lemma sample_pool_steps: "pool_steps sample_pool [sample_task 1, sample_task 0] sample_pool_run"
proof -
  let ?p1 = "Submit_arrive (sample_task 0) 0 0 sample_pool"
  let ?p2 = "Submit_locked (sample_task 0) 1 ?p1"
  let ?p3 = "Submit_arrive (sample_task 1) 2 2 ?p2"
  note simps = Submit_arrive_def Submit_locked_def NewPool_def leftAt_def sample_task_def
    sample_request_def millisecond_def enqueueLocked_def
  have "pool_steps sample_pool [sample_task 0] ?p1"
    by (rule arrive [OF start])
  then have "pool_steps sample_pool [sample_task 0] ?p2"
    by (rule locked) (simp add: simps)
  then have "pool_steps sample_pool [sample_task 1, sample_task 0] ?p3"
    by (rule arrive)
  then show ?thesis
    unfolding sample_pool_run_def by (rule locked) (simp add: simps)
qed

theorem queue_bounded_witness: "length (pp_q sample_pool_run) \<le> 1"
  using queue_bounded [OF sample_pool_steps] by (simp add: NewPool_def)

text \<open>C4: no task is lost and none is answered twice: every submitted task is in exactly one place,
in the queue, with one goroutine, or handed to the handler once; once nothing is in flight the
handler has been called exactly once for every submitted task.\<close>

theorem every_task_answered_once:
  assumes "pool_steps (NewPool depth reserveMS minBudgetMS full) h p"
  shows "image_mset ident (mset h) =
      image_mset ident (mset (pp_q p) + mset (pp_entered p) + mset (pp_wait p) + mset (pp_taken p) +
        mset (map cl_task (pp_calls p))) \<and>
    (pp_q p = [] \<and> pp_entered p = [] \<and> pp_wait p = [] \<and> pp_taken p = [] \<longrightarrow>
      mset (map ident (map cl_task (pp_calls p))) = mset (map ident h))"
proof -
  have "accounts h p"
    by (rule accounts_steps [OF assms]) (simp add: accounts_def NewPool_def)
  then show ?thesis
    by (simp add: accounts_def image_mset.compositionality)
qed

theorem every_task_answered_once_witness:
  "image_mset ident (mset [sample_task 1, sample_task 0]) =
     image_mset ident (mset (pp_q sample_pool_run) + mset (pp_entered sample_pool_run) +
       mset (pp_wait sample_pool_run) + mset (pp_taken sample_pool_run) +
       mset (map cl_task (pp_calls sample_pool_run)))"
  by (rule every_task_answered_once [OF sample_pool_steps, THEN conjunct1])

text \<open>C34: the handler evaluates a task only with at least the minimal budget left of its deadline;
every other call tells it why the task was shed, and the two counters count exactly those calls.\<close>

theorem handler_budget:
  assumes "pool_steps (NewPool depth reserveMS minBudgetMS full) h p"
  shows "(\<forall>c \<in> set (pp_calls p). if cl_shed c = [] then minBudgetMS * millisecond \<le> cl_budget c
      else cl_shed c = ReasonQueueLimit \<or> cl_shed c = ReasonDeadlineExceeded) \<and>
    pp_Shed p = int (length (filter (\<lambda>c. cl_shed c = ReasonQueueLimit) (pp_calls p))) \<and>
    pp_Expired p = int (length (filter (\<lambda>c. cl_shed c = ReasonDeadlineExceeded) (pp_calls p)))"
proof -
  have "calls_ok p"
    by (rule calls_ok_steps [OF assms]) (simp add: calls_ok_def NewPool_def)
  moreover have "pp_minBudget p = minBudgetMS * millisecond"
    using pool_steps_bounded [OF assms] by (simp add: pool_bounded_def NewPool_def)
  ultimately show ?thesis
    by (auto simp: calls_ok_def list_all_iff)
qed

theorem handler_budget_witness: "pp_Shed sample_pool_run = 1"
proof -
  have "pp_Shed sample_pool_run = int (length (filter (\<lambda>c. cl_shed c = ReasonQueueLimit) (pp_calls sample_pool_run)))"
    by (rule handler_budget [OF sample_pool_steps, THEN conjunct2, THEN conjunct1])
  also have "\<dots> = 1"
    by (simp add: sample_pool_run_def Submit_arrive_def Submit_locked_def NewPool_def leftAt_def sample_task_def
        sample_request_def millisecond_def enqueueLocked_def shedLimit_def handle_def)
  finally show ?thesis .
qed

end
