(* ===== verification/AuditSink.thy ===== *)
theory AuditSink
  imports Protocol "HOL-Library.Sublist"
begin

text \<open>
  Audit events and their batching (\<open>internal/audit/audit.go\<close>, \<open>internal/audit/sink.go\<close>).
  The sink is a buffer that handlers append to and one goroutine drains; under its lock the
  two are the atomic steps \<open>Sink_Add\<close> and \<open>Sink_take\<close> of a step relation. The JSON form of
  an event is the parameter \<open>marshal\<close>, the formatted time an argument; the engine time, a
  \<open>float64\<close> of milliseconds, is kept as its whole microseconds. Declaring the
  JetStream stream (\<open>Ensure\<close>) is not modelled.
\<close>

section \<open>Events\<close>

abbreviation "SeverityInfo \<equiv> ''info''"
abbreviation "SeverityLow \<equiv> ''low''"
abbreviation "SeverityMedium \<equiv> ''medium''"
abbreviation "SeverityHigh \<equiv> ''high''"
abbreviation "SeverityCritical \<equiv> ''critical''"

abbreviation "TargetConn \<equiv> ''conn''"

record finding =
  fd_Code :: string
  fd_Severity :: string
  fd_Target :: string
  fd_Rule :: string

record 'e details =
  det_EngineMS :: int
  det_Findings :: "finding list"
  det_Engine :: "string \<rightharpoonup> 'e"

record 'e event =
  ev_V :: int
  ev_Kind :: string
  ev_TS :: string
  ev_Ray :: string
  ev_Node :: string
  ev_Phase :: string
  ev_Inspector :: string
  ev_Profile :: string
  ev_Verdict :: string
  ev_Score :: "int option"
  ev_EngineMS :: int
  ev_Findings :: "finding list"
  ev_Engine :: "string \<rightharpoonup> 'e"

definition with_request :: "request option \<Rightarrow> 'e event \<Rightarrow> 'e event" where
  "with_request req ev =
     (case req of None \<Rightarrow> ev
      | Some r \<Rightarrow> ev\<lparr>ev_Ray := req_Ray r, ev_Node := req_Node r, ev_Phase := req_Phase r,
          ev_Inspector := req_Inspector r, ev_Profile := req_Profile r\<rparr>)"

definition with_reply :: "reply option \<Rightarrow> 'e event \<Rightarrow> 'e event" where
  "with_reply reply ev =
     (case reply of None \<Rightarrow> ev
      | Some r \<Rightarrow>
          (let ev = ev\<lparr>ev_Verdict := rp_Verdict r, ev_Score := rp_Score r\<rparr>
           in if ev_Inspector ev = [] then ev\<lparr>ev_Inspector := rp_Inspector r\<rparr> else ev))"

definition Audit_Build :: "string \<Rightarrow> request option \<Rightarrow> reply option \<Rightarrow> 'e details \<Rightarrow> 'e event" where
  "Audit_Build ts req reply det =
     with_reply reply (with_request req
       \<lparr>ev_V = 1, ev_Kind = ''inspector'', ev_TS = ts, ev_Ray = [], ev_Node = [], ev_Phase = [],
        ev_Inspector = [], ev_Profile = [], ev_Verdict = [], ev_Score = None,
        ev_EngineMS = det_EngineMS det, ev_Findings = det_Findings det,
        ev_Engine = det_Engine det\<rparr>)"


section \<open>The sink\<close>

record item =
  it_subject :: string
  it_body :: bytes

definition maxItems :: nat where "maxItems = 256"
definition maxSize :: nat where "maxSize = 524288"
definition maxPending :: nat where "maxPending = 50000"

definition sizeOf :: "item list \<Rightarrow> nat" where
  "sizeOf items = foldl (\<lambda>n it. n + length (it_body it) + 2) 0 items"

text \<open>
  \<open>sk_wake\<close> is the one-element channel that asks the loop to flush. \<open>sk_sent\<close> is the trace
  of what has been handed to the bus, one entry per publication.
\<close>

record sink =
  sk_pending :: "item list"
  sk_size :: nat
  sk_dropped :: nat
  sk_wake :: bool
  sk_sent :: "(string \<times> item list) list"

definition NewSink :: sink where
  "NewSink = \<lparr>sk_pending = [], sk_size = 0, sk_dropped = 0, sk_wake = False, sk_sent = []\<rparr>"

text \<open>The critical section of \<open>Add\<close>, and the wake-up after it.\<close>

definition Sink_push :: "item \<Rightarrow> sink \<Rightarrow> sink" where
  "Sink_push it s =
     (let pending = sk_pending s @ [it];
          size = sk_size s + length (it_body it) + 2;
          s = (if length pending > maxPending
               then (let cut = length pending - maxPending;
                         kept = drop cut pending
                     in s\<lparr>sk_dropped := sk_dropped s + cut, sk_pending := kept,
                          sk_size := sizeOf kept\<rparr>)
               else s\<lparr>sk_pending := pending, sk_size := size\<rparr>);
          full = (length (sk_pending s) \<ge> maxItems \<or> sk_size s \<ge> maxSize)
      in if full then s\<lparr>sk_wake := True\<rparr> else s)"

text \<open>\<open>None\<close> is the error of a failed encoding; a request without a subject adds nothing.\<close>

definition Sink_Add :: "('e event \<Rightarrow> bytes option) \<Rightarrow> string \<Rightarrow> request option \<Rightarrow> reply option
    \<Rightarrow> 'e details \<Rightarrow> sink \<Rightarrow> sink option" where
  "Sink_Add marshal ts req reply det s =
     (case (req, reply) of
        (Some r, Some p) \<Rightarrow>
          (case req_AuditSubject r of
             None \<Rightarrow> Some s
           | Some subject \<Rightarrow>
               (if subject = [] then Some s
                else (case marshal (Audit_Build ts req reply det) of
                        None \<Rightarrow> None
                      | Some body \<Rightarrow> Some (Sink_push \<lparr>it_subject = subject, it_body = body\<rparr> s))))
      | _ \<Rightarrow> Some s)"

text \<open>\<open>groupBySubject\<close>: the subjects in their order of appearance, and the items of each.\<close>

fun group_loop :: "string list \<Rightarrow> (string \<Rightarrow> item list) \<Rightarrow> item list \<Rightarrow> string list \<times> (string \<Rightarrow> item list)" where
  "group_loop order by_subject [] = (order, by_subject)"
| "group_loop order by_subject (it # items) =
     (let order = (if by_subject (it_subject it) = [] then order @ [it_subject it] else order)
      in group_loop order
           (by_subject(it_subject it := by_subject (it_subject it) @ [it])) items)"

definition groupBySubject :: "item list \<Rightarrow> string list \<times> (string \<Rightarrow> item list)" where
  "groupBySubject items = group_loop [] (\<lambda>_. []) items"

definition Sink_publish :: "item list \<Rightarrow> (string \<times> item list) list" where
  "Sink_publish items =
     (case items of
        [it] \<Rightarrow> [(it_subject it, [it])]
      | _ \<Rightarrow> (let (order, by_subject) = groupBySubject items
              in map (\<lambda>subject. (subject, by_subject subject)) order))"

text \<open>One round of the loop of \<open>flush\<close>: it takes at most \<open>maxItems\<close> events.\<close>

definition Sink_take :: "sink \<Rightarrow> sink" where
  "Sink_take s =
     (let n = (if length (sk_pending s) > maxItems then maxItems else length (sk_pending s));
          rest = drop n (sk_pending s)
      in s\<lparr>sk_pending := rest, sk_size := sizeOf rest,
           sk_sent := sk_sent s @ Sink_publish (take n (sk_pending s))\<rparr>)"

function Sink_flush :: "sink \<Rightarrow> sink" where
  "Sink_flush s = (if sk_pending s = [] then s else Sink_flush (Sink_take s))"
  by pat_completeness auto
termination
  by (relation "measure (\<lambda>s. length (sk_pending s))")
    (auto simp: Sink_take_def Let_def maxItems_def)

declare Sink_flush.simps [simp del]

text \<open>
  Handlers and the loop interleave. The trace keeps every event that was ever added; the
  loop's receive from \<open>wake\<close> clears it.
\<close>

inductive sink_steps :: "item list \<Rightarrow> sink \<Rightarrow> bool" where
  start: "sink_steps [] NewSink"
| add: "sink_steps h s \<Longrightarrow> sink_steps (h @ [it]) (Sink_push it s)"
| wake: "sink_steps h s \<Longrightarrow> sink_steps h (s\<lparr>sk_wake := False\<rparr>)"
| take: "sink_steps h s \<Longrightarrow> sk_pending s \<noteq> [] \<Longrightarrow> sink_steps h (Sink_take s)"


section \<open>Facts\<close>

lemma sizeOf_acc: "foldl (\<lambda>n it. n + length (it_body it) + 2) k items = k + sizeOf items"
proof (induction items arbitrary: k)
  case Nil
  then show ?case by (simp add: sizeOf_def)
next
  case (Cons it items)
  from Cons [of "k + length (it_body it) + 2"] Cons [of "length (it_body it) + 2"] show ?case
    by (simp add: sizeOf_def)
qed

lemma sizeOf_simps [simp]:
  "sizeOf [] = 0" "sizeOf (it # items) = length (it_body it) + 2 + sizeOf items"
  "sizeOf (xs @ ys) = sizeOf xs + sizeOf ys"
proof -
  show "sizeOf []  = 0" by (simp add: sizeOf_def)
  show cons: "sizeOf (it # items) = length (it_body it) + 2 + sizeOf items"
    using sizeOf_acc [of "length (it_body it) + 2" items] by (simp add: sizeOf_def)
  show "sizeOf (xs @ ys) = sizeOf xs + sizeOf ys"
    using sizeOf_acc [of "sizeOf xs" ys] by (simp add: sizeOf_def)
qed

lemma group_loop_spec:
  assumes "group_loop order f items = (order', g)" "distinct order" "\<forall>x. f x \<noteq> [] \<longleftrightarrow> x \<in> set order"
  shows "g x = f x @ filter (\<lambda>it. it_subject it = x) items"
    and "distinct order'" and "set order' = set order \<union> it_subject ` set items"
  using assms
proof (induction order f items arbitrary: order' g x rule: group_loop.induct)
  case (1 order f)
  {
    case 1 then show ?case by simp
  next
    case 2 then show ?case by simp
  next
    case 3 then show ?case by simp
  }
next
  case (2 order f it items)
  note IH = 2
  {
    case 1
    show ?case
      by (subst IH(1) [OF refl 1(1) [simplified, unfolded Let_def]])
        (use 1 in \<open>auto split: if_splits\<close>)
  next
    case 2
    show ?case
      by (rule IH(2) [OF refl 2(1) [simplified, unfolded Let_def]])
        (use 2 in \<open>auto split: if_splits\<close>)
  next
    case 3
    show ?case
      by (subst IH(3) [OF refl 3(1) [simplified, unfolded Let_def]])
        (use 3 in \<open>auto split: if_splits\<close>)
  }
qed

lemma groupBySubject_spec:
  assumes "groupBySubject items = (order, g)"
  shows "g x = filter (\<lambda>it. it_subject it = x) items" "distinct order"
    "set order = it_subject ` set items"
  using group_loop_spec [OF assms [unfolded groupBySubject_def]] by simp_all

definition sent_items :: "string \<Rightarrow> (string \<times> item list) list \<Rightarrow> item list" where
  "sent_items x pubs = concat (map snd (filter (\<lambda>p. fst p = x) pubs))"

lemma filter_order:
  "distinct order \<Longrightarrow> concat (map snd (filter (\<lambda>p. fst p = x) (map (\<lambda>s. (s, f s)) order))) =
     (if x \<in> set order then f x else [])"
  by (induction order) auto

text \<open>Publishing keeps every subject's events, in their order.\<close>

lemma sent_items_publish: "sent_items x (Sink_publish items) = filter (\<lambda>it. it_subject it = x) items"
proof -
  obtain order g where g: "groupBySubject items = (order, g)" by force
  note spec = groupBySubject_spec [OF g]
  have "sent_items x (map (\<lambda>subject. (subject, g subject)) order) = filter (\<lambda>it. it_subject it = x) items"
  proof (cases "x \<in> set order")
    case True
    then show ?thesis
      using spec by (simp add: sent_items_def filter_order)
  next
    case False
    then have "filter (\<lambda>it. it_subject it = x) items = []"
      using spec(3) by (auto simp: filter_empty_conv)
    with False show ?thesis
      using spec by (simp add: sent_items_def filter_order)
  qed
  then have many: "sent_items x (let (order, by_subject) = groupBySubject items
      in map (\<lambda>subject. (subject, by_subject subject)) order) = filter (\<lambda>it. it_subject it = x) items"
    by (simp add: g)
  show ?thesis
  proof (cases "\<exists>it. items = [it]")
    case True
    then show ?thesis by (auto simp: Sink_publish_def sent_items_def)
  next
    case False
    then have "Sink_publish items = (let (order, by_subject) = groupBySubject items
        in map (\<lambda>subject. (subject, by_subject subject)) order)"
      by (auto simp: Sink_publish_def split: list.splits)
    with many show ?thesis by simp
  qed
qed

lemma sent_items_append [simp]: "sent_items x (ps @ qs) = sent_items x ps @ sent_items x qs"
  by (simp add: sent_items_def)

definition sink_ok :: "sink \<Rightarrow> bool" where
  "sink_ok s \<longleftrightarrow> sk_size s = sizeOf (sk_pending s) \<and> length (sk_pending s) \<le> maxPending"

lemma Sink_push_ok [inv_intros]: "sink_ok s \<Longrightarrow> sink_ok (Sink_push it s)"
  by (auto simp: sink_ok_def Sink_push_def Let_def)

lemma Sink_take_ok [inv_intros]: "sink_ok s \<Longrightarrow> sink_ok (Sink_take s)"
  by (auto simp: sink_ok_def Sink_take_def Let_def)

lemma sink_steps_ok: "sink_steps h s \<Longrightarrow> sink_ok s"
  by (induction rule: sink_steps.induct) (auto intro: inv_intros, auto simp: sink_ok_def NewSink_def)

lemma Sink_push_pending:
  "sk_pending (Sink_push it s) = drop (length (sk_pending s) + 1 - maxPending) (sk_pending s @ [it])"
  "sk_dropped (Sink_push it s) = sk_dropped s + (length (sk_pending s) + 1 - maxPending)"
  "sk_sent (Sink_push it s) = sk_sent s"
  by (auto simp: Sink_push_def Let_def)

lemma Sink_take_pending:
  "sk_pending (Sink_take s) = drop maxItems (sk_pending s)"
  "sk_dropped (Sink_take s) = sk_dropped s"
  "sk_sent (Sink_take s) = sk_sent s @ Sink_publish (take maxItems (sk_pending s))"
  by (auto simp: Sink_take_def Let_def)

lemma Sink_flush_empty: "sk_pending (Sink_flush s) = []"
  by (induction s rule: Sink_flush.induct) (subst Sink_flush.simps, simp)

text \<open>What was sent and what still waits is what was added, less the dropped events.\<close>

definition accounted :: "item list \<Rightarrow> sink \<Rightarrow> bool" where
  "accounted h s \<longleftrightarrow>
     (\<exists>kept. subseq kept h \<and> length kept + sk_dropped s = length h \<and>
        suffix (sk_pending s) kept \<and>
        (\<forall>x. sent_items x (sk_sent s) @ filter (\<lambda>it. it_subject it = x) (sk_pending s) =
             filter (\<lambda>it. it_subject it = x) kept))"

lemma accounted_push:
  assumes "accounted h s"
  shows "accounted (h @ [it]) (Sink_push it s)"
proof -
  from assms obtain kept where k: "subseq kept h" "length kept + sk_dropped s = length h"
    "suffix (sk_pending s) kept"
    "\<And>x. sent_items x (sk_sent s) @ filter (\<lambda>it. it_subject it = x) (sk_pending s) =
       filter (\<lambda>it. it_subject it = x) kept"
    by (auto simp: accounted_def)
  from k(3) obtain old where old: "kept = old @ sk_pending s" by (auto simp: suffix_def)
  let ?d = "length (sk_pending s) + 1 - maxPending"
  let ?new = "old @ drop ?d (sk_pending s @ [it])"
  have sent: "sent_items x (sk_sent s) = filter (\<lambda>it. it_subject it = x) old" for x
    using k(4) [of x] by (simp add: old)
  have "subseq (drop ?d (sk_pending s @ [it])) (sk_pending s @ [it])"
    by (metis append_take_drop_id list_emb_append2 subseq_order.refl)
  then have "subseq ?new ((old @ sk_pending s) @ [it])"
    by (simp add: list_emb_append_mono)
  moreover have "subseq ((old @ sk_pending s) @ [it]) (h @ [it])"
    using k(1) unfolding old by (intro list_emb_append_mono) auto
  ultimately have "subseq ?new (h @ [it])"
    by (rule subseq_order.trans)
  moreover have "?d \<le> length (sk_pending s @ [it])" by (simp add: maxPending_def)
  ultimately show ?thesis
    unfolding accounted_def Sink_push_pending using k(2) sent
    by (intro exI [of _ ?new]) (auto simp: old suffix_def)
qed

lemma accounted_take:
  assumes "accounted h s"
  shows "accounted h (Sink_take s)"
proof -
  have split: "filter P (take n xs) @ filter P (drop n xs) = filter P xs" for P n and xs :: "item list"
    by (metis append_take_drop_id filter_append)
  from assms obtain kept where k: "subseq kept h" "length kept + sk_dropped s = length h"
    "suffix (sk_pending s) kept"
    "\<And>x. sent_items x (sk_sent s) @ filter (\<lambda>it. it_subject it = x) (sk_pending s) =
       filter (\<lambda>it. it_subject it = x) kept"
    by (auto simp: accounted_def)
  have "suffix (drop maxItems (sk_pending s)) kept"
    using k(3) by (meson suffix_drop suffix_order.trans)
  with k show ?thesis
    unfolding accounted_def Sink_take_pending
    by (intro exI [of _ kept]) (simp add: sent_items_publish split)
qed

lemma sink_steps_accounted: "sink_steps h s \<Longrightarrow> accounted h s"
proof (induction rule: sink_steps.induct)
  case start
  then show ?case by (simp add: accounted_def NewSink_def sent_items_def)
next
  case (wake h s)
  then show ?case by (simp add: accounted_def)
qed (auto intro: accounted_push accounted_take)

end
