(* ===== verification/Netip.thy ===== *)
theory Netip
  imports Prelude
begin

unbundle bit_operations_syntax

text \<open>
  Addresses and prefixes of Go's \<open>net/netip\<close>: an IPv4 address, or an IPv6 address with its
  zone, and a prefix as an address with a bit count that is \<open>-1\<close> when it does not fit the
  address. The text forms (\<open>ParseAddr\<close>, \<open>ParsePrefix\<close>, \<open>Prefix.String\<close>) come in as a
  record of functions.
\<close>

datatype addr = IPv4 "32 word" | IPv6 "128 word" string

datatype prefix = Prefix (pfx_addr: addr) (pfx_bits: int)

record ip_text =
  it_ParseAddr :: "string \<Rightarrow> addr option"
  it_ParsePrefix :: "string \<Rightarrow> prefix option"
  it_PrefixString :: "prefix \<Rightarrow> string"

fun Is4 :: "addr \<Rightarrow> bool" where
  "Is4 (IPv4 _) = True"
| "Is4 (IPv6 _ _) = False"

fun BitLen :: "addr \<Rightarrow> int" where
  "BitLen (IPv4 _) = 32"
| "BitLen (IPv6 _ _) = 128"

text \<open>An IPv4-mapped IPv6 address is \<open>::ffff:0:0/96\<close>.\<close>

fun Unmap :: "addr \<Rightarrow> addr" where
  "Unmap (IPv4 a) = IPv4 a"
| "Unmap (IPv6 a z) = (if drop_bit 32 a = 0xFFFF then IPv4 (ucast a) else IPv6 a z)"

fun withoutZone :: "addr \<Rightarrow> addr" where
  "withoutZone (IPv4 a) = IPv4 a"
| "withoutZone (IPv6 a z) = IPv6 a []"

definition clear_low :: "nat \<Rightarrow> 'a::len word \<Rightarrow> 'a word" where
  "clear_low n a = push_bit n (drop_bit n a)"

fun addr_mask :: "addr \<Rightarrow> int \<Rightarrow> addr" where
  "addr_mask (IPv4 a) b = IPv4 (clear_low (nat (32 - b)) a)"
| "addr_mask (IPv6 a z) b = IPv6 (clear_low (nat (128 - b)) a) []"

definition PrefixFrom :: "addr \<Rightarrow> int \<Rightarrow> prefix" where
  "PrefixFrom ip bits =
     Prefix (withoutZone ip) (if 0 \<le> bits \<and> bits \<le> BitLen ip then bits else -1)"

definition Addr_Prefix :: "addr \<Rightarrow> int \<Rightarrow> prefix option" where
  "Addr_Prefix ip b =
     (if b < 0 \<or> b > BitLen ip then None else Some (PrefixFrom (addr_mask ip b) b))"

text \<open>\<open>Masked\<close> of a prefix that is not valid is the zero prefix: here nothing.\<close>

definition Masked :: "prefix \<Rightarrow> prefix option" where
  "Masked p = Addr_Prefix (pfx_addr p) (pfx_bits p)"


section \<open>Facts\<close>

lemma BitLen_pos [simp]: "0 < BitLen a" "0 \<le> BitLen a"
  by (cases a; simp)+

lemma BitLen_mask [simp]: "BitLen (addr_mask a b) = BitLen a"
  by (cases a) auto

lemma BitLen_withoutZone [simp]: "BitLen (withoutZone a) = BitLen a"
  by (cases a) auto

lemma Is4_mask [simp]: "Is4 (addr_mask a b) = Is4 a" "Is4 (withoutZone a) = Is4 a"
  by (cases a; simp)+

lemma withoutZone_mask [simp]:
  "withoutZone (addr_mask a b) = addr_mask a b" "addr_mask (withoutZone a) b = addr_mask a b"
  "withoutZone (withoutZone a) = withoutZone a"
  by (cases a; simp)+

lemma bit_clear_low: "bit (clear_low n a) i \<longleftrightarrow> n \<le> i \<and> bit (a :: 'a::len word) i"
  by (auto simp: clear_low_def bit_simps bit_imp_le_length)

lemma clear_low_0 [simp]: "clear_low 0 a = a"
  by (simp add: clear_low_def)

lemma clear_low_idem [simp]: "clear_low n (clear_low n a) = clear_low n (a :: 'a::len word)"
  by (intro bit_word_eqI) (auto simp: bit_clear_low)

lemma clear_low_eq_iff:
  "clear_low n a = clear_low n b \<longleftrightarrow> (\<forall>i \<ge> n. bit (a :: 'a::len word) i = bit b i)"
proof
  assume eq: "clear_low n a = clear_low n b"
  show "\<forall>i \<ge> n. bit a i = bit b i"
  proof (intro allI impI)
    fix i assume "n \<le> i"
    with eq bit_clear_low [of n a i] bit_clear_low [of n b i] show "bit a i = bit b i" by simp
  qed
next
  assume "\<forall>i \<ge> n. bit a i = bit b i"
  then show "clear_low n a = clear_low n b"
    by (intro bit_word_eqI) (auto simp: bit_clear_low)
qed

lemma addr_mask_idem [simp]: "addr_mask (addr_mask a b) b = addr_mask a b"
  by (cases a) auto

lemma Addr_Prefix_Some:
  "0 \<le> b \<Longrightarrow> b \<le> BitLen a \<Longrightarrow> Addr_Prefix a b = Some (Prefix (addr_mask a b) b)"
  by (simp add: Addr_Prefix_def PrefixFrom_def)

lemma Masked_PrefixFrom:
  "0 \<le> b \<Longrightarrow> b \<le> BitLen a \<Longrightarrow> Masked (PrefixFrom a b) = Some (Prefix (addr_mask a b) b)"
  by (simp add: Masked_def PrefixFrom_def Addr_Prefix_Some)


section \<open>Host and port\<close>

text \<open>\<open>net.SplitHostPort\<close>: the last colon, with an IPv6 host in brackets. \<open>None\<close> is an error.\<close>

definition SplitHostPort :: "string \<Rightarrow> (string \<times> string) option" where
  "SplitHostPort s =
     (case Cut (CHR '':'') (rev s) of
        None \<Rightarrow> None
      | Some (port, before) \<Rightarrow>
          (let port = rev port; before = rev before
           in if HasPrefix s ''['' then
                (case Cut (CHR '']'') s of
                   None \<Rightarrow> None
                 | Some (host, after) \<Rightarrow>
                     (if length host + 1 \<noteq> length before then None
                      else if CHR ''['' \<in> set (drop 1 s) \<or> CHR '']'' \<in> set after then None
                      else Some (drop 1 host, port)))
              else if CHR '':'' \<in> set before \<or> CHR ''['' \<in> set s \<or> CHR '']'' \<in> set s then None
              else Some (before, port)))"

text \<open>\<open>net.ParseIP\<close> is \<open>netip.ParseAddr\<close> without a zone.\<close>

definition ParseIP :: "ip_text \<Rightarrow> string \<Rightarrow> addr option" where
  "ParseIP nt s =
     (case it_ParseAddr nt s of
        Some (IPv6 a z) \<Rightarrow> (if z = [] then Some (IPv6 a z) else None)
      | r \<Rightarrow> r)"

end
