(* ===== verification/Token.thy ===== *)
theory Token
  imports Encoding Netip
begin

text \<open>
  Sealed tokens (\<open>internal/token/token.go\<close>): the session, the login ticket and the identity
  of the application, sealed as \<open>prefix.base64url(nonce || ciphertext)\<close> with the prefix as
  associated data.

  AES-GCM under a key is the record \<open>aead\<close>, SHA-256 the parameter \<open>sha256\<close>, and the JSON
  form of a payload a pair of functions, \<open>marshal\<close> and \<open>unmarshal\<close>. The bytes that
  \<open>crypto/rand\<close> gives come in as \<open>bytes option\<close>, \<open>None\<close> when the read fails.
  What the theorems rely on is stated by \<open>aead_ok\<close>: opening returns what was sealed, the tag
  takes 16 bytes, and a ciphertext that opens is the one that sealing its plaintext gives.
\<close>

section \<open>Payloads\<close>

record token_session =
  ts_SID :: string
  ts_Sub :: string
  ts_Issued :: int
  ts_Expiry :: int
  ts_Renew :: int
  ts_Born :: int
  ts_Cred :: string
  ts_Scope :: string
  ts_Iss :: string
  ts_Net :: string
  ts_UA :: string
  ts_AMR :: "string list"
  ts_Groups :: "string list"

record ticket =
  tk_Nonce :: string
  tk_Return :: string
  tk_Scope :: string
  tk_Expiry :: int

record app_identity =
  ai_Sub :: string
  ai_Display :: string
  ai_Groups :: "string list"
  ai_AMR :: "string list"
  ai_Issued :: int
  ai_Expiry :: int
  ai_SID :: string
  ai_Scope :: string

record bind =
  bd_Net :: string
  bd_UA :: string

datatype token_error = ErrMalformed | ErrSealed | ErrExpired | ErrBind

record aead =
  gcm_Seal :: "bytes \<Rightarrow> bytes \<Rightarrow> bytes \<Rightarrow> bytes"
  gcm_Open :: "bytes \<Rightarrow> bytes \<Rightarrow> bytes \<Rightarrow> bytes option"

definition NonceSize :: nat where "NonceSize = 12"
definition Overhead :: nat where "Overhead = 16"

abbreviation "sessionPrefix \<equiv> ''s3''"
abbreviation "ticketPrefix \<equiv> ''t2''"
abbreviation "identityPrefix \<equiv> ''i1''"

definition aead_ok :: "aead \<Rightarrow> bool" where
  "aead_ok k \<longleftrightarrow>
     (\<forall>n p ad. length n = NonceSize \<longrightarrow>
        gcm_Open k n (gcm_Seal k n p ad) ad = Some p \<and>
        length (gcm_Seal k n p ad) = length p + Overhead) \<and>
     (\<forall>n c ad p. gcm_Open k n c ad = Some p \<longrightarrow> c = gcm_Seal k n p ad)"


section \<open>Keys\<close>

definition minSecret :: nat where "minSecret = 16"

text \<open>
  \<open>NewKey\<close> derives the cipher key by HMAC-SHA-256 of a label; \<open>aes_gcm\<close> is the cipher under
  the derived key. \<open>None\<close> is the error of a short secret.
\<close>

definition NewKey :: "(bytes \<Rightarrow> bytes \<Rightarrow> bytes) \<Rightarrow> (bytes \<Rightarrow> aead option) \<Rightarrow> bytes \<Rightarrow> aead option" where
  "NewKey hmac_sha256 aes_gcm raw =
     (let secret = TrimSpace raw
      in if length secret < minSecret then None
         else aes_gcm (hmac_sha256 secret ''waf-auth aead v2''))"


section \<open>Sealing and opening\<close>

definition Key_seal :: "aead \<Rightarrow> ('a \<Rightarrow> bytes option) \<Rightarrow> bytes option \<Rightarrow> string \<Rightarrow> 'a \<Rightarrow> string option" where
  "Key_seal k marshal rnd prefix payload =
     (case marshal payload of
        None \<Rightarrow> None
      | Some body \<Rightarrow>
          (case rnd of
             None \<Rightarrow> None
           | Some nonce \<Rightarrow>
               Some (prefix @ ''.'' @ b64_encode (nonce @ gcm_Seal k nonce body prefix))))"

definition Key_open :: "aead \<Rightarrow> (bytes \<Rightarrow> 'a option) \<Rightarrow> string \<Rightarrow> string \<Rightarrow> token_error + 'a" where
  "Key_open k unmarshal prefix raw =
     (case Cut (CHR ''.'') raw of
        None \<Rightarrow> Inl ErrMalformed
      | Some (kind, body) \<Rightarrow>
          (if kind \<noteq> prefix \<or> body = [] then Inl ErrMalformed
           else (case b64_decode body of
                   None \<Rightarrow> Inl ErrMalformed
                 | Some sealed \<Rightarrow>
                     (if length sealed < NonceSize + Overhead then Inl ErrMalformed
                      else (case gcm_Open k (take NonceSize sealed) (drop NonceSize sealed) prefix of
                              None \<Rightarrow> Inl ErrSealed
                            | Some plain \<Rightarrow>
                                (case unmarshal plain of
                                   None \<Rightarrow> Inl ErrMalformed
                                 | Some x \<Rightarrow> Inr x))))))"

definition SealSession :: "aead \<Rightarrow> (token_session \<Rightarrow> bytes option) \<Rightarrow> bytes option \<Rightarrow> token_session \<Rightarrow> string option" where
  "SealSession k marshal rnd s = Key_seal k marshal rnd sessionPrefix s"

definition SealTicket :: "aead \<Rightarrow> (ticket \<Rightarrow> bytes option) \<Rightarrow> bytes option \<Rightarrow> ticket \<Rightarrow> string option" where
  "SealTicket k marshal rnd t = Key_seal k marshal rnd ticketPrefix t"

definition SealIdentity :: "aead \<Rightarrow> (app_identity \<Rightarrow> bytes option) \<Rightarrow> bytes option \<Rightarrow> app_identity \<Rightarrow> string option" where
  "SealIdentity k marshal rnd i = Key_seal k marshal rnd identityPrefix i"

text \<open>Like the source, the three openers return the payload beside the error when it is known.\<close>

definition OpenSession :: "aead \<Rightarrow> (bytes \<Rightarrow> token_session option) \<Rightarrow> string \<Rightarrow> time \<Rightarrow> bind
    \<Rightarrow> token_session option \<times> token_error option" where
  "OpenSession k unmarshal raw now want =
     (case Key_open k unmarshal sessionPrefix raw of
        Inl e \<Rightarrow> (None, Some e)
      | Inr s \<Rightarrow>
          (if ts_SID s = [] \<or> ts_Expiry s = 0 then (None, Some ErrMalformed)
           else if unix now \<ge> ts_Expiry s then (Some s, Some ErrExpired)
           else if bd_Net want \<noteq> [] \<and> ts_Net s \<noteq> [] \<and> bd_Net want \<noteq> ts_Net s
             then (Some s, Some ErrBind)
           else if bd_UA want \<noteq> [] \<and> ts_UA s \<noteq> [] \<and> bd_UA want \<noteq> ts_UA s
             then (Some s, Some ErrBind)
           else (Some s, None)))"

definition OpenTicket :: "aead \<Rightarrow> (bytes \<Rightarrow> ticket option) \<Rightarrow> string \<Rightarrow> time
    \<Rightarrow> ticket option \<times> token_error option" where
  "OpenTicket k unmarshal raw now =
     (case Key_open k unmarshal ticketPrefix raw of
        Inl e \<Rightarrow> (None, Some e)
      | Inr t \<Rightarrow>
          (if tk_Nonce t = [] \<or> tk_Expiry t = 0 then (None, Some ErrMalformed)
           else if unix now \<ge> tk_Expiry t then (Some t, Some ErrExpired)
           else (Some t, None)))"

definition OpenIdentity :: "aead \<Rightarrow> (bytes \<Rightarrow> app_identity option) \<Rightarrow> string \<Rightarrow> time
    \<Rightarrow> app_identity option \<times> token_error option" where
  "OpenIdentity k unmarshal raw now =
     (case Key_open k unmarshal identityPrefix raw of
        Inl e \<Rightarrow> (None, Some e)
      | Inr i \<Rightarrow>
          (if ai_Expiry i \<noteq> 0 \<and> unix now \<ge> ai_Expiry i then (Some i, Some ErrExpired)
           else (Some i, None)))"

definition NeedsRenew :: "token_session \<Rightarrow> time \<Rightarrow> bool" where
  "NeedsRenew s now \<longleftrightarrow> ts_Renew s \<noteq> 0 \<and> unix now \<ge> ts_Renew s"

text \<open>\<open>NewID\<close> is the hexadecimal form of 16 random bytes; a failing read panics.\<close>

definition NewID :: "bytes \<Rightarrow> string" where
  "NewID b = HexString b"


section \<open>Bindings\<close>

definition Subnet :: "ip_text \<Rightarrow> string \<Rightarrow> int \<Rightarrow> int \<Rightarrow> string" where
  "Subnet nt ip v4bits v6bits =
     (case it_ParseAddr nt ip of
        None \<Rightarrow> []
      | Some a \<Rightarrow>
          (let addr = Unmap a;
               bits = (if Is4 addr then v4bits else v6bits);
               bits = (if bits \<le> 0 \<or> bits > BitLen addr then BitLen addr else bits)
           in case Addr_Prefix addr bits of
                None \<Rightarrow> []
              | Some p \<Rightarrow> it_PrefixString nt p))"

abbreviation "NoUA \<equiv> ''none''"

definition Fingerprint :: "(bytes \<Rightarrow> bytes) \<Rightarrow> string \<Rightarrow> string" where
  "Fingerprint sha256 ua = (if ua = [] then NoUA else HexString (take 4 (sha256 ua)))"

definition Credential :: "(bytes \<Rightarrow> bytes) \<Rightarrow> string \<Rightarrow> string" where
  "Credential sha256 hash = (if hash = [] then [] else HexString (take 6 (sha256 hash)))"


section \<open>Facts\<close>

lemma Key_open_seal:
  assumes "aead_ok k" "marshal x = Some body" "unmarshal body = Some x" "length nonce = NonceSize"
    and "CHR ''.'' \<notin> set prefix"
    and "Key_seal k marshal (Some nonce) prefix x = Some raw"
  shows "Key_open k unmarshal prefix raw = Inr x"
proof -
  from assms(6) have raw: "raw = prefix @ CHR ''.'' # b64_encode (nonce @ gcm_Seal k nonce body prefix)"
    by (simp add: Key_seal_def assms(2))
  have "nonce \<noteq> []"
    using assms(4) by (auto simp: NonceSize_def)
  moreover have "length (gcm_Seal k nonce body prefix) = length body + Overhead"
    and "gcm_Open k nonce (gcm_Seal k nonce body prefix) prefix = Some body"
    using assms(1,4) by (auto simp: aead_ok_def)
  ultimately show ?thesis
    using assms(3,4) by (simp add: raw Key_open_def Cut_append assms(5))
qed

lemma Key_open_Inr:
  assumes "Key_open k unmarshal prefix raw = Inr x"
  obtains body sealed plain where
    "raw = prefix @ CHR ''.'' # body" "CHR ''.'' \<notin> set prefix" "b64_decode body = Some sealed"
    "NonceSize + Overhead \<le> length sealed"
    "gcm_Open k (take NonceSize sealed) (drop NonceSize sealed) prefix = Some plain"
    "unmarshal plain = Some x"
proof -
  from assms obtain kind body where cut: "Cut (CHR ''.'') raw = Some (kind, body)"
    by (auto simp: Key_open_def split: option.splits)
  with assms obtain sealed where kind: "kind = prefix" and dec: "b64_decode body = Some sealed"
    by (auto simp: Key_open_def split: option.splits if_splits)
  with assms cut obtain plain where
    "gcm_Open k (take NonceSize sealed) (drop NonceSize sealed) prefix = Some plain"
    "unmarshal plain = Some x" "NonceSize + Overhead \<le> length sealed"
    by (auto simp: Key_open_def split: option.splits if_splits)
  with cut kind dec show thesis
    by (intro that [of body sealed plain]) (auto simp: Cut_Some)
qed

lemma OpenSession_accepts:
  "OpenSession k unmarshal raw now want = (Some s, None) \<longleftrightarrow>
     Key_open k unmarshal sessionPrefix raw = Inr s \<and> ts_SID s \<noteq> [] \<and> ts_Expiry s \<noteq> 0 \<and>
     unix now < ts_Expiry s \<and>
     (bd_Net want = [] \<or> ts_Net s = [] \<or> bd_Net want = ts_Net s) \<and>
     (bd_UA want = [] \<or> ts_UA s = [] \<or> bd_UA want = ts_UA s)"
  by (auto simp: OpenSession_def split: sum.splits if_splits)

lemma OpenSession_no_error: "snd (OpenSession k unmarshal raw now want) = None \<Longrightarrow>
    \<exists>s. OpenSession k unmarshal raw now want = (Some s, None)"
  by (auto simp: OpenSession_def split: sum.splits if_splits)

lemma OpenTicket_accepts:
  "OpenTicket k unmarshal raw now = (Some t, None) \<longleftrightarrow>
     Key_open k unmarshal ticketPrefix raw = Inr t \<and> tk_Nonce t \<noteq> [] \<and> tk_Expiry t \<noteq> 0 \<and>
     unix now < tk_Expiry t"
  by (auto simp: OpenTicket_def split: sum.splits if_splits)

lemma Fingerprint_not_Nil: "sha256 ua \<noteq> [] \<Longrightarrow> Fingerprint sha256 ua \<noteq> []"
  by (simp add: Fingerprint_def)

text \<open>The bits a subnet binding keeps.\<close>

definition bind_bits :: "addr \<Rightarrow> int \<Rightarrow> int \<Rightarrow> int" where
  "bind_bits a v4bits v6bits =
     (let bits = (if Is4 a then v4bits else v6bits)
      in if bits \<le> 0 \<or> bits > BitLen a then BitLen a else bits)"

lemma bind_bits_range: "0 < bind_bits a v4 v6 \<and> bind_bits a v4 v6 \<le> BitLen a"
  by (auto simp: bind_bits_def Let_def not_le)

lemma Subnet_prefix:
  assumes "it_ParseAddr nt ip = Some a"
  shows "Subnet nt ip v4 v6 =
    it_PrefixString nt (Prefix (addr_mask (Unmap a) (bind_bits (Unmap a) v4 v6)) (bind_bits (Unmap a) v4 v6))"
proof -
  have "0 \<le> bind_bits (Unmap a) v4 v6" "bind_bits (Unmap a) v4 v6 \<le> BitLen (Unmap a)"
    using bind_bits_range [of "Unmap a" v4 v6] by auto
  from Addr_Prefix_Some [OF this] show ?thesis
    using assms by (simp add: Subnet_def bind_bits_def Let_def)
qed

text \<open>Two addresses share their leading bits.\<close>

fun same_network :: "addr \<Rightarrow> addr \<Rightarrow> int \<Rightarrow> int \<Rightarrow> bool" where
  "same_network (IPv4 a) (IPv4 b) v4 v6 =
     (\<forall>i. nat (32 - bind_bits (IPv4 a) v4 v6) \<le> i \<longrightarrow> bit a i = bit b i)"
| "same_network (IPv6 a y) (IPv6 b z) v4 v6 =
     (\<forall>i. nat (128 - bind_bits (IPv6 a y) v4 v6) \<le> i \<longrightarrow> bit a i = bit b i)"
| "same_network _ _ v4 v6 = False"

lemma bind_bits_family:
  "Is4 a = Is4 b \<Longrightarrow> bind_bits a v4 v6 = bind_bits b v4 v6"
  by (cases a; cases b) (auto simp: bind_bits_def)

lemma same_network_mask:
  "addr_mask a (bind_bits a v4 v6) = addr_mask b (bind_bits b v4 v6) \<longleftrightarrow> same_network a b v4 v6"
proof (cases "Is4 a = Is4 b")
  case True
  then show ?thesis
    using bind_bits_family [OF True] by (cases a; cases b) (auto simp: clear_low_eq_iff)
next
  case False
  then show ?thesis
    by (cases a; cases b) auto
qed


section \<open>A cipher that can be computed\<close>

text \<open>
  For the examples: a cipher with the laws of \<open>aead_ok\<close> and no secrecy, and a sealed session.
\<close>

definition sample_tag :: "bytes \<Rightarrow> bytes \<Rightarrow> bytes" where
  "sample_tag nonce ad = take 14 (nonce @ replicate 14 (CHR ''-'')) @ take 2 (ad @ ''--'')"

definition sample_aead :: aead where
  "sample_aead =
     \<lparr>gcm_Seal = (\<lambda>n p ad. p @ sample_tag n ad),
      gcm_Open = (\<lambda>n c ad. if HasSuffix c (sample_tag n ad) then Some (take (length c - 16) c) else None)\<rparr>"

lemma length_sample_tag [simp]: "length (sample_tag n ad) = 16"
  by (simp add: sample_tag_def)

lemma sample_aead_ok: "aead_ok sample_aead"
  by (auto simp: aead_ok_def sample_aead_def HasSuffix_def Overhead_def) (metis append_take_drop_id)

definition sample_session :: token_session where
  "sample_session =
     \<lparr>ts_SID = ''sid'', ts_Sub = ''alice'', ts_Issued = 100, ts_Expiry = 4000, ts_Renew = 2000,
      ts_Born = 100, ts_Cred = [], ts_Scope = ''wafsess'', ts_Iss = ''main'', ts_Net = [], ts_UA = [],
      ts_AMR = [''pwd'', ''otp''], ts_Groups = [''ops'']\<rparr>"

definition sample_marshal :: "token_session \<Rightarrow> bytes option" where
  "sample_marshal s = Some ''S''"

definition sample_unmarshal :: "bytes \<Rightarrow> token_session option" where
  "sample_unmarshal b = (if b = ''S'' then Some sample_session else None)"

definition sample_nonce :: bytes where
  "sample_nonce = replicate 12 (CHR ''n'')"

definition sample_cookie :: string where
  "sample_cookie = sessionPrefix @ ''.'' @ b64_encode (sample_nonce @ gcm_Seal sample_aead sample_nonce ''S'' sessionPrefix)"

lemma sample_cookie_sealed:
  "SealSession sample_aead sample_marshal (Some sample_nonce) sample_session = Some sample_cookie"
  by (simp add: SealSession_def Key_seal_def sample_marshal_def sample_cookie_def)

lemma sample_cookie_opens:
  "Key_open sample_aead sample_unmarshal sessionPrefix sample_cookie = Inr sample_session"
  by (rule Key_open_seal [OF sample_aead_ok, where marshal = sample_marshal and body = "''S''" and nonce = sample_nonce])
    (simp_all add: sample_marshal_def sample_unmarshal_def sample_nonce_def NonceSize_def
      sample_cookie_sealed [unfolded SealSession_def sample_nonce_def])

lemma sample_cookie_not_Nil [simp]: "sample_cookie \<noteq> []"
  by (simp add: sample_cookie_def)

end
