(* ===== verification/Json.thy ===== *)
theory Json
  imports Encoding
begin

text \<open>
  Decoded JSON documents (Go's \<open>any\<close>) and the readings of them that the token verifier and
  the login learner share. An object is an association list with one entry per key. A number
  is a \<open>float64\<close>; of it the program only uses the conversion to \<open>int64\<close> and the text of
  \<open>strconv.FormatFloat(v, 'f', -1, 64)\<close>, so a number is that pair.
\<close>

datatype json =
    JNull
  | JBool bool
  | JNum int string
  | JStr string
  | JArr "json list"
  | JObj "(string \<times> json) list"

text \<open>The walk down a dotted path: every step must meet an object that has the part.\<close>

fun obj_path :: "json \<Rightarrow> string list \<Rightarrow> json option" where
  "obj_path cur [] = Some cur"
| "obj_path cur (part # parts) =
     (case cur of
        JObj obj \<Rightarrow> (case map_of obj part of None \<Rightarrow> None | Some v \<Rightarrow> obj_path v parts)
      | _ \<Rightarrow> None)"

definition FormatBool :: "bool \<Rightarrow> string" where
  "FormatBool b = (if b then ''true'' else ''false'')"

definition dec_val :: "char \<Rightarrow> nat option" where
  "dec_val c = (let n = byte_val c in if 48 \<le> n \<and> n \<le> 57 then Some (n - 48) else None)"

definition ParseDigits :: "string \<Rightarrow> int option" where
  "ParseDigits s =
     (if s = [] then None
      else map_option (\<lambda>ds. int (foldl (\<lambda>n d. n * 10 + d) 0 ds)) (all_some (map dec_val s)))"

text \<open>\<open>strconv.ParseInt(s, 10, 64)\<close> and \<open>strconv.Atoi\<close>: an optional sign, digits, in range.\<close>

definition ParseInt :: "string \<Rightarrow> int option" where
  "ParseInt s =
     (case (case s of
              [] \<Rightarrow> None
            | c # t \<Rightarrow>
                (if c = CHR ''-'' then map_option uminus (ParseDigits t)
                 else if c = CHR ''+'' then ParseDigits t else ParseDigits s)) of
        None \<Rightarrow> None
      | Some n \<Rightarrow> (if - (2 ^ 63) \<le> n \<and> n < 2 ^ 63 then Some n else None))"

text \<open>\<open>strings.FieldsFunc\<close>: the non-empty runs between separators.\<close>

function fields_func :: "(char \<Rightarrow> bool) \<Rightarrow> string \<Rightarrow> string list" where
  "fields_func sep [] = []"
| "fields_func sep (c # s) =
     (if sep c then fields_func sep s
      else (c # takeWhile (\<lambda>d. \<not> sep d) s) # fields_func sep (dropWhile (\<lambda>d. \<not> sep d) s))"
  by pat_completeness auto
termination
  by (relation "measure (\<lambda>(sep, s). length s)") (auto simp: length_dropWhile_le le_imp_less_Suc)


section \<open>Facts\<close>

lemma obj_path_append:
  "obj_path v (ps @ qs) = (case obj_path v ps of None \<Rightarrow> None | Some w \<Rightarrow> obj_path w qs)"
  by (induction v ps rule: obj_path.induct) (auto split: json.splits option.splits)

lemma obj_path_not_object: "obj_path v (p # ps) = Some w \<Longrightarrow> \<exists>obj. v = JObj obj"
  by (cases v) auto

lemma fields_func_plain: "w \<in> set (fields_func sep s) \<Longrightarrow> w \<noteq> [] \<and> list_all (\<lambda>c. \<not> sep c) w"
proof (induction sep s arbitrary: w rule: fields_func.induct)
  case (1 sep)
  then show ?case by simp
next
  case (2 sep c s)
  have run: "list_all (\<lambda>c. \<not> sep c) (takeWhile (\<lambda>d. \<not> sep d) s)"
    by (auto simp: list_all_iff dest: set_takeWhileD)
  show ?case
  proof (cases "sep c")
    case True
    then show ?thesis using 2 by simp
  next
    case False
    with "2.prems" have "w = c # takeWhile (\<lambda>d. \<not> sep d) s
        \<or> w \<in> set (fields_func sep (dropWhile (\<lambda>d. \<not> sep d) s))"
      by simp
    then show ?thesis
      using False run "2.IH"(2) [OF False] by auto
  qed
qed

lemma ParseInt_range: "ParseInt s = Some n \<Longrightarrow> - (2 ^ 63) \<le> n \<and> n < 2 ^ 63"
  by (auto simp: ParseInt_def split: option.splits list.splits if_splits)

end
