(* ===== verification/Jwt.thy ===== *)
theory Jwt
  imports Json
begin

text \<open>
  Tokens of another issuer (\<open>internal/jwt/jwt.go\<close>): parsing, the check of the signature, and
  the readings of claims. The cryptography of Go's standard library is the record
  \<open>jwt_crypto\<close>; \<open>unmarshal\<close> decodes a JSON object and gives \<open>None\<close> for invalid JSON, for
  anything that is not an object and for \<open>null\<close>, which the source refuses alike.
\<close>

section \<open>Data\<close>

datatype jwt_error = JwtMalformed | JwtAlg | JwtSignature | JwtKey

datatype hash_fn = SHA256 | SHA384 | SHA512

text \<open>A public key carries its own encoding, and an elliptic one its curve's size in bits.\<close>

datatype public_key = RSAKey bytes | ECKey bytes nat | OtherKey bytes

record jwt_crypto =
  jx_HMAC :: "hash_fn \<Rightarrow> bytes \<Rightarrow> bytes \<Rightarrow> bytes"
  jx_Digest :: "hash_fn \<Rightarrow> bytes \<Rightarrow> bytes"
  jx_RSA :: "bytes \<Rightarrow> hash_fn \<Rightarrow> bytes \<Rightarrow> bytes \<Rightarrow> bool"
  jx_ECDSA :: "bytes \<Rightarrow> bytes \<Rightarrow> bytes \<Rightarrow> bytes \<Rightarrow> bool"
  jx_PEM :: "bytes \<Rightarrow> (string \<times> bytes) option"
  jx_PKIX :: "bytes \<Rightarrow> public_key option"
  jx_PKCS1 :: "bytes \<Rightarrow> public_key option"
  jx_Certificate :: "bytes \<Rightarrow> public_key option"

record jwt_token =
  jt_Header :: "(string \<times> json) list"
  jt_Claims :: "(string \<times> json) list"
  jt_raw :: string
  jt_signing :: string
  jt_signature :: bytes


section \<open>Parsing\<close>

definition Jwt_Parse :: "(bytes \<Rightarrow> (string \<times> json) list option) \<Rightarrow> string \<Rightarrow> jwt_error + jwt_token" where
  "Jwt_Parse unmarshal raw =
     (case Split (CHR ''.'') raw of
        [p0, p1, p2] \<Rightarrow>
          (case (b64_decode p0, b64_decode p1, b64_decode p2) of
             (Some head, Some body, Some sig) \<Rightarrow>
               (case unmarshal head of
                  None \<Rightarrow> Inl JwtMalformed
                | Some header \<Rightarrow>
                    (case unmarshal body of
                       None \<Rightarrow> Inl JwtMalformed
                     | Some claims \<Rightarrow>
                         Inr \<lparr>jt_Header = header, jt_Claims = claims, jt_raw = raw,
                           jt_signing = p0 @ ''.'' @ p1, jt_signature = sig\<rparr>))
           | _ \<Rightarrow> Inl JwtMalformed)
      | _ \<Rightarrow> Inl JwtMalformed)"


section \<open>The signature\<close>

definition Jwt_Alg :: "jwt_token \<Rightarrow> string" where
  "Jwt_Alg t = (case map_of (jt_Header t) ''alg'' of Some (JStr alg) \<Rightarrow> alg | _ \<Rightarrow> [])"

definition hashOf :: "string \<Rightarrow> hash_fn option" where
  "hashOf alg =
     (if alg = ''HS256'' \<or> alg = ''RS256'' \<or> alg = ''ES256'' then Some SHA256
      else if alg = ''HS384'' \<or> alg = ''RS384'' \<or> alg = ''ES384'' then Some SHA384
      else if alg = ''HS512'' \<or> alg = ''RS512'' then Some SHA512
      else None)"

definition publicKey :: "jwt_crypto \<Rightarrow> bytes \<Rightarrow> public_key option" where
  "publicKey jx raw =
     (case jx_PEM jx raw of
        None \<Rightarrow> None
      | Some (type, der) \<Rightarrow>
          (if type = ''PUBLIC KEY'' then jx_PKIX jx der
           else if type = ''RSA PUBLIC KEY'' then jx_PKCS1 jx der
           else if type = ''CERTIFICATE'' then jx_Certificate jx der
           else None))"

text \<open>
  \<open>Verify\<close>: \<open>None\<close> is success. An error of \<open>publicKey\<close> is reported as \<open>JwtKey\<close>, whatever
  the standard library's parser said.
\<close>

definition Jwt_Verify :: "jwt_crypto \<Rightarrow> jwt_token \<Rightarrow> string \<Rightarrow> bytes \<Rightarrow> jwt_error option" where
  "Jwt_Verify jx t alg key =
     (if Jwt_Alg t \<noteq> alg then Some JwtAlg
      else (case hashOf alg of
              None \<Rightarrow> Some JwtAlg
            | Some hash \<Rightarrow>
                (if take 2 alg = ''HS'' then
                   (if jx_HMAC jx hash key (jt_signing t) \<noteq> jt_signature t then Some JwtSignature
                    else None)
                 else if take 2 alg = ''RS'' then
                   (case publicKey jx key of
                      None \<Rightarrow> Some JwtKey
                    | Some (RSAKey k) \<Rightarrow>
                        (if \<not> jx_RSA jx k hash (jx_Digest jx hash (jt_signing t)) (jt_signature t)
                         then Some JwtSignature else None)
                    | Some _ \<Rightarrow> Some JwtKey)
                 else if take 2 alg = ''ES'' then
                   (case publicKey jx key of
                      None \<Rightarrow> Some JwtKey
                    | Some (ECKey k bits) \<Rightarrow>
                        (let n = (bits + 7) div 8
                         in if length (jt_signature t) \<noteq> 2 * n then Some JwtSignature
                            else if \<not> jx_ECDSA jx k (jx_Digest jx hash (jt_signing t))
                                     (take n (jt_signature t)) (drop n (jt_signature t))
                              then Some JwtSignature
                            else None)
                    | Some _ \<Rightarrow> Some JwtKey)
                 else Some JwtAlg)))"

definition Jwt_Hash :: "(bytes \<Rightarrow> bytes) \<Rightarrow> jwt_token \<Rightarrow> string" where
  "Jwt_Hash sha256 t = ''sha256:'' @ HexString (sha256 (jt_raw t))"


section \<open>Claims\<close>

definition Jwt_claim :: "jwt_token \<Rightarrow> string \<Rightarrow> json option" where
  "Jwt_claim t name =
     (if name = [] then None
      else (case map_of (jt_Claims t) name of
              Some v \<Rightarrow> Some v
            | None \<Rightarrow>
                (if CHR ''.'' \<notin> set name then None
                 else obj_path (JObj (jt_Claims t)) (Split (CHR ''.'') name))))"

definition Jwt_String :: "jwt_token \<Rightarrow> string \<Rightarrow> string" where
  "Jwt_String t name =
     (case Jwt_claim t name of
        Some (JStr v) \<Rightarrow> v
      | Some (JNum n text) \<Rightarrow> text
      | Some (JBool b) \<Rightarrow> FormatBool b
      | _ \<Rightarrow> [])"

fun string_items :: "json list \<Rightarrow> string list" where
  "string_items [] = []"
| "string_items (JStr s # items) = (if s \<noteq> [] then s # string_items items else string_items items)"
| "string_items (_ # items) = string_items items"

definition Jwt_Strings :: "jwt_token \<Rightarrow> string \<Rightarrow> string list" where
  "Jwt_Strings t name =
     (case Jwt_claim t name of
        Some (JArr items) \<Rightarrow> string_items items
      | Some (JStr v) \<Rightarrow> fields_func (\<lambda>c. c = CHR '','' \<or> c = CHR '' '') v
      | _ \<Rightarrow> [])"

definition Jwt_Int :: "jwt_token \<Rightarrow> string \<Rightarrow> int option" where
  "Jwt_Int t name =
     (case Jwt_claim t name of
        Some (JNum n text) \<Rightarrow> Some n
      | Some (JStr v) \<Rightarrow> ParseInt v
      | _ \<Rightarrow> None)"


section \<open>Facts\<close>

lemma Jwt_Parse_Inr:
  assumes "Jwt_Parse unmarshal raw = Inr t"
  obtains p0 p1 p2 head body sig where
    "Split (CHR ''.'') raw = [p0, p1, p2]" "b64_decode p0 = Some head" "b64_decode p1 = Some body"
    "b64_decode p2 = Some sig" "unmarshal head = Some (jt_Header t)" "unmarshal body = Some (jt_Claims t)"
    "jt_raw t = raw" "jt_signing t = p0 @ ''.'' @ p1" "jt_signature t = sig"
  using assms by (auto simp: Jwt_Parse_def split: list.splits option.splits prod.splits)

lemma Jwt_Verify_alg: "Jwt_Verify jx t alg key = None \<Longrightarrow> Jwt_Alg t = alg \<and> hashOf alg \<noteq> None"
  by (auto simp: Jwt_Verify_def split: if_splits option.splits)

lemma hashOf_none [simp]: "hashOf ''none'' = None" "hashOf [] = None"
  by (simp_all add: hashOf_def)

lemma string_items_not_Nil: "[] \<notin> set (string_items items)"
  by (induction items rule: string_items.induct) auto

lemma Jwt_Strings_not_Nil: "[] \<notin> set (Jwt_Strings t name)"
proof (cases "Jwt_claim t name")
  case None
  then show ?thesis by (simp add: Jwt_Strings_def)
next
  case (Some v)
  then show ?thesis
    using string_items_not_Nil fields_func_plain [of "[]"] by (cases v) (auto simp: Jwt_Strings_def)
qed

end
