(* ===== verification/Config.thy ===== *)
theory Config
  imports Protocol
begin

text \<open>
  The configuration's data and the questions the two processes ask it
  (\<open>internal/config/source.go\<close>, \<open>internal/config/profile.go\<close>). Reading YAML is left out;
  what a file has decoded to is the record. The page template of a source is not modelled.
\<close>

section \<open>Sources\<close>

record login_cfg =
  lg_URI :: string
  lg_Title :: string
  lg_Note :: string

record session_cfg =
  sc_Cookie :: string
  sc_TTL :: duration
  sc_RenewAfter :: duration
  sc_MaxTTL :: duration
  sc_Bind :: "string list"
  sc_V4 :: int
  sc_V6 :: int

record ticket_cfg =
  tc_Cookie :: string
  tc_TTL :: duration

record list_cfg =
  lc_Sessions :: string
  lc_Cookie :: string
  lc_TTL :: duration
  lc_Origin :: string
  lc_Grace :: duration

record upstream_cfg =
  up_User :: string
  up_Groups :: string
  up_Method :: string
  up_Cookie :: string
  up_TTL :: duration

record jwt_verify =
  jv_Alg :: string
  jv_KeyFile :: string
  jv_SecretEnv :: string
  jv_Issuer :: string
  jv_Audience :: string
  jv_Leeway :: duration

record jwt_claims =
  jc_User :: string
  jc_Session :: string
  jc_Groups :: string
  jc_Issued :: string
  jc_Expiry :: string

record jwt_provider =
  jp_Cookie :: string
  jp_Header :: string
  jp_Prefix :: string
  jp_Verify :: jwt_verify
  jp_Claims :: jwt_claims
  jp_Key :: bytes

record app_route =
  ar_URI :: string
  ar_Method :: string

record app_json_check =
  aj_Path :: string
  aj_Equals :: string

record app_success =
  as_Status :: "int list"
  as_CookieNew :: "bool option"
  as_JSON :: "app_json_check option"

record app_field =
  af_From :: string
  af_Field :: string

record app_learn =
  al_Login :: app_route
  al_Logout :: app_route
  al_Success :: app_success
  al_User :: app_field

record app_provider =
  ap_Cookie :: string
  ap_Learn :: app_learn

record code_provider =
  cp_Kind :: string
  cp_Digits :: int
  cp_Period :: duration
  cp_Skew :: int
  cp_Users :: string
  cp_Codes :: "string list"

record ldap_search =
  sr_Base :: string
  sr_Filter :: string
  sr_BindDN :: string
  sr_PasswordEnv :: string
  sr_PasswordStore :: string

record ldap_tls =
  lt_CAFile :: string
  lt_InsecureSkipVerify :: bool

record ldap_provider =
  lp_URL :: string
  lp_StartTLS :: bool
  lp_Bind :: string
  lp_UPNSuffix :: string
  lp_DNTemplate :: string
  lp_Timeout :: duration
  lp_Groups :: "string list"
  lp_Search :: ldap_search
  lp_TLS :: ldap_tls

record ntlm_provider =
  np_URL :: string
  np_Domain :: string
  np_Timeout :: duration
  np_StartTLS :: bool
  np_Groups :: "string list"
  np_Search :: ldap_search
  np_TLS :: ldap_tls

record providers =
  pr_LocalUsers :: "string option"
  pr_Code :: "code_provider option"
  pr_LDAP :: "ldap_provider option"
  pr_NTLM :: "ntlm_provider option"
  pr_JWT :: "jwt_provider option"
  pr_App :: "app_provider option"

record lockout_cfg =
  lk_Attempts :: int
  lk_Window :: duration
  lk_Lock :: duration

record roster_cfg =
  rc_Store :: string
  rc_Prefix :: string

record user =
  us_Login :: string
  us_Password :: string
  us_TOTP :: string
  us_TOTPStore :: string
  us_Groups :: "string list"
  us_Enabled :: "bool option"
  us_Display :: string

record source =
  src_Name :: string
  src_Login :: login_cfg
  src_Session :: session_cfg
  src_Ticket :: ticket_cfg
  src_List :: list_cfg
  src_Upstream :: upstream_cfg
  src_Provider :: string
  src_IdentityFrom :: string
  src_Providers :: providers
  src_Lockout :: lockout_cfg
  src_Roster :: roster_cfg
  src_Users :: "string \<rightharpoonup> user"

abbreviation "ProviderLocal \<equiv> ''local''"
abbreviation "ProviderCode \<equiv> ''code''"
abbreviation "ProviderLDAP \<equiv> ''ldap''"
abbreviation "ProviderNTLM \<equiv> ''ntlm''"
abbreviation "ProviderJWT \<equiv> ''jwt''"
abbreviation "ProviderApp \<equiv> ''app''"

abbreviation "JWTAlgNone \<equiv> ''none''"

abbreviation "FieldBodyForm \<equiv> ''body.form''"
abbreviation "FieldBodyJSON \<equiv> ''body.json''"
abbreviation "FieldArgs \<equiv> ''args''"
abbreviation "FieldHeader \<equiv> ''header''"

abbreviation "CodeTOTP \<equiv> ''totp''"
abbreviation "CodeStatic \<equiv> ''static''"

abbreviation "BindUPN \<equiv> ''upn''"
abbreviation "BindDNTemplate \<equiv> ''dn_template''"
abbreviation "BindSearch \<equiv> ''search''"

abbreviation "RosterRedis \<equiv> ''redis''"
abbreviation "RosterMemory \<equiv> ''memory''"

abbreviation "BindNet \<equiv> ''subnet''"
abbreviation "BindUA \<equiv> ''ua''"

definition List_Enabled :: "list_cfg \<Rightarrow> bool" where
  "List_Enabled l \<longleftrightarrow> lc_Sessions l \<noteq> []"

definition RequiresCookieNew :: "app_success \<Rightarrow> bool" where
  "RequiresCookieNew s = (case as_CookieNew s of None \<Rightarrow> True | Some b \<Rightarrow> b)"

definition User_Active :: "user \<Rightarrow> bool" where
  "User_Active u = (case us_Enabled u of None \<Rightarrow> True | Some b \<Rightarrow> b)"

definition hasBind :: "source \<Rightarrow> string \<Rightarrow> bool" where
  "hasBind s kind = member_loop (sc_Bind (src_Session s)) kind"

definition BindsNet :: "source \<Rightarrow> bool" where
  "BindsNet s = hasBind s BindNet"

definition BindsUA :: "source \<Rightarrow> bool" where
  "BindsUA s = hasBind s BindUA"

definition External :: "source \<Rightarrow> bool" where
  "External s \<longleftrightarrow> src_Provider s = ProviderJWT \<or> src_Provider s = ProviderApp"

definition SessionCookie :: "source \<Rightarrow> string" where
  "SessionCookie s =
     (if src_Provider s = ProviderJWT then
        (case pr_JWT (src_Providers s) of Some j \<Rightarrow> jp_Cookie j | None \<Rightarrow> [])
      else if src_Provider s = ProviderApp then
        (case pr_App (src_Providers s) of Some a \<Rightarrow> ap_Cookie a | None \<Rightarrow> [])
      else sc_Cookie (src_Session s))"

definition Learns :: "source \<Rightarrow> bool" where
  "Learns s \<longleftrightarrow> src_Provider s = ProviderApp \<and>
     (case pr_App (src_Providers s) of None \<Rightarrow> False
      | Some a \<Rightarrow> ar_URI (al_Login (ap_Learn a)) \<noteq> [])"

definition UsersFile :: "source \<Rightarrow> string" where
  "UsersFile s =
     (if src_Provider s = ProviderLocal then
        (case pr_LocalUsers (src_Providers s) of Some f \<Rightarrow> f | None \<Rightarrow> [])
      else if src_Provider s = ProviderCode then
        (case pr_Code (src_Providers s) of
           Some c \<Rightarrow> (if cp_Kind c = CodeTOTP then cp_Users c else []) | None \<Rightarrow> [])
      else [])"


section \<open>Profiles\<close>

record gate_cfg =
  gt_RedirectMethods :: "string list"
  gt_RedirectStatus :: int
  gt_DenyResponse :: string
  gt_HTMLOnly :: bool
  gt_Groups :: "string list"
  gt_ForbiddenResponse :: string
  gt_Inline :: bool

record prior_rule =
  pl_From :: string
  pl_Accept :: "string list"
  pl_Apply :: "string list"
  pl_Codes :: "string list"

record trigger_cfg =
  tr_Prior :: "prior_rule list"
  tr_ReauthAfter :: duration

record event_rule =
  er_On :: string
  er_At :: "int option"
  er_To :: string
  er_Do :: string
  er_Apply :: string
  er_Phase :: string
  er_Delta :: "int option"
  er_Value :: "int option"
  er_Counter :: string
  er_Group :: string
  er_Set :: string
  er_Marker :: string
  er_Headers :: "object_spec option"
  er_Args :: "object_spec option"
  er_Body :: "object_spec option"
  er_When :: "string list"
  er_List :: string
  er_Write :: string
  er_TTL :: duration
  er_Code :: string

record profile =
  pf_Name :: string
  pf_Mode :: string
  pf_Source :: string
  pf_Gate :: gate_cfg
  pf_Trigger :: trigger_cfg
  pf_Rules :: "event_rule list"
  pf_Src :: "source option"

abbreviation "ModeEnforce \<equiv> ''enforce''"
abbreviation "ModeObserve \<equiv> ''observe''"
abbreviation "ModeOff \<equiv> ''off''"
abbreviation "AnyInspector \<equiv> ''*''"
abbreviation "DefaultName \<equiv> ''default''"

abbreviation "OnAuthenticated \<equiv> ''authenticated''"
abbreviation "OnAnonymous \<equiv> ''anonymous''"
abbreviation "OnInvalid \<equiv> ''invalid''"
abbreviation "OnForbidden \<equiv> ''forbidden''"

definition PriorRule_Accepts :: "prior_rule \<Rightarrow> string \<Rightarrow> bool" where
  "PriorRule_Accepts r verb = member_loop (pl_Accept r) verb"

definition PriorRule_WantsAxis :: "prior_rule \<Rightarrow> string \<Rightarrow> bool" where
  "PriorRule_WantsAxis r axis = (if pl_Apply r = [] then True else member_loop (pl_Apply r) axis)"

definition PriorRule_WantsCode :: "prior_rule \<Rightarrow> string \<Rightarrow> bool" where
  "PriorRule_WantsCode r code = (if pl_Codes r = [] then True else member_loop (pl_Codes r) code)"

definition EventRule_Axis :: "event_rule \<Rightarrow> string" where
  "EventRule_Axis r =
     (if er_Apply r \<noteq> [] then er_Apply r
      else if er_Do r = DoReauth then ApplySession
      else if er_Do r = DoNote then []
      else ApplyRequest)"

definition RulesFor :: "profile \<Rightarrow> string \<Rightarrow> event_rule list" where
  "RulesFor p on = filter (\<lambda>r. er_On r = on) (pf_Rules p)"

definition FormInline :: "profile \<Rightarrow> bool" where
  "FormInline p = gt_Inline (pf_Gate p)"

definition under_login :: "string \<Rightarrow> string \<Rightarrow> bool" where
  "under_login base uri \<longleftrightarrow> uri = base \<or> HasPrefix uri (TrimRightBytes ''/'' base @ ''/'')"

definition OwnPath :: "profile \<Rightarrow> string \<Rightarrow> bool" where
  "OwnPath p uri =
     (case pf_Src p of None \<Rightarrow> False
      | Some s \<Rightarrow>
          (if Learns s \<and>
              (case pr_App (src_Providers s) of None \<Rightarrow> False
               | Some a \<Rightarrow> uri = ar_URI (al_Login (ap_Learn a)) \<or>
                   (ar_URI (al_Logout (ap_Learn a)) \<noteq> [] \<and> uri = ar_URI (al_Logout (ap_Learn a))))
           then True
           else if lg_URI (src_Login s) = [] then False
           else under_login (lg_URI (src_Login s)) uri))"

definition RedirectsMethod :: "profile \<Rightarrow> string \<Rightarrow> bool" where
  "RedirectsMethod p m = member_loop (gt_RedirectMethods (pf_Gate p)) m"

text \<open>The two nested loops of \<open>GroupsAllow\<close>.\<close>

fun groups_scan :: "case_tables \<Rightarrow> string list \<Rightarrow> string list \<Rightarrow> bool" where
  "groups_scan ct groups [] = False"
| "groups_scan ct groups (w # ws) =
     (if list_ex (\<lambda>g. EqualFold ct (TrimSpace g) (TrimSpace w)) groups then True
      else groups_scan ct groups ws)"

definition GroupsAllow :: "case_tables \<Rightarrow> string list \<Rightarrow> string list \<Rightarrow> bool" where
  "GroupsAllow ct groups want = (if want = [] then True else groups_scan ct groups want)"

definition Profile_Allows :: "case_tables \<Rightarrow> profile \<Rightarrow> string list \<Rightarrow> bool" where
  "Profile_Allows ct p groups = GroupsAllow ct groups (gt_Groups (pf_Gate p))"


section \<open>Facts\<close>

lemma groups_scan_iff:
  "groups_scan ct groups want \<longleftrightarrow>
     (\<exists>w \<in> set want. \<exists>g \<in> set groups. EqualFold ct (TrimSpace g) (TrimSpace w))"
  by (induction want) (auto simp: list_ex_iff)

lemma GroupsAllow_iff:
  "GroupsAllow ct groups want \<longleftrightarrow>
     want = [] \<or> (\<exists>w \<in> set want. \<exists>g \<in> set groups. EqualFold ct (TrimSpace g) (TrimSpace w))"
  by (simp add: GroupsAllow_def groups_scan_iff)

lemma GroupsAllow_mono: "GroupsAllow ct groups want \<Longrightarrow> set groups \<subseteq> set wider \<Longrightarrow> GroupsAllow ct wider want"
  by (auto simp: GroupsAllow_iff)

lemma TrimRightBytes_append:
  "\<exists>t. base = TrimRightBytes cs base @ t \<and> set t \<subseteq> set cs"
proof -
  have "base = rev (dropWhile (\<lambda>c. c \<in> set cs) (rev base)) @ rev (takeWhile (\<lambda>c. c \<in> set cs) (rev base))"
    by (metis rev_append rev_rev_ident takeWhile_dropWhile_id)
  then show ?thesis
    unfolding TrimRightBytes_def by (metis set_rev set_takeWhileD subsetI)
qed

lemma OwnPath_login: "pf_Src p = Some s \<Longrightarrow> lg_URI (src_Login s) \<noteq> [] \<Longrightarrow> OwnPath p (lg_URI (src_Login s))"
  by (simp add: OwnPath_def under_login_def)

end
