(* ===== verification/Url.thy ===== *)
theory Url
  imports Encoding
begin

text \<open>
  Query strings as Go's \<open>net/url\<close> reads and writes them: \<open>QueryUnescape\<close>, \<open>ParseQuery\<close>
  and the round trip with \<open>QueryEscape\<close>.
\<close>

fun QueryUnescape :: "string \<Rightarrow> string option" where
  "QueryUnescape [] = Some []"
| "QueryUnescape (c # s) =
     (if c = CHR ''%'' then
        (case s of
           h # l # t \<Rightarrow>
             (case (hex_val h, hex_val l) of
                (Some x, Some y) \<Rightarrow> map_option ((#) (char_of (x * 16 + y))) (QueryUnescape t)
              | _ \<Rightarrow> None)
         | _ \<Rightarrow> None)
      else if c = CHR ''+'' then map_option ((#) (CHR '' '')) (QueryUnescape s)
      else map_option ((#) c) (QueryUnescape s))"

text \<open>
  \<open>url.ParseQuery\<close> reads every pair even after a bad one and reports the first error; its
  callers use the pairs only when there was none. A semicolon in a pair is an error.
\<close>

fun parse_pairs :: "string list \<Rightarrow> (string \<times> string) list option" where
  "parse_pairs [] = Some []"
| "parse_pairs (part # parts) =
     (if part = [] then parse_pairs parts
      else if CHR '';'' \<in> set part then None
      else (let (key, value) = (case Cut (CHR ''='') part of Some kv \<Rightarrow> kv | None \<Rightarrow> (part, []))
            in case (QueryUnescape key, QueryUnescape value, parse_pairs parts) of
                 (Some k, Some v, Some kvs) \<Rightarrow> Some ((k, v) # kvs)
               | _ \<Rightarrow> None))"

definition ParseQuery :: "string \<Rightarrow> (string \<times> string) list option" where
  "ParseQuery query = parse_pairs (Split (CHR ''&'') query)"

definition query_values :: "(string \<times> string) list \<Rightarrow> string \<Rightarrow> string list" where
  "query_values kvs key = map snd (filter (\<lambda>kv. fst kv = key) kvs)"


section \<open>Facts\<close>

lemma hex_val_upper: "n < 16 \<Longrightarrow> hex_val (hex_upper n) = Some n"
proof -
  assume n: "n < 16"
  then have "byte_val (hex_upper n) = (if n < 10 then 48 + n else 55 + n)"
    by (simp add: hex_upper_def)
  with n show ?thesis
    unfolding hex_val_def Let_def by auto
qed

lemma QueryUnescape_escape_char:
  "QueryUnescape (escape_char c @ s) = map_option ((#) c) (QueryUnescape s)"
proof (cases "unreserved c")
  case True
  then have "c \<noteq> CHR ''%''" "c \<noteq> CHR ''+''"
    by (auto simp: unreserved_def)
  with True show ?thesis by (simp add: escape_char_def)
next
  case False
  have "hex_val (hex_upper (byte_val c div 16)) = Some (byte_val c div 16)"
    and "hex_val (hex_upper (byte_val c mod 16)) = Some (byte_val c mod 16)"
    by (simp_all add: hex_val_upper div_less_of_256)
  moreover have "(char_of (byte_val c div 16 * 16 + byte_val c mod 16) :: char) = c"
    by simp
  ultimately show ?thesis
    using False by (auto simp: escape_char_def Let_def)
qed

lemma QueryUnescape_QueryEscape [simp]: "QueryUnescape (QueryEscape s) = Some s"
  by (induction s) (simp_all add: QueryEscape_def QueryUnescape_escape_char)

lemma hex_upper_unreserved: "n < 16 \<Longrightarrow> unreserved (hex_upper n)"
proof -
  assume n: "n < 16"
  then have "byte_val (hex_upper n) = (if n < 10 then 48 + n else 55 + n)"
    by (simp add: hex_upper_def)
  with n show ?thesis
    unfolding unreserved_def Let_def by auto
qed

lemma escape_char_safe:
  "x \<in> set (escape_char c) \<Longrightarrow> unreserved x \<or> x = CHR ''+'' \<or> x = CHR ''%''"
  by (auto simp: escape_char_def Let_def hex_upper_unreserved div_less_of_256 split: if_splits)

lemma QueryEscape_safe:
  "x \<in> set (QueryEscape s) \<Longrightarrow> unreserved x \<or> x = CHR ''+'' \<or> x = CHR ''%''"
  using escape_char_safe by (auto simp: QueryEscape_def)

lemma QueryEscape_no_sep:
  "CHR ''&'' \<notin> set (QueryEscape s)" "CHR ''='' \<notin> set (QueryEscape s)"
  "CHR '';'' \<notin> set (QueryEscape s)"
  by (auto dest!: QueryEscape_safe simp: unreserved_def)

text \<open>A query with one escaped pair reads back as that pair.\<close>

lemma ParseQuery_single:
  assumes "list_all unreserved key" "key \<noteq> []"
  shows "ParseQuery (key @ ''='' @ QueryEscape value) = Some [(key, value)]"
proof -
  have plain: "QueryUnescape key = Some key"
    using assms(1) by (induction key) (auto simp: unreserved_def)
  have no: "c \<notin> set key" if "\<not> unreserved c" for c
    using assms(1) that by (auto simp: list_all_iff)
  have "CHR ''&'' \<notin> set (key @ ''='' @ QueryEscape value)"
    using no [of "CHR ''&''"] QueryEscape_no_sep by (auto simp: unreserved_def)
  then have "Split (CHR ''&'') (key @ ''='' @ QueryEscape value) = [key @ ''='' @ QueryEscape value]"
    by (rule Split_single)
  moreover have "CHR '';'' \<notin> set (key @ ''='' @ QueryEscape value)"
    using no [of "CHR '';''"] QueryEscape_no_sep by (auto simp: unreserved_def)
  moreover have "Cut (CHR ''='') (key @ CHR ''='' # QueryEscape value) = Some (key, QueryEscape value)"
    using no [of "CHR ''=''"] by (intro Cut_append) (simp add: unreserved_def)
  ultimately show ?thesis
    using assms(2) by (simp add: ParseQuery_def plain)
qed

end
