(* ===== verification/Learn.thy ===== *)
theory Learn
  imports Config Json Url
begin

text \<open>
  Learning the application's own login (\<open>internal/learn/learn.go\<close>): whether a request is the
  login or the logout route, which session cookie a response sets, who signed in, whether the
  login succeeded, and the form of a learned session in the dataset. \<open>unmarshal\<close> decodes a
  JSON document, \<open>sha256\<close> is the hash.
\<close>

datatype learn_error = ErrNoField | ErrBadBody | ErrNoContent | ErrUnknownSource string

definition Learn_Matches :: "case_tables \<Rightarrow> app_route \<Rightarrow> string \<Rightarrow> string \<Rightarrow> bool" where
  "Learn_Matches ct r method uri \<longleftrightarrow>
     ar_URI r \<noteq> [] \<and> uri = ar_URI r \<and> EqualFold ct method (ar_Method r)"


section \<open>The cookie a response sets\<close>

fun dead_attr :: "case_tables \<Rightarrow> string list \<Rightarrow> bool" where
  "dead_attr ct [] = False"
| "dead_attr ct (attr # attrs) =
     (let (k, v) = (case Cut (CHR ''='') (TrimSpace attr) of Some kv \<Rightarrow> kv | None \<Rightarrow> (TrimSpace attr, []))
      in if EqualFold ct (TrimSpace k) ''max-age'' \<and>
            (case ParseInt (TrimSpace v) of Some n \<Rightarrow> n \<le> 0 | None \<Rightarrow> False)
         then True else dead_attr ct attrs)"

text \<open>\<open>None\<close> is \<open>ok = false\<close>: the line sets another cookie.\<close>

definition setCookie :: "case_tables \<Rightarrow> string \<Rightarrow> string \<Rightarrow> string option" where
  "setCookie ct line name =
     (let parts = Split (CHR '';'') line
      in case Cut (CHR ''='') (TrimSpace (hd parts)) of
           None \<Rightarrow> None
         | Some (key, value) \<Rightarrow>
             (if TrimSpace key \<noteq> name then None
              else if dead_attr ct (tl parts) then Some []
              else Some (TrimBytes [CHR 0x22] (TrimSpace value))))"

fun issued_scan :: "case_tables \<Rightarrow> string \<Rightarrow> string \<times> bool \<Rightarrow> header list \<Rightarrow> string \<times> bool" where
  "issued_scan ct name acc [] = acc"
| "issued_scan ct name acc ((n, v) # hs) =
     (if \<not> EqualFold ct n ''set-cookie'' then issued_scan ct name acc hs
      else (case setCookie ct v name of
              None \<Rightarrow> issued_scan ct name acc hs
            | Some value \<Rightarrow> issued_scan ct name (value, value \<noteq> []) hs))"

definition Learn_Issued :: "case_tables \<Rightarrow> header list \<Rightarrow> string \<Rightarrow> string \<times> bool" where
  "Learn_Issued ct headers name = issued_scan ct name ([], False) headers"


section \<open>Who signed in\<close>

definition learn_first :: "string list \<Rightarrow> learn_error + string" where
  "learn_first values =
     (case values of
        [] \<Rightarrow> Inl ErrNoField
      | v # vs \<Rightarrow> (if TrimSpace v = [] then Inl ErrNoField else Inr (TrimSpace v)))"

definition learn_lookup :: "json \<Rightarrow> string \<Rightarrow> json option" where
  "learn_lookup doc path = obj_path doc (Split (CHR ''.'') path)"

definition learn_scalar :: "json \<Rightarrow> learn_error + string" where
  "learn_scalar v =
     (case v of
        JStr x \<Rightarrow> (if TrimSpace x = [] then Inl ErrNoField else Inr (TrimSpace x))
      | JNum n text \<Rightarrow> Inr text
      | JBool b \<Rightarrow> Inr (FormatBool b)
      | _ \<Rightarrow> Inl ErrNoField)"

fun header_field :: "case_tables \<Rightarrow> header list \<Rightarrow> string \<Rightarrow> learn_error + string" where
  "header_field ct [] name = Inl ErrNoField"
| "header_field ct ((n, v) # hs) name =
     (if EqualFold ct n name then Inr (TrimSpace v) else header_field ct hs name)"

definition Learn_Extract :: "case_tables \<Rightarrow> (bytes \<Rightarrow> json option) \<Rightarrow> app_field \<Rightarrow> bytes option \<Rightarrow> string
    \<Rightarrow> header list \<Rightarrow> learn_error + string" where
  "Learn_Extract ct unmarshal f body args headers =
     (if af_From f = FieldBodyForm then
        (case body of
           None \<Rightarrow> Inl ErrNoContent
         | Some b \<Rightarrow>
             (case ParseQuery b of
                None \<Rightarrow> Inl ErrBadBody
              | Some kvs \<Rightarrow> learn_first (query_values kvs (af_Field f))))
      else if af_From f = FieldBodyJSON then
        (case body of
           None \<Rightarrow> Inl ErrNoContent
         | Some b \<Rightarrow>
             (case unmarshal b of
                None \<Rightarrow> Inl ErrBadBody
              | Some doc \<Rightarrow>
                  (case learn_lookup doc (af_Field f) of
                     None \<Rightarrow> Inl ErrNoField
                   | Some v \<Rightarrow> learn_scalar v)))
      else if af_From f = FieldArgs then
        (case ParseQuery args of
           None \<Rightarrow> Inl ErrBadBody
         | Some kvs \<Rightarrow> learn_first (query_values kvs (af_Field f)))
      else if af_From f = FieldHeader then header_field ct headers (af_Field f)
      else Inl (ErrUnknownSource (af_From f)))"


section \<open>Whether the login succeeded\<close>

definition Learn_Succeeded :: "(bytes \<Rightarrow> json option) \<Rightarrow> app_success \<Rightarrow> int \<Rightarrow> bytes option \<Rightarrow> bool \<Rightarrow> bool" where
  "Learn_Succeeded unmarshal s status body cookieNew =
     (if \<not> member_loop (as_Status s) status then False
      else if RequiresCookieNew s \<and> \<not> cookieNew then False
      else (case as_JSON s of
              None \<Rightarrow> True
            | Some check \<Rightarrow>
                (case body of
                   None \<Rightarrow> False
                 | Some b \<Rightarrow>
                     (case unmarshal b of
                        None \<Rightarrow> False
                      | Some doc \<Rightarrow>
                          (case learn_lookup doc (aj_Path check) of
                             None \<Rightarrow> False
                           | Some v \<Rightarrow>
                               (case learn_scalar v of
                                  Inl e \<Rightarrow> False
                                | Inr got \<Rightarrow> got = aj_Equals check))))))"


section \<open>A learned session\<close>

definition Learn_Hash :: "(bytes \<Rightarrow> bytes) \<Rightarrow> string \<Rightarrow> string" where
  "Learn_Hash sha256 cookie = ''sha256:'' @ HexString (sha256 cookie)"

abbreviation "reasonPrefix \<equiv> ''AUTH_LOGIN ''"

definition Learn_Reason :: "string \<Rightarrow> string" where
  "Learn_Reason user = reasonPrefix @ user"

definition UserOf :: "string \<Rightarrow> string" where
  "UserOf reason =
     (if \<not> HasPrefix reason reasonPrefix then []
      else TrimSpace (drop (length reasonPrefix) reason))"


section \<open>Facts\<close>

lemma UserOf_Reason_trim: "UserOf (Learn_Reason user) = TrimSpace user"
  by (simp add: UserOf_def Learn_Reason_def HasPrefix_def)

lemma learn_first_Inr: "learn_first vs = Inr u \<longleftrightarrow> (\<exists>v ws. vs = v # ws \<and> u = TrimSpace v \<and> u \<noteq> [])"
  by (auto simp: learn_first_def split: list.splits)

lemma issued_scan_found:
  "issued_scan ct name acc hs = (v, True) \<Longrightarrow> acc = (v, True) \<or> v \<noteq> []"
  by (induction ct name acc hs rule: issued_scan.induct) (auto split: if_splits option.splits)

lemma issued_scan_append:
  "issued_scan ct name acc (hs @ hs') = issued_scan ct name (issued_scan ct name acc hs) hs'"
  by (induction ct name acc hs rule: issued_scan.induct) (auto split: option.splits)

lemma header_field_Inr:
  "header_field ct hs name = Inr u \<Longrightarrow> \<exists>n v. (n, v) \<in> set hs \<and> EqualFold ct n name \<and> u = TrimSpace v"
  by (induction ct hs name rule: header_field.induct) (auto split: if_splits)

end
