(* ===== verification/Siphash.thy ===== *)
theory Siphash
  imports Encoding
begin

unbundle bit_operations_syntax

text \<open>
  SipHash-2-4 (\<open>internal/livelist/siphash.go\<close>) on \<open>64 word\<close>, and the first step towards the
  algorithm's paper: the loop and its packed last block are the same as to pad the message to
  whole 8-byte blocks, with the length in the last byte, and to absorb every block. The algorithm
  itself is defined in \<open>Siphash_Spec\<close>.
\<close>

type_synonym sip_state = "64 word \<times> 64 word \<times> 64 word \<times> 64 word"

text \<open>\<open>binary.LittleEndian\<close> on the bytes of a slice.\<close>

fun le_nat :: "bytes \<Rightarrow> nat" where
  "le_nat [] = 0"
| "le_nat (c # s) = byte_val c + 256 * le_nat s"

definition le64 :: "bytes \<Rightarrow> 64 word" where
  "le64 b = of_nat (le_nat (take 8 b))"

definition rotl :: "64 word \<Rightarrow> nat \<Rightarrow> 64 word" where
  "rotl x b = push_bit b x OR drop_bit (64 - b) x"

fun sipRound :: "sip_state \<Rightarrow> sip_state" where
  "sipRound (v0, v1, v2, v3) =
     (let v0 = v0 + v1;
          v1 = rotl v1 13;
          v1 = v1 XOR v0;
          v0 = rotl v0 32;
          v2 = v2 + v3;
          v3 = rotl v3 16;
          v3 = v3 XOR v2;
          v0 = v0 + v3;
          v3 = rotl v3 21;
          v3 = v3 XOR v0;
          v2 = v2 + v1;
          v1 = rotl v1 17;
          v1 = v1 XOR v2;
          v2 = rotl v2 32
      in (v0, v1, v2, v3))"

text \<open>One block: the body of the loop, and the same steps for the last block.\<close>

fun sip_block :: "64 word \<Rightarrow> sip_state \<Rightarrow> sip_state" where
  "sip_block m (v0, v1, v2, v3) =
     (case sipRound (sipRound (v0, v1, v2, v3 XOR m)) of
        (w0, w1, w2, w3) \<Rightarrow> (w0 XOR m, w1, w2, w3))"

text \<open>The loop over whole blocks, with what is left of the message.\<close>

function sip_blocks :: "sip_state \<Rightarrow> bytes \<Rightarrow> sip_state \<times> bytes" where
  "sip_blocks v b = (if length b < 8 then (v, b) else sip_blocks (sip_block (le64 b) v) (drop 8 b))"
  by pat_completeness auto
termination
  by (relation "measure (\<lambda>(v, b). length b)") auto

declare sip_blocks.simps [simp del]

fun sip_tail :: "64 word \<Rightarrow> nat \<Rightarrow> bytes \<Rightarrow> 64 word" where
  "sip_tail acc i [] = acc"
| "sip_tail acc i (c # s) = sip_tail (acc OR push_bit (8 * i) (of_nat (byte_val c))) (Suc i) s"

fun sip_finish :: "sip_state \<Rightarrow> 64 word" where
  "sip_finish (v0, v1, v2, v3) =
     (case sipRound (sipRound (sipRound (sipRound (v0, v1, v2 XOR 0xff, v3)))) of
        (w0, w1, w2, w3) \<Rightarrow> w0 XOR w1 XOR w2 XOR w3)"

definition sip_init :: "bytes \<Rightarrow> sip_state" where
  "sip_init k =
     (let k0 = le64 (take 8 k); k1 = le64 (drop 8 k)
      in (k0 XOR 0x736f6d6570736575, k1 XOR 0x646f72616e646f6d,
          k0 XOR 0x6c7967656e657261, k1 XOR 0x7465646279746573))"

definition SipHashBytes :: "bytes \<Rightarrow> bytes \<Rightarrow> 64 word" where
  "SipHashBytes k b =
     (case sip_blocks (sip_init k) b of
        (v, rest) \<Rightarrow>
          (let m = sip_tail (push_bit 56 (of_nat (length b))) 0 rest
           in sip_finish (sip_block m v)))"

definition SipHash :: "bytes \<Rightarrow> string \<Rightarrow> 64 word" where
  "SipHash k s = SipHashBytes k s"


section \<open>The padded message\<close>

definition sip_pad :: "bytes \<Rightarrow> bytes" where
  "sip_pad b = b @ replicate (7 - length b mod 8) (char_of (0 :: nat)) @ [char_of (length b mod 256)]"

function sip_words :: "bytes \<Rightarrow> 64 word list" where
  "sip_words b = (if length b < 8 then [] else le64 b # sip_words (drop 8 b))"
  by pat_completeness auto
termination
  by (relation "measure length") auto

declare sip_words.simps [simp del]


section \<open>Facts\<close>

lemma sip_blocks_short: "length b < 8 \<Longrightarrow> sip_blocks v b = (v, b)"
  by (simp add: sip_blocks.simps)

lemma sip_blocks_step: "\<not> length b < 8 \<Longrightarrow> sip_blocks v b = sip_blocks (sip_block (le64 b) v) (drop 8 b)"
  by (simp add: sip_blocks.simps)

lemma sip_blocks_spec:
  "sip_blocks v b =
     (foldl (\<lambda>v m. sip_block m v) v (sip_words (take (length b - length b mod 8) b)),
      drop (length b - length b mod 8) b)"
proof (induction v b rule: sip_blocks.induct)
  case (1 v b)
  show ?case
  proof (cases "length b < 8")
    case True
    then show ?thesis by (simp add: sip_blocks_short sip_words.simps)
  next
    case False
    let ?n = "length b - length b mod 8"
    have m: "(length b - 8) mod 8 = length b mod 8"
      using False le_mod_geq [of 8 "length b"] by simp
    have "length b mod 8 \<le> length b - 8" using m [symmetric] by simp
    then have n: "8 \<le> ?n" using False by linarith
    have n': "length (drop 8 b) - length (drop 8 b) mod 8 = ?n - 8"
      by (simp add: m)
    have words: "sip_words (take ?n b) = le64 b # sip_words (take (?n - 8) (drop 8 b))"
      using n False by (subst sip_words.simps) (simp add: le64_def drop_take min_absorb1)
    have "drop (?n - 8) (drop 8 b) = drop ?n b"
      using n by simp
    then show ?thesis
      using 1 [OF False] by (simp add: sip_blocks_step [OF False] m words add.commute)
  qed
qed

lemma le_nat_append: "le_nat (a @ b) = le_nat a + 256 ^ length a * le_nat b"
  by (induction a) (auto simp: algebra_simps)

lemma le_nat_zeros: "le_nat (replicate n (char_of (0 :: nat))) = 0"
  by (induction n) auto

lemma le_nat_less: "le_nat s < 256 ^ length s"
proof (induction s)
  case Nil
  then show ?case by simp
next
  case (Cons c s)
  have "byte_val c + 256 * le_nat s < 256 + 256 * le_nat s" by simp
  also have "\<dots> = 256 * (1 + le_nat s)" by simp
  also have "\<dots> \<le> 256 * 256 ^ length s" using Cons by (intro mult_le_mono2) simp
  finally show ?case by simp
qed

lemma add_shifted_nat: "(a :: nat) < 2 ^ k \<Longrightarrow> a + push_bit k m = a OR push_bit k m"
proof (rule disjunctive_add_eq_or, rule bit_eqI)
  fix i assume a: "a < 2 ^ k"
  have "bit a i \<Longrightarrow> i < k"
  proof (rule ccontr)
    assume "bit a i" "\<not> i < k"
    then have "2 ^ i \<le> a" by (metis bit_nat_iff bit_iff_odd div_less even_zero leI)
    moreover have "(2 :: nat) ^ k \<le> 2 ^ i" using \<open>\<not> i < k\<close> by simp
    ultimately show False using a by simp
  qed
  then show "bit (a AND push_bit k m) i = bit (0 :: nat) i"
    by (auto simp: bit_and_iff bit_push_bit_iff)
qed

lemma add_shifted: "a < 2 ^ k \<Longrightarrow> (of_nat (a + 2 ^ k * m) :: 64 word) = of_nat a OR push_bit k (of_nat m)"
proof -
  assume "a < 2 ^ k"
  then have "a + 2 ^ k * m = a OR push_bit k m"
    using add_shifted_nat by (simp add: push_bit_eq_mult mult.commute)
  then have "(of_nat (a + 2 ^ k * m) :: 64 word) = of_nat (a OR push_bit k m)"
    by (rule arg_cong)
  then show ?thesis
    by (simp only: of_nat_or_eq push_bit_of_nat)
qed

lemma sip_tail_value: "sip_tail acc i s = acc OR push_bit (8 * i) (of_nat (le_nat s))"
proof (induction acc i s rule: sip_tail.induct)
  case (1 acc i)
  then show ?case by simp
next
  case (2 acc i c s)
  have "(of_nat (le_nat (c # s)) :: 64 word) = of_nat (byte_val c) OR push_bit 8 (of_nat (le_nat s))"
    using add_shifted [of "byte_val c" 8 "le_nat s"] by simp
  with 2 show ?case
    by (simp add: push_bit_or or.assoc add.commute del: le_nat.simps of_nat_add)
qed

lemma push_bit_byte: "push_bit 56 (of_nat (n mod 256)) = (push_bit 56 (of_nat n) :: 64 word)"
proof (rule bit_word_eqI)
  fix i assume i: "i < LENGTH(64)"
  have "n mod 256 = take_bit 8 n" by (simp add: take_bit_eq_mod)
  moreover have "bit (of_nat m :: 64 word) j \<longleftrightarrow> j < 64 \<and> bit m j" for m :: nat and j
    by (simp add: bit_word_iff_drop_bit_and [symmetric] bit_of_nat_iff)
  ultimately show "bit (push_bit 56 (of_nat (n mod 256)) :: 64 word) i = bit (push_bit 56 (of_nat n) :: 64 word) i"
    using i by (auto simp: bit_push_bit_iff bit_take_bit_iff)
qed

lemma sip_words_append: "length a mod 8 = 0 \<Longrightarrow> sip_words (a @ b) = sip_words a @ sip_words b"
proof (induction a rule: sip_words.induct)
  case (1 a)
  show ?case
  proof (cases "length a < 8")
    case True
    with 1(2) have "a = []" by simp
    then show ?thesis by (simp add: sip_words.simps [of "[]"])
  next
    case False
    have "sip_words (drop 8 a @ b) = sip_words (drop 8 a) @ sip_words b"
      using 1 False le_mod_geq [of 8 "length a"] by simp
    then show ?thesis
      using False by (subst (1 2) sip_words.simps) (simp add: le64_def)
  qed
qed

lemma sip_words_block: "length b = 8 \<Longrightarrow> sip_words b = [le64 b]"
  by (subst sip_words.simps) (simp add: sip_words.simps [of "[]"])

lemma le64_tail:
  assumes "length rest + length z = 7" "z = replicate k (char_of (0 :: nat))"
  shows "le64 (rest @ z @ [char_of (n mod 256)]) = push_bit 56 (of_nat n) OR of_nat (le_nat rest)"
proof -
  have zeros: "le_nat (z @ [c]) = 256 ^ length z * byte_val c" for c
    by (simp add: le_nat_append assms(2) le_nat_zeros)
  have pow: "(256 :: nat) ^ length rest * (256 ^ length z * m) = 2 ^ 56 * m" for m
  proof -
    have "(256 :: nat) ^ length rest * 256 ^ length z = 256 ^ 7"
      by (simp add: assms(1) flip: power_add)
    then show ?thesis by (simp add: mult.assoc [symmetric])
  qed
  have byte_of: "byte_val (char_of (n mod 256)) = n mod 256" by simp
  have "le_nat rest < 256 ^ length rest" by (rule le_nat_less)
  also have "\<dots> \<le> (256 :: nat) ^ 7" using assms(1) by (intro power_increasing) auto
  finally have small: "le_nat rest < 2 ^ 56" by simp
  have "le_nat (rest @ z @ [char_of (n mod 256)]) = le_nat rest + 2 ^ 56 * (n mod 256)"
    by (simp only: le_nat_append [of rest] zeros pow byte_of)
  moreover have "take 8 (rest @ z @ [char_of (n mod 256)]) = rest @ z @ [char_of (n mod 256)]"
    using assms(1) by simp
  ultimately have "le64 (rest @ z @ [char_of (n mod 256)]) = of_nat (le_nat rest + 2 ^ 56 * (n mod 256))"
    by (simp only: le64_def)
  also have "\<dots> = of_nat (le_nat rest) OR push_bit 56 (of_nat n)"
    by (simp only: add_shifted [OF small] push_bit_byte)
  finally show ?thesis by (simp add: or.commute)
qed

lemma SipHashBytes_padded:
  "SipHashBytes k b = sip_finish (foldl (\<lambda>v m. sip_block m v) (sip_init k) (sip_words (sip_pad b)))"
proof -
  let ?n = "length b - length b mod 8"
  let ?z = "replicate (7 - length b mod 8) (char_of (0 :: nat)) :: bytes"
  let ?tail = "drop ?n b @ ?z @ [char_of (length b mod 256)]"
  have rest: "length (drop ?n b) = length b mod 8" by simp
  moreover have "length b mod 8 < 8" by simp
  ultimately have seven: "length (drop ?n b) + length ?z = 7" by (simp del: length_drop)
  have "sip_pad b = take ?n b @ ?tail"
    by (simp only: sip_pad_def append_assoc [symmetric] append_take_drop_id)
  moreover have "length (take ?n b) mod 8 = 0"
    by (simp add: min_absorb2 minus_mod_eq_mult_div)
  moreover have "sip_words ?tail = [le64 ?tail]"
    using seven by (intro sip_words_block) simp
  moreover have "le64 ?tail = push_bit 56 (of_nat (length b)) OR of_nat (le_nat (drop ?n b))"
    by (rule le64_tail [OF seven refl])
  ultimately show ?thesis
    by (simp add: SipHashBytes_def sip_blocks_spec sip_tail_value sip_words_append)
qed

text \<open>The first vectors of the algorithm's reference implementation (key \<open>00 .. 0f\<close>).\<close>

definition vector_key :: bytes where
  "vector_key = map char_of [0 :: nat ..< 16]"

lemma vector_key_words:
  "le64 (take 8 vector_key) = 0x0706050403020100" "le64 (drop 8 vector_key) = 0x0f0e0d0c0b0a0908"
  by (simp_all add: vector_key_def le64_def upt_rec)

lemma sip_init_vector: "sip_init vector_key =
    (0x7469686173716475, 0x6b617f6d656e6665, 0x6b7f62616d677361, 0x7b6b696e727e6c7b)"
  by (simp add: sip_init_def vector_key_words)

lemma SipHash_vectors:
  "SipHashBytes vector_key [] = 0x726fdb47dd0e0e31"
  "SipHashBytes vector_key (map char_of [0 :: nat ..< 15]) = 0xa129ca6149be45e5"
  by (simp_all add: SipHashBytes_def sip_init_vector sip_blocks.simps le64_def upt_rec rotl_def)

end
