(* ===== verification/Wafs.thy ===== *)
theory Wafs
  imports Siphash Netip
begin

text \<open>
  The packed form of a dataset (\<open>internal/livelist/wafs.go\<close>): a snapshot or a package of
  records, read by a position in a byte slice. Go panics on an index out of range; the model
  has that as the error \<open>PackPanic\<close>, and the reader is shown never to reach it. \<open>pack\<close>
  writes the format, for the round trip. The storage \<open>unpack\<close> reserves for the announced
  count is not modelled.
\<close>

datatype pack_error =
  errPackShort | errPackMagic | errPackVersion | PackFamily nat | PackType nat | PackPanic

record pack_head =
  ph_kind :: "8 word"
  ph_typ :: "8 word"
  ph_flags :: "8 word"
  ph_epoch :: "64 word"
  ph_seq :: "64 word"
  ph_hash :: "64 word"
  ph_key :: bytes
  ph_count :: "32 word"

text \<open>The zero prefix of a string record is \<open>None\<close>.\<close>

record pack_record =
  pk_op :: "8 word"
  pk_prefix :: "prefix option"
  pk_value :: string
  pk_exp :: int
  pk_reason :: string

definition packVersion :: "8 word" where "packVersion = 1"
definition kindSnapshot :: "8 word" where "kindSnapshot = 1"
definition kindPackage :: "8 word" where "kindPackage = 2"
definition typeCIDR :: "8 word" where "typeCIDR = 1"
definition typeString :: "8 word" where "typeString = 2"
definition flagReasons :: "8 word" where "flagReasons = 1"
definition recAdd :: "8 word" where "recAdd = 1"
definition recRemove :: "8 word" where "recRemove = 2"
definition packHeader :: nat where "packHeader = 52"

definition byte_of :: "char \<Rightarrow> 8 word" where
  "byte_of c = of_nat (byte_val c)"


section \<open>Slices\<close>

definition index_at :: "bytes \<Rightarrow> nat \<Rightarrow> pack_error + 8 word" where
  "index_at data i = (if i < length data then Inr (byte_of (data ! i)) else Inl PackPanic)"

definition slice :: "bytes \<Rightarrow> nat \<Rightarrow> nat \<Rightarrow> pack_error + bytes" where
  "slice data i n = (if i + n \<le> length data then Inr (take n (drop i data)) else Inl PackPanic)"

text \<open>\<open>binary.LittleEndian.Uint16/32/64(data[i:])\<close>.\<close>

definition uint16_at :: "bytes \<Rightarrow> nat \<Rightarrow> pack_error + nat" where
  "uint16_at data i = map_sum id le_nat (slice data i 2)"

definition uint32_at :: "bytes \<Rightarrow> nat \<Rightarrow> pack_error + 32 word" where
  "uint32_at data i = map_sum id (\<lambda>s. of_nat (le_nat s)) (slice data i 4)"

definition uint64_at :: "bytes \<Rightarrow> nat \<Rightarrow> pack_error + 64 word" where
  "uint64_at data i = map_sum id (\<lambda>s. of_nat (le_nat s)) (slice data i 8)"

definition bindE :: "'e + 'a \<Rightarrow> ('a \<Rightarrow> 'e + 'b) \<Rightarrow> 'e + 'b" where
  "bindE r f = (case r of Inl e \<Rightarrow> Inl e | Inr x \<Rightarrow> f x)"

lemma bindE_simps [simp]: "bindE (Inl e) f = Inl e" "bindE (Inr x) f = f x"
  by (simp_all add: bindE_def)

text \<open>The bytes of an address, most significant first, as \<open>AddrFrom4\<close> and \<open>As4\<close> order them.\<close>

definition be_word :: "bytes \<Rightarrow> 'a::len word" where
  "be_word s = of_nat (le_nat (rev s))"

fun le_bytes :: "nat \<Rightarrow> nat \<Rightarrow> bytes" where
  "le_bytes 0 n = []"
| "le_bytes (Suc k) n = char_of (n mod 256) # le_bytes k (n div 256)"

definition be_bytes :: "nat \<Rightarrow> 'a::len word \<Rightarrow> bytes" where
  "be_bytes k w = rev (le_bytes k (unat w))"

text \<open>What a prefix contributes to the hash; \<open>byte(-1)\<close> is 255.\<close>

fun prefixMaterial :: "prefix \<Rightarrow> bytes" where
  "prefixMaterial (Prefix (IPv4 a) bits) = [char_of (4 :: nat), char_of (nat (bits mod 256))] @ be_bytes 4 a"
| "prefixMaterial (Prefix (IPv6 a z) bits) = [char_of (6 :: nat), char_of (nat (bits mod 256))] @ be_bytes 16 a"


section \<open>Reading\<close>

definition unpack_prefix :: "bytes \<Rightarrow> nat \<Rightarrow> pack_error + (prefix \<times> nat)" where
  "unpack_prefix data pos =
     (if pos + 2 > length data then Inl errPackShort
      else bindE (index_at data pos) (\<lambda>fam.
           bindE (index_at data (pos + 1)) (\<lambda>bits.
           (let pos = pos + 2
            in if fam = 4 then
                 (if pos + 4 + 8 > length data then Inl errPackShort
                  else bindE (slice data pos 4) (\<lambda>b.
                       Inr (PrefixFrom (IPv4 (be_word b)) (uint bits), pos + 4)))
               else if fam = 6 then
                 (if pos + 16 + 8 > length data then Inl errPackShort
                  else bindE (slice data pos 16) (\<lambda>b.
                       Inr (PrefixFrom (IPv6 (be_word b) []) (uint bits), pos + 16)))
               else Inl (PackFamily (unat fam))))))"

definition unpack_value :: "bytes \<Rightarrow> nat \<Rightarrow> pack_error + (string \<times> nat)" where
  "unpack_value data pos =
     (if pos + 2 > length data then Inl errPackShort
      else bindE (uint16_at data pos) (\<lambda>n.
           (let pos = pos + 2
            in if pos + n + 8 > length data then Inl errPackShort
               else bindE (slice data pos n) (\<lambda>s. Inr (s, pos + n)))))"

definition unpack_reason :: "bytes \<Rightarrow> nat \<Rightarrow> pack_error + (string \<times> nat)" where
  "unpack_reason data pos =
     (if pos + 2 > length data then Inl errPackShort
      else bindE (uint16_at data pos) (\<lambda>n.
           (let pos = pos + 2
            in if pos + n > length data then Inl errPackShort
               else bindE (slice data pos n) (\<lambda>s. Inr (s, pos + n)))))"

text \<open>The switch over the set's type: what the record is about, up to its expiry.\<close>

definition unpack_subject :: "8 word \<Rightarrow> 8 word \<Rightarrow> bytes \<Rightarrow> nat \<Rightarrow> pack_error + (pack_record \<times> nat)" where
  "unpack_subject typ op data pos =
     (if typ = typeCIDR then
        bindE (unpack_prefix data pos) (\<lambda>(p, pos).
        Inr (\<lparr>pk_op = op, pk_prefix = Some p, pk_value = [], pk_exp = 0, pk_reason = []\<rparr>, pos))
      else if typ = typeString then
        bindE (unpack_value data pos) (\<lambda>(v, pos).
        Inr (\<lparr>pk_op = op, pk_prefix = None, pk_value = v, pk_exp = 0, pk_reason = []\<rparr>, pos))
      else Inl (PackType (unat typ)))"

definition unpack_record :: "8 word \<Rightarrow> 8 word \<Rightarrow> bytes \<Rightarrow> nat \<Rightarrow> pack_error + (pack_record \<times> nat)" where
  "unpack_record typ flags data pos =
     (if pos + 1 > length data then Inl errPackShort
      else bindE (index_at data pos) (\<lambda>op.
           bindE (unpack_subject typ op data (pos + 1)) (\<lambda>(r, pos).
           bindE (uint64_at data pos) (\<lambda>e.
           (let r = r\<lparr>pk_exp := sint e\<rparr>; pos = pos + 8
            in if typ = typeString \<and> flags AND flagReasons \<noteq> 0
               then bindE (unpack_reason data pos) (\<lambda>(reason, pos). Inr (r\<lparr>pk_reason := reason\<rparr>, pos))
               else Inr (r, pos))))))"

fun unpack_records :: "8 word \<Rightarrow> 8 word \<Rightarrow> bytes \<Rightarrow> nat \<Rightarrow> nat \<Rightarrow> pack_error + pack_record list" where
  "unpack_records typ flags data pos 0 = Inr []"
| "unpack_records typ flags data pos (Suc n) =
     bindE (unpack_record typ flags data pos) (\<lambda>(r, pos).
     map_sum id (Cons r) (unpack_records typ flags data pos n))"

definition unpack_head :: "bytes \<Rightarrow> pack_error + pack_head" where
  "unpack_head data =
     bindE (index_at data 5) (\<lambda>kind.
     bindE (index_at data 6) (\<lambda>typ.
     bindE (index_at data 7) (\<lambda>flags.
     bindE (uint64_at data 8) (\<lambda>epoch.
     bindE (uint64_at data 16) (\<lambda>seq.
     bindE (uint64_at data 24) (\<lambda>hash.
     bindE (slice data 32 16) (\<lambda>key.
     bindE (uint32_at data 48) (\<lambda>count.
     Inr \<lparr>ph_kind = kind, ph_typ = typ, ph_flags = flags, ph_epoch = epoch, ph_seq = seq,
       ph_hash = hash, ph_key = key, ph_count = count\<rparr>))))))))"

definition unpack :: "bytes \<Rightarrow> pack_error + (pack_head \<times> pack_record list)" where
  "unpack data =
     (if length data < packHeader then Inl errPackShort
      else if take 4 data \<noteq> ''WAFS'' then Inl errPackMagic
      else bindE (index_at data 4) (\<lambda>version.
           if version \<noteq> packVersion then Inl errPackVersion
           else bindE (unpack_head data) (\<lambda>head.
                map_sum id (Pair head)
                  (unpack_records (ph_typ head) (ph_flags head) data packHeader (unat (ph_count head))))))"


section \<open>Writing\<close>

definition byte_char :: "8 word \<Rightarrow> char" where
  "byte_char b = char_of (unat b)"

definition pack_prefix :: "prefix \<Rightarrow> bytes" where
  "pack_prefix p = prefixMaterial p"

definition pack_text :: "string \<Rightarrow> bytes" where
  "pack_text s = le_bytes 2 (length s) @ s"

definition pack_exp :: "int \<Rightarrow> bytes" where
  "pack_exp e = le_bytes 8 (unat (word_of_int e :: 64 word))"

definition pack_record :: "8 word \<Rightarrow> 8 word \<Rightarrow> pack_record \<Rightarrow> bytes" where
  "pack_record typ flags r =
     byte_char (pk_op r) #
     (case pk_prefix r of Some p \<Rightarrow> pack_prefix p | None \<Rightarrow> pack_text (pk_value r)) @
     pack_exp (pk_exp r) @
     (if typ = typeString \<and> flags AND flagReasons \<noteq> 0 then pack_text (pk_reason r) else [])"

definition pack_header :: "pack_head \<Rightarrow> bytes" where
  "pack_header h =
     ''WAFS'' @ map byte_char [packVersion, ph_kind h, ph_typ h, ph_flags h] @
     le_bytes 8 (unat (ph_epoch h)) @ le_bytes 8 (unat (ph_seq h)) @ le_bytes 8 (unat (ph_hash h)) @
     ph_key h @ le_bytes 4 (unat (ph_count h))"

definition pack :: "pack_head \<Rightarrow> pack_record list \<Rightarrow> bytes" where
  "pack h rs = pack_header h @ concat (map (pack_record (ph_typ h) (ph_flags h)) rs)"

text \<open>The records that the format can carry for a head.\<close>

definition int64_range :: "int \<Rightarrow> bool" where
  "int64_range e \<longleftrightarrow> - (2 ^ 63) \<le> e \<and> e < 2 ^ 63"

fun prefix_ok :: "prefix \<Rightarrow> bool" where
  "prefix_ok (Prefix (IPv4 a) bits) \<longleftrightarrow> 0 \<le> bits \<and> bits \<le> 32"
| "prefix_ok (Prefix (IPv6 a z) bits) \<longleftrightarrow> 0 \<le> bits \<and> bits \<le> 128 \<and> z = []"

definition record_ok :: "8 word \<Rightarrow> 8 word \<Rightarrow> pack_record \<Rightarrow> bool" where
  "record_ok typ flags r \<longleftrightarrow>
     int64_range (pk_exp r) \<and>
     (if typ = typeCIDR then pk_value r = [] \<and> (\<exists>p. pk_prefix r = Some p \<and> prefix_ok p)
      else typ = typeString \<and> pk_prefix r = None \<and> length (pk_value r) < 2 ^ 16) \<and>
     (if typ = typeString \<and> flags AND flagReasons \<noteq> 0 then length (pk_reason r) < 2 ^ 16
      else pk_reason r = [])"

definition packable :: "pack_head \<Rightarrow> pack_record list \<Rightarrow> bool" where
  "packable h rs \<longleftrightarrow> length (ph_key h) = 16 \<and> unat (ph_count h) = length rs \<and>
     list_all (record_ok (ph_typ h) (ph_flags h)) rs"


section \<open>No panic\<close>

lemma index_at_ok: "i < length data \<Longrightarrow> index_at data i = Inr (byte_of (data ! i))"
  by (simp add: index_at_def)

lemma slice_ok: "i + n \<le> length data \<Longrightarrow> slice data i n = Inr (take n (drop i data))"
  by (simp add: slice_def)

lemma uint_at_ok:
  "i + 2 \<le> length data \<Longrightarrow> uint16_at data i = Inr (le_nat (take 2 (drop i data)))"
  "i + 4 \<le> length data \<Longrightarrow> uint32_at data i = Inr (of_nat (le_nat (take 4 (drop i data))))"
  "i + 8 \<le> length data \<Longrightarrow> uint64_at data i = Inr (of_nat (le_nat (take 8 (drop i data))))"
  by (simp_all add: uint16_at_def uint32_at_def uint64_at_def slice_ok)

lemma unpack_prefix_safe:
  "unpack_prefix data pos \<noteq> Inl PackPanic"
  "unpack_prefix data pos = Inr (p, pos') \<Longrightarrow> pos' + 8 \<le> length data"
  by (auto simp: unpack_prefix_def index_at_ok slice_ok Let_def split: if_splits)

lemma unpack_value_safe:
  "unpack_value data pos \<noteq> Inl PackPanic"
  "unpack_value data pos = Inr (v, pos') \<Longrightarrow> pos' + 8 \<le> length data"
  by (auto simp: unpack_value_def uint_at_ok slice_ok Let_def split: if_splits)

lemma unpack_reason_safe: "unpack_reason data pos \<noteq> Inl PackPanic"
  by (auto simp: unpack_reason_def uint_at_ok slice_ok Let_def split: if_splits)

lemma bindE_safe:
  "r \<noteq> Inl e \<Longrightarrow> (\<And>x. r = Inr x \<Longrightarrow> f x \<noteq> Inl e) \<Longrightarrow> bindE r f \<noteq> Inl e"
  by (cases r) auto

lemma unpack_subject_safe:
  "unpack_subject typ op data pos \<noteq> Inl PackPanic"
  "unpack_subject typ op data pos = Inr (r, pos') \<Longrightarrow> pos' + 8 \<le> length data"
  using unpack_prefix_safe [of data pos] unpack_value_safe [of data pos]
  by (auto simp: unpack_subject_def bindE_def split: sum.splits if_splits)

lemma unpack_record_safe: "unpack_record typ flags data pos \<noteq> Inl PackPanic"
proof (cases "pos + 1 > length data \<or> (\<exists>e. unpack_subject typ (byte_of (data ! pos)) data (pos + 1) = Inl e)")
  case True
  then show ?thesis
    using unpack_subject_safe(1) [of "typ" "byte_of (data ! pos)" data "pos + 1"]
    by (auto simp: unpack_record_def index_at_ok)
next
  case False
  then obtain r pos' where s: "unpack_subject typ (byte_of (data ! pos)) data (pos + 1) = Inr (r, pos')"
    by (cases "unpack_subject typ (byte_of (data ! pos)) data (pos + 1)") auto
  from unpack_subject_safe(2) [OF this] False s show ?thesis
    using unpack_reason_safe [of data "pos' + 8"]
    by (auto simp: unpack_record_def index_at_ok uint_at_ok Let_def bindE_def split: sum.splits if_splits)
qed

lemma unpack_records_safe: "unpack_records typ flags data pos n \<noteq> Inl PackPanic"
proof (induction n arbitrary: pos)
  case (Suc n)
  show ?case
  proof (cases "unpack_record typ flags data pos")
    case (Inl e)
    then show ?thesis
      using unpack_record_safe [of "typ" flags data pos] by simp
  next
    case (Inr rq)
    obtain r q where rq: "rq = (r, q)" by force
    then show ?thesis
      using Suc [of q] Inr by (cases "unpack_records typ flags data q n") auto
  qed
qed simp

lemma unpack_head_ok:
  assumes "packHeader \<le> length data"
  shows "\<exists>h. unpack_head data = Inr h"
  using assms by (simp add: unpack_head_def packHeader_def index_at_ok uint_at_ok slice_ok)

lemma unpack_total: "unpack data \<noteq> Inl PackPanic"
proof (cases "length data < packHeader")
  case False
  then obtain h where h: "unpack_head data = Inr h"
    using unpack_head_ok [of data] by auto
  have "4 < length data" using False by (simp add: packHeader_def)
  moreover have "map_sum id (Pair h) (unpack_records (ph_typ h) (ph_flags h) data packHeader n) \<noteq> Inl PackPanic" for n
    using unpack_records_safe [of "ph_typ h" "ph_flags h" data packHeader n]
    by (cases "unpack_records (ph_typ h) (ph_flags h) data packHeader n") auto
  ultimately show ?thesis
    by (simp add: unpack_def h index_at_ok)
qed (simp add: unpack_def)



section \<open>Reading what was written\<close>

definition holds_at :: "bytes \<Rightarrow> nat \<Rightarrow> bytes \<Rightarrow> bool" where
  "holds_at data pos s \<longleftrightarrow> pos + length s \<le> length data \<and> take (length s) (drop pos data) = s"

lemma holds_at_append:
  "holds_at data pos (a @ b) \<longleftrightarrow> holds_at data pos a \<and> holds_at data (pos + length a) b"
  by (auto simp: holds_at_def take_add add.commute [of _ pos] min_absorb2)

lemma holds_at_Cons: "holds_at data pos (c # s) \<longleftrightarrow> holds_at data pos [c] \<and> holds_at data (Suc pos) s"
  using holds_at_append [of data pos "[c]" s] by simp

lemma index_at_holds: "holds_at data pos [c] \<Longrightarrow> index_at data pos = Inr (byte_of c)"
  by (auto simp: holds_at_def index_at_def take_Suc_conv_app_nth)

lemma slice_holds: "holds_at data pos s \<Longrightarrow> n = length s \<Longrightarrow> slice data pos n = Inr s"
  by (auto simp: holds_at_def slice_def)

lemma holds_at_length: "holds_at data pos s \<Longrightarrow> pos + length s \<le> length data"
  by (simp add: holds_at_def)

lemma length_le_bytes [simp]: "length (le_bytes k n) = k"
  by (induction k arbitrary: n) auto

lemma le_nat_le_bytes [simp]: "le_nat (le_bytes k n) = n mod 256 ^ k"
proof (induction k arbitrary: n)
  case 0
  then show ?case by simp
next
  case (Suc k)
  have "n mod (256 * 256 ^ k) = 256 * (n div 256 mod 256 ^ k) + n mod 256"
    by (rule mod_mult2_eq)
  then show ?case by (simp add: Suc)
qed

lemma length_be_bytes [simp]: "length (be_bytes k w) = k"
  by (simp add: be_bytes_def)

lemma be_word_be_bytes [simp]: "LENGTH('a) = 8 * k \<Longrightarrow> be_word (be_bytes k w) = (w :: 'a::len word)"
proof -
  assume k: "LENGTH('a) = 8 * k"
  have "unat w < 2 ^ LENGTH('a)" by simp
  then have "unat w < 256 ^ k" by (simp add: k power_mult)
  then show ?thesis by (simp add: be_word_def be_bytes_def)
qed

lemma unat_bound: "unat (w :: 'a::len word) < 2 ^ LENGTH('a)"
  by (rule unsigned_less)

lemma le_word_bytes:
  "of_nat (le_nat (le_bytes 8 (unat w))) = (w :: 64 word)"
  "of_nat (le_nat (le_bytes 4 (unat v))) = (v :: 32 word)"
  using unat_bound [of w] unat_bound [of v] by simp_all

lemma byte_of_byte_char [simp]: "byte_of (byte_char b) = b"
  using unat_bound [of b] by (simp add: byte_of_def byte_char_def)

lemma uint_at_holds:
  "holds_at data pos (le_bytes 2 n) \<Longrightarrow> n < 65536 \<Longrightarrow> uint16_at data pos = Inr n"
  "holds_at data pos (le_bytes 4 (unat v)) \<Longrightarrow> uint32_at data pos = Inr v"
  "holds_at data pos (le_bytes 8 (unat w)) \<Longrightarrow> uint64_at data pos = Inr w"
  by (simp_all add: uint16_at_def uint32_at_def uint64_at_def slice_holds le_word_bytes
      del: of_nat_unat le_nat_le_bytes) simp

lemma byte_of_bits:
  assumes "0 \<le> bits" "bits < 256"
  shows "byte_of (char_of (nat (bits mod 256))) = word_of_int bits"
    and "uint (word_of_int bits :: 8 word) = bits"
  using assms by (simp_all add: byte_of_def uint_word_of_int)

lemma byte_of_family: "byte_of (char_of (4 :: nat)) = 4" "byte_of (char_of (6 :: nat)) = 6"
  by (simp_all add: byte_of_def)

lemma unpack_prefix_pack:
  assumes at: "holds_at data pos (pack_prefix p @ tail)" and tail: "length tail = 8" and ok: "prefix_ok p"
  shows "unpack_prefix data pos = Inr (p, pos + length (pack_prefix p))"
proof -
  obtain a bits where p: "p = Prefix a bits" by (cases p)
  have room: "pos + length (pack_prefix p) + 8 \<le> length data"
    using holds_at_length [OF at] tail by simp
  have bits: "0 \<le> bits" "bits < 256"
    using ok by (cases a; simp add: p)+
  show ?thesis
  proof (cases a)
    case (IPv4 w)
    from at have at': "holds_at data pos [char_of (4 :: nat)]"
      "holds_at data (pos + 1) [char_of (nat (bits mod 256))]" "holds_at data (pos + 2) (be_bytes 4 w)"
      by (simp_all add: p IPv4 pack_prefix_def holds_at_Cons [of _ _ _ "_ # _"]
          holds_at_Cons [of _ _ _ "_ @ _"] holds_at_append)
    note read = index_at_holds [OF at'(1)] index_at_holds [OF at'(2)] slice_holds [OF at'(3)]
    have "PrefixFrom (IPv4 w) bits = p"
      using ok by (simp add: PrefixFrom_def p IPv4)
    with room show ?thesis
      by (simp add: unpack_prefix_def read [simplified] byte_of_family byte_of_bits [OF bits] p IPv4
          pack_prefix_def)
  next
    case (IPv6 w z)
    from at have at': "holds_at data pos [char_of (6 :: nat)]"
      "holds_at data (pos + 1) [char_of (nat (bits mod 256))]" "holds_at data (pos + 2) (be_bytes 16 w)"
      by (simp_all add: p IPv6 pack_prefix_def holds_at_Cons [of _ _ _ "_ # _"]
          holds_at_Cons [of _ _ _ "_ @ _"] holds_at_append)
    note read = index_at_holds [OF at'(1)] index_at_holds [OF at'(2)] slice_holds [OF at'(3)]
    have "PrefixFrom (IPv6 w []) bits = p"
      using ok by (simp add: PrefixFrom_def p IPv6)
    with room show ?thesis
      by (simp add: unpack_prefix_def read [simplified] byte_of_family byte_of_bits [OF bits] p IPv6
          pack_prefix_def)
  qed
qed

lemma unpack_value_pack:
  assumes "holds_at data pos (pack_text v @ tail)" "length tail = 8" "length v < 65536"
  shows "unpack_value data pos = Inr (v, pos + length (pack_text v))"
proof -
  from assms(1) have at: "holds_at data pos (le_bytes 2 (length v))" "holds_at data (pos + 2) v"
    by (simp_all add: pack_text_def holds_at_append)
  note read = uint_at_holds(1) [OF at(1) assms(3)] slice_holds [OF at(2) refl]
  show ?thesis
    using holds_at_length [OF assms(1)] assms(2)
    by (simp add: unpack_value_def pack_text_def read [simplified])
qed

lemma unpack_reason_pack:
  assumes "holds_at data pos (pack_text v)" "length v < 65536"
  shows "unpack_reason data pos = Inr (v, pos + length (pack_text v))"
proof -
  from assms(1) have at: "holds_at data pos (le_bytes 2 (length v))" "holds_at data (pos + 2) v"
    by (simp_all add: pack_text_def holds_at_append)
  note read = uint_at_holds(1) [OF at(1) assms(2)] slice_holds [OF at(2) refl]
  show ?thesis
    using holds_at_length [OF assms(1)]
    by (simp add: unpack_reason_def pack_text_def read [simplified])
qed

lemma sint_exp: "int64_range e \<Longrightarrow> sint (word_of_int e :: 64 word) = e"
  by (simp add: int64_range_def int_word_sint)

definition pack_subject :: "pack_record \<Rightarrow> bytes" where
  "pack_subject r = (case pk_prefix r of Some p \<Rightarrow> pack_prefix p | None \<Rightarrow> pack_text (pk_value r))"

lemma length_pack_exp [simp]: "length (pack_exp e) = 8"
  by (simp add: pack_exp_def)

lemma unpack_subject_pack:
  assumes "holds_at data pos (pack_subject r @ tail)" "length tail = 8" "record_ok typ flags r"
  shows "unpack_subject typ (pk_op r) data pos =
    Inr (r\<lparr>pk_exp := 0, pk_reason := []\<rparr>, pos + length (pack_subject r))"
proof (cases "typ = typeCIDR")
  case True
  with assms(3) obtain p where p: "pk_prefix r = Some p" "prefix_ok p" "pk_value r = []"
    by (auto simp: record_ok_def)
  with assms(1) have "holds_at data pos (pack_prefix p @ tail)" by (simp add: pack_subject_def)
  from unpack_prefix_pack [OF this assms(2) p(2)] True p show ?thesis
    by (cases r) (simp add: unpack_subject_def pack_subject_def)
next
  case False
  with assms(3) have v: "typ = typeString" "pk_prefix r = None" "length (pk_value r) < 65536"
    by (auto simp: record_ok_def)
  with assms(1) have "holds_at data pos (pack_text (pk_value r) @ tail)" by (simp add: pack_subject_def)
  from unpack_value_pack [OF this assms(2) v(3)] False v show ?thesis
    by (cases r) (simp add: unpack_subject_def pack_subject_def)
qed

lemma unpack_record_pack:
  assumes at: "holds_at data pos (pack_record typ flags r)" and ok: "record_ok typ flags r"
  shows "unpack_record typ flags data pos = Inr (r, pos + length (pack_record typ flags r))"
proof -
  let ?q = "pos + 1 + length (pack_subject r)"
  let ?why = "if typ = typeString \<and> flags AND flagReasons \<noteq> 0 then pack_text (pk_reason r) else []"
  have eq: "pack_record typ flags r = byte_char (pk_op r) # pack_subject r @ pack_exp (pk_exp r) @ ?why"
    by (simp add: pack_record_def pack_subject_def)
  from at have at': "holds_at data pos [byte_char (pk_op r)]"
    "holds_at data (pos + 1) (pack_subject r @ pack_exp (pk_exp r))"
    "holds_at data ?q (le_bytes 8 (unat (word_of_int (pk_exp r) :: 64 word)))"
    "holds_at data (?q + 8) ?why"
    unfolding eq by (subst (asm) holds_at_Cons, simp add: holds_at_append pack_exp_def add.assoc)+
  have room: "pos + 1 \<le> length data"
    using holds_at_length [OF at'(1)] by simp
  have e: "sint (word_of_int (pk_exp r) :: 64 word) = pk_exp r"
    using ok by (intro sint_exp) (simp add: record_ok_def)
  note read = index_at_holds [OF at'(1), unfolded byte_of_byte_char]
    unpack_subject_pack [OF at'(2) length_pack_exp ok] uint_at_holds(3) [OF at'(3)]
  have step: "unpack_record typ flags data pos =
      (if typ = typeString \<and> flags AND flagReasons \<noteq> 0
       then bindE (unpack_reason data (?q + 8)) (\<lambda>(reason, pos). Inr (r\<lparr>pk_reason := reason\<rparr>, pos))
       else Inr (r\<lparr>pk_reason := []\<rparr>, ?q + 8))"
    using room by (auto simp: unpack_record_def Let_def read [simplified] read e)
  show ?thesis
  proof (cases "typ = typeString \<and> flags AND flagReasons \<noteq> 0")
    case True
    have "holds_at data (?q + 8) (pack_text (pk_reason r))"
      using at'(4) by (simp only: True if_True simp_thms)
    moreover have "length (pk_reason r) < 65536"
      using ok True by (simp add: record_ok_def)
    ultimately have why: "unpack_reason data (?q + 8) =
        Inr (pk_reason r, ?q + 8 + length (pack_text (pk_reason r)))"
      by (rule unpack_reason_pack)
    show ?thesis
      unfolding step why eq using True by simp
  next
    case False
    then have "pk_reason r = []" using ok by (auto simp: record_ok_def)
    with False show ?thesis
      unfolding step eq by (cases r) auto
  qed
qed

lemma unpack_records_pack:
  assumes "holds_at data pos (concat (map (pack_record typ flags) rs))" "list_all (record_ok typ flags) rs"
  shows "unpack_records typ flags data pos (length rs) = Inr rs"
  using assms
proof (induction rs arbitrary: pos)
  case Nil
  then show ?case by simp
next
  case (Cons r rs)
  then have "holds_at data pos (pack_record typ flags r)"
    and "holds_at data (pos + length (pack_record typ flags r)) (concat (map (pack_record typ flags) rs))"
    by (simp_all add: holds_at_append)
  with Cons unpack_record_pack [of data pos "typ" flags r] show ?case by simp
qed

lemma unpack_pack:
  assumes "packable h rs"
  shows "unpack (pack h rs) = Inr (h, rs)"
proof -
  let ?d = "pack h rs"
  have key: "length (ph_key h) = 16" and count: "unat (ph_count h) = length rs"
    and ok: "list_all (record_ok (ph_typ h) (ph_flags h)) rs"
    using assms by (simp_all add: packable_def)
  have "holds_at ?d 0 ?d" by (simp add: holds_at_def)
  moreover have "length (pack_header h) = packHeader"
    by (simp add: pack_header_def packHeader_def key)
  ultimately have at: "holds_at ?d 0 (pack_header h)"
    and recs: "holds_at ?d packHeader (concat (map (pack_record (ph_typ h) (ph_flags h)) rs))"
    unfolding pack_def by (simp_all add: holds_at_append)
  have long: "packHeader \<le> length ?d"
    using holds_at_length [OF recs] by simp
  have eq: "pack_header h = ''WAFS'' @ [byte_char packVersion] @ [byte_char (ph_kind h)] @
      [byte_char (ph_typ h)] @ [byte_char (ph_flags h)] @ le_bytes 8 (unat (ph_epoch h)) @
      le_bytes 8 (unat (ph_seq h)) @ le_bytes 8 (unat (ph_hash h)) @ ph_key h @
      le_bytes 4 (unat (ph_count h))"
    by (simp add: pack_header_def)
  have four: "length ''WAFS'' = 4" and one: "length [c] = 1" for c :: char
    by simp_all
  from at have h: "holds_at ?d 4 [byte_char packVersion]" "holds_at ?d 5 [byte_char (ph_kind h)]"
    "holds_at ?d 6 [byte_char (ph_typ h)]" "holds_at ?d 7 [byte_char (ph_flags h)]"
    "holds_at ?d 8 (le_bytes 8 (unat (ph_epoch h)))" "holds_at ?d 16 (le_bytes 8 (unat (ph_seq h)))"
    "holds_at ?d 24 (le_bytes 8 (unat (ph_hash h)))" "holds_at ?d 32 (ph_key h)"
    "holds_at ?d 48 (le_bytes 4 (unat (ph_count h)))"
    unfolding eq holds_at_append four one length_le_bytes key by simp_all
  note read = index_at_holds [OF h(1)] index_at_holds [OF h(2)] index_at_holds [OF h(3)]
    index_at_holds [OF h(4)] uint_at_holds(3) [OF h(5)] uint_at_holds(3) [OF h(6)]
    uint_at_holds(3) [OF h(7)] slice_holds [OF h(8) key [symmetric]] uint_at_holds(2) [OF h(9)]
  have "unpack_head ?d = Inr h"
    by (simp add: unpack_head_def read)
  moreover have "take 4 ?d = ''WAFS''"
    by (simp add: pack_def pack_header_def)
  ultimately show ?thesis
    using long unpack_records_pack [OF recs ok] by (simp add: unpack_def read count)
qed

end
