(* ===== verification/Composition.thy ===== *)
theory Composition
  imports Wafs
begin

text \<open>
  The contents of a mirrored dataset (\<open>composition\<close> in \<open>internal/livelist/livelist.go\<close>):
  the values or networks with their expiry, a count of networks per prefix length, and a hash
  kept up to date record by record. What the counters and the hash must be is \<open>comp_ok\<close>; what
  a record does to the contents alone is \<open>content_apply\<close>, the specification that
  \<open>comp_apply\<close> refines.
\<close>

record list_record =
  lr_exp :: int
  lr_reason :: string

record entry =
  en_Reason :: string
  en_Expires :: int

record composition =
  cm_entries :: "string \<rightharpoonup> list_record"
  cm_nets :: "prefix \<rightharpoonup> int"
  cm_lens :: "nat \<Rightarrow> nat \<Rightarrow> int"
  cm_hash :: "64 word"

definition newComposition :: composition where
  "newComposition = \<lparr>cm_entries = Map.empty, cm_nets = Map.empty, cm_lens = (\<lambda>_ _. 0), cm_hash = 0\<rparr>"

definition list_alive :: "int \<Rightarrow> int \<Rightarrow> bool" where
  "list_alive exp now \<longleftrightarrow> exp = 0 \<or> exp > now"

definition family :: "prefix \<Rightarrow> nat" where
  "family p = (if Is4 (pfx_addr p) then 0 else 1)"

definition bump :: "nat \<Rightarrow> nat \<Rightarrow> int \<Rightarrow> (nat \<Rightarrow> nat \<Rightarrow> int) \<Rightarrow> nat \<Rightarrow> nat \<Rightarrow> int" where
  "bump f b d lens = lens(f := (lens f)(b := lens f b + d))"

text \<open>
  \<open>apply\<close>: \<open>None\<close> is the panic of indexing \<open>lens\<close> with the bit count \<open>-1\<close> of an
  invalid prefix.
\<close>

definition apply_net :: "bytes \<Rightarrow> 8 word \<Rightarrow> prefix \<Rightarrow> int \<Rightarrow> composition \<Rightarrow> composition option" where
  "apply_net key op p e c =
     (let had = (cm_nets c p \<noteq> None); mac = SipHashBytes key (prefixMaterial p)
      in if op = recAdd then
           (if \<not> had then
              (if pfx_bits p < 0 then None
               else Some (c\<lparr>cm_hash := cm_hash c XOR mac,
                      cm_lens := bump (family p) (nat (pfx_bits p)) 1 (cm_lens c),
                      cm_nets := (cm_nets c)(p \<mapsto> e)\<rparr>))
            else Some (c\<lparr>cm_nets := (cm_nets c)(p \<mapsto> e)\<rparr>))
         else if had then
           (if pfx_bits p < 0 then None
            else Some (c\<lparr>cm_hash := cm_hash c XOR mac,
                   cm_lens := bump (family p) (nat (pfx_bits p)) (-1) (cm_lens c),
                   cm_nets := (cm_nets c)(p := None)\<rparr>))
         else Some c)"

definition apply_entry :: "bytes \<Rightarrow> 8 word \<Rightarrow> string \<Rightarrow> list_record \<Rightarrow> composition \<Rightarrow> composition" where
  "apply_entry key op v r c =
     (let had = (cm_entries c v \<noteq> None)
      in if op = recAdd then
           (let c = (if \<not> had then c\<lparr>cm_hash := cm_hash c XOR SipHash key v\<rparr> else c)
            in c\<lparr>cm_entries := (cm_entries c)(v \<mapsto> r)\<rparr>)
         else if had then
           c\<lparr>cm_hash := cm_hash c XOR SipHash key v, cm_entries := (cm_entries c)(v := None)\<rparr>
         else c)"

definition comp_apply :: "bytes \<Rightarrow> 8 word \<Rightarrow> pack_record \<Rightarrow> composition \<Rightarrow> composition option" where
  "comp_apply key typ r c =
     (if typ = typeCIDR then
        (case pk_prefix r of
           None \<Rightarrow> (if pk_op r = recAdd then None else Some c)
         | Some p \<Rightarrow> apply_net key (pk_op r) p (pk_exp r) c)
      else Some (apply_entry key (pk_op r) (pk_value r)
                   \<lparr>lr_exp = pk_exp r, lr_reason = pk_reason r\<rparr> c))"

fun apply_all :: "bytes \<Rightarrow> 8 word \<Rightarrow> pack_record list \<Rightarrow> composition \<Rightarrow> composition option" where
  "apply_all key typ [] c = Some c"
| "apply_all key typ (r # rs) c =
     (case comp_apply key typ r c of None \<Rightarrow> None | Some c \<Rightarrow> apply_all key typ rs c)"

text \<open>The loop over bit counts, from the address's length down to zero.\<close>

fun contains_bits :: "composition \<Rightarrow> addr \<Rightarrow> nat \<Rightarrow> int \<Rightarrow> bool" where
  "contains_bits c ip bits now =
     (if cm_lens c (if Is4 ip then 0 else 1) bits \<noteq> 0 \<and>
         (case Masked (PrefixFrom ip (int bits)) of
            None \<Rightarrow> False
          | Some p \<Rightarrow> (case cm_nets c p of None \<Rightarrow> False | Some e \<Rightarrow> list_alive e now))
      then True
      else (case bits of 0 \<Rightarrow> False | Suc b \<Rightarrow> contains_bits c ip b now))"

declare contains_bits.simps [simp del]

definition containsAddr :: "composition \<Rightarrow> addr \<Rightarrow> int \<Rightarrow> bool" where
  "containsAddr c ip now = contains_bits c (Unmap ip) (nat (BitLen (Unmap ip))) now"

definition comp_size :: "composition \<Rightarrow> nat" where
  "comp_size c = card (dom (cm_entries c)) + card (dom (cm_nets c))"


section \<open>The contents alone\<close>

type_synonym content = "(string \<rightharpoonup> list_record) \<times> (prefix \<rightharpoonup> int)"

definition content_of :: "composition \<Rightarrow> content" where
  "content_of c = (cm_entries c, cm_nets c)"

definition content_apply :: "8 word \<Rightarrow> pack_record \<Rightarrow> content \<Rightarrow> content" where
  "content_apply typ r x =
     (if typ = typeCIDR then
        (case pk_prefix r of
           None \<Rightarrow> x
         | Some p \<Rightarrow> (fst x, (snd x)(p := if pk_op r = recAdd then Some (pk_exp r) else None)))
      else ((fst x)(pk_value r :=
              if pk_op r = recAdd then Some \<lparr>lr_exp = pk_exp r, lr_reason = pk_reason r\<rparr> else None),
            snd x))"

definition content_all :: "8 word \<Rightarrow> pack_record list \<Rightarrow> content \<Rightarrow> content" where
  "content_all typ rs x = foldl (\<lambda>x r. content_apply typ r x) x rs"

lemma comp_apply_content: "comp_apply key typ r c = Some c' \<Longrightarrow> content_of c' = content_apply typ r (content_of c)"
  by (auto simp: comp_apply_def apply_net_def apply_entry_def content_of_def content_apply_def Let_def
      fun_upd_idem split: if_splits option.splits)

lemma apply_all_content: "apply_all key typ rs c = Some c' \<Longrightarrow> content_of c' = content_all typ rs (content_of c)"
  by (induction rs arbitrary: c)
    (auto simp: content_all_def comp_apply_content split: option.splits)


section \<open>The hash and the counters\<close>

interpretation xors: comm_monoid_set "(XOR) :: 64 word \<Rightarrow> 64 word \<Rightarrow> 64 word" 0
  by unfold_locales (simp_all add: ac_simps)

definition comp_hash :: "bytes \<Rightarrow> content \<Rightarrow> 64 word" where
  "comp_hash key x =
     xors.F (SipHash key) (dom (fst x)) XOR
     xors.F (\<lambda>p. SipHashBytes key (prefixMaterial p)) (dom (snd x))"

definition nets_of_length :: "composition \<Rightarrow> nat \<Rightarrow> nat \<Rightarrow> prefix set" where
  "nets_of_length c f b = {p \<in> dom (cm_nets c). family p = f \<and> pfx_bits p = int b}"

definition comp_ok :: "bytes \<Rightarrow> composition \<Rightarrow> bool" where
  "comp_ok key c \<longleftrightarrow>
     finite (dom (cm_entries c)) \<and> finite (dom (cm_nets c)) \<and>
     cm_hash c = comp_hash key (content_of c) \<and>
     (\<forall>p \<in> dom (cm_nets c). 0 \<le> pfx_bits p) \<and>
     (\<forall>f b. cm_lens c f b = int (card (nets_of_length c f b)))"

lemma newComposition_ok: "comp_ok key newComposition"
  by (simp add: comp_ok_def newComposition_def content_of_def comp_hash_def nets_of_length_def)

lemma xor_cancel [simp]: "a XOR (a XOR b) = (b :: 64 word)"
  by (simp add: xor.assoc [symmetric])

lemma xors_insert: "finite A \<Longrightarrow> a \<notin> A \<Longrightarrow> xors.F g (insert a A) = g a XOR xors.F g A"
  by (rule xors.insert)

lemma xors_remove: "finite A \<Longrightarrow> a \<in> A \<Longrightarrow> xors.F g (A - {a}) = g a XOR xors.F g A"
  using xors.remove [of A a g] by simp

lemma apply_entry_ok:
  assumes "comp_ok key c"
  shows "comp_ok key (apply_entry key op v r c)"
proof -
  have same: "cm_entries c v \<noteq> None \<Longrightarrow> insert v (dom (cm_entries c)) = dom (cm_entries c)" by auto
  have dom: "cm_entries c v = None \<Longrightarrow> v \<notin> dom (cm_entries c)"
    "cm_entries c v = Some y \<Longrightarrow> v \<in> dom (cm_entries c)" for y by auto
  from assms show ?thesis
    by (auto simp: comp_ok_def apply_entry_def Let_def content_of_def comp_hash_def nets_of_length_def
        xors_insert xors_remove same dom insert_absorb ac_simps)
qed

lemma nets_add:
  assumes "cm_nets c p = None" "0 \<le> pfx_bits p"
  shows "nets_of_length (c\<lparr>cm_hash := h, cm_lens := l, cm_nets := (cm_nets c)(p \<mapsto> e)\<rparr>) f b =
    (if f = family p \<and> b = nat (pfx_bits p) then insert p (nets_of_length c f b) else nets_of_length c f b)"
  using assms by (auto simp: nets_of_length_def)

lemma nets_fresh: "cm_nets c p = None \<Longrightarrow> p \<notin> nets_of_length c f b"
  by (auto simp: nets_of_length_def)

lemma nets_remove:
  assumes "0 \<le> pfx_bits p"
  shows "nets_of_length (c\<lparr>cm_hash := h, cm_lens := l, cm_nets := (cm_nets c)(p := None)\<rparr>) f b =
    (if f = family p \<and> b = nat (pfx_bits p) then nets_of_length c f b - {p} else nets_of_length c f b)"
  using assms by (auto simp: nets_of_length_def)

lemma finite_nets: "finite (dom (cm_nets c)) \<Longrightarrow> finite (nets_of_length c f b)"
  by (simp add: nets_of_length_def)

lemma apply_net_ok:
  assumes ok: "comp_ok key c" and r: "apply_net key op p e c = Some c'"
  shows "comp_ok key c'"
proof -
  have fin: "finite (dom (cm_entries c))" "finite (dom (cm_nets c))"
    and hash: "cm_hash c = comp_hash key (content_of c)"
    and bits: "\<And>q. q \<in> dom (cm_nets c) \<Longrightarrow> 0 \<le> pfx_bits q"
    and lens: "\<And>f b. cm_lens c f b = int (card (nets_of_length c f b))"
    using ok by (auto simp: comp_ok_def)
  consider (new) "op = recAdd" "cm_nets c p = None" "0 \<le> pfx_bits p"
      "c' = c\<lparr>cm_hash := cm_hash c XOR SipHashBytes key (prefixMaterial p),
         cm_lens := bump (family p) (nat (pfx_bits p)) 1 (cm_lens c), cm_nets := (cm_nets c)(p \<mapsto> e)\<rparr>"
    | (again) "cm_nets c p \<noteq> None" "c' = c\<lparr>cm_nets := (cm_nets c)(p \<mapsto> e)\<rparr>"
    | (gone) "cm_nets c p \<noteq> None" "0 \<le> pfx_bits p"
      "c' = c\<lparr>cm_hash := cm_hash c XOR SipHashBytes key (prefixMaterial p),
         cm_lens := bump (family p) (nat (pfx_bits p)) (-1) (cm_lens c), cm_nets := (cm_nets c)(p := None)\<rparr>"
    | (none) "c' = c"
    using r by (auto simp: apply_net_def Let_def not_less split: if_splits)
  then show ?thesis
  proof cases
    case new
    have "p \<notin> dom (cm_nets c)" using new(2) by auto
    then have "comp_hash key (content_of c') = cm_hash c'"
      by (simp add: new(4) comp_hash_def content_of_def xors_insert fin hash ac_simps)
    moreover have "cm_lens c' f b = int (card (nets_of_length c' f b))" for f b
      using nets_add [OF new(2,3), where e = e and f = f and b = b] nets_fresh [OF new(2)] finite_nets [OF fin(2), of f b]
      by (auto simp: new(4) bump_def lens)
    ultimately show ?thesis
      using fin bits new by (auto simp: comp_ok_def)
  next
    case again
    then have dom: "dom (cm_nets c') = dom (cm_nets c)" "cm_entries c' = cm_entries c"
      "cm_hash c' = cm_hash c" "cm_lens c' = cm_lens c" by auto
    then show ?thesis
      using ok by (simp add: comp_ok_def comp_hash_def content_of_def nets_of_length_def)
  next
    case gone
    have "p \<in> dom (cm_nets c)" using gone(1) by auto
    then have "comp_hash key (content_of c') = cm_hash c'"
      by (simp add: gone(3) comp_hash_def content_of_def xors_remove fin hash ac_simps)
    moreover have "p \<in> nets_of_length c (family p) (nat (pfx_bits p))"
      using gone(1,2) by (auto simp: nets_of_length_def)
    then have "0 < card (nets_of_length c (family p) (nat (pfx_bits p)))"
      using finite_nets [OF fin(2)] by (auto simp: card_gt_0_iff)
    then have "cm_lens c' f b = int (card (nets_of_length c' f b))" for f b
      using \<open>p \<in> nets_of_length c (family p) (nat (pfx_bits p))\<close> nets_remove [OF gone(2), where c = c and f = f and b = b] finite_nets [OF fin(2), of f b]
      by (auto simp: gone(3) bump_def lens card_Diff_singleton of_nat_diff)
    ultimately show ?thesis
      using fin bits gone(3) by (auto simp: comp_ok_def)
  next
    case none
    then show ?thesis using ok by simp
  qed
qed

lemma comp_apply_ok [inv_intros]: "comp_ok key c \<Longrightarrow> comp_apply key typ r c = Some c' \<Longrightarrow> comp_ok key c'"
  by (auto simp: comp_apply_def apply_entry_ok apply_net_ok split: if_splits option.splits)

lemma apply_all_ok [inv_intros]: "comp_ok key c \<Longrightarrow> apply_all key typ rs c = Some c' \<Longrightarrow> comp_ok key c'"
  by (induction rs arbitrary: c) (auto intro: comp_apply_ok split: option.splits)


text \<open>A record is applied without a panic when its prefix is valid.\<close>

definition record_safe :: "8 word \<Rightarrow> pack_record \<Rightarrow> bool" where
  "record_safe typ r \<longleftrightarrow> (typ = typeCIDR \<and> pk_op r = recAdd \<longrightarrow>
     (\<exists>p. pk_prefix r = Some p \<and> 0 \<le> pfx_bits p))"

lemma comp_apply_returns:
  assumes "comp_ok key c" "record_safe typ r"
  shows "\<exists>c'. comp_apply key typ r c = Some c'"
proof -
  have "cm_nets c p \<noteq> None \<Longrightarrow> \<not> pfx_bits p < 0" for p
    using assms(1) by (force simp: comp_ok_def)
  with assms(2) show ?thesis
    by (auto simp: comp_apply_def apply_net_def record_safe_def Let_def split: option.splits)
qed

lemma apply_all_returns:
  assumes "comp_ok key c" "list_all (record_safe typ) rs"
  shows "\<exists>c'. apply_all key typ rs c = Some c'"
  using assms
proof (induction rs arbitrary: c)
  case Nil
  then show ?case by simp
next
  case (Cons r rs)
  then obtain c1 where c1: "comp_apply key typ r c = Some c1"
    using comp_apply_returns [of key c "typ" r] by auto
  with Cons.prems have "comp_ok key c1" by (auto intro: comp_apply_ok)
  with Cons c1 show ?case by simp
qed


section \<open>Membership of an address\<close>

lemma contains_bits_iff:
  "contains_bits c ip bits now \<longleftrightarrow>
     (\<exists>b \<le> bits. cm_lens c (if Is4 ip then 0 else 1) b \<noteq> 0 \<and>
        (\<exists>p e. Masked (PrefixFrom ip (int b)) = Some p \<and> cm_nets c p = Some e \<and> list_alive e now))"
proof (induction bits)
  case 0
  show ?case
    by (subst contains_bits.simps) (auto split: option.splits)
next
  case (Suc bits)
  show ?case
    by (subst contains_bits.simps) (auto simp: Suc le_Suc_eq split: option.splits)
qed

text \<open>
  An address is found in a network when the network is what its own mask makes of it. That is the
  usual sense for networks without host bits, as the keeper writes them; one with host bits is
  never found, here as in the program's lookup.
\<close>

definition addr_in :: "addr \<Rightarrow> prefix \<Rightarrow> bool" where
  "addr_in ip p \<longleftrightarrow> 0 \<le> pfx_bits p \<and> pfx_bits p \<le> BitLen ip \<and> pfx_addr p = addr_mask ip (pfx_bits p)"

lemma containsAddr_iff:
  assumes ok: "comp_ok key c"
  shows "containsAddr c ip now \<longleftrightarrow>
    (\<exists>p e. cm_nets c p = Some e \<and> list_alive e now \<and> addr_in (Unmap ip) p)"
proof
  assume "containsAddr c ip now"
  then obtain b p e where b: "int b \<le> BitLen (Unmap ip)"
    and p: "Masked (PrefixFrom (Unmap ip) (int b)) = Some p" "cm_nets c p = Some e" "list_alive e now"
    using BitLen_pos(2) [of "Unmap ip"] by (auto simp: containsAddr_def contains_bits_iff le_nat_iff)
  then have "addr_in (Unmap ip) p"
    by (auto simp: Masked_PrefixFrom addr_in_def)
  with p show "\<exists>p e. cm_nets c p = Some e \<and> list_alive e now \<and> addr_in (Unmap ip) p" by blast
next
  assume "\<exists>p e. cm_nets c p = Some e \<and> list_alive e now \<and> addr_in (Unmap ip) p"
  then obtain p e where p: "cm_nets c p = Some e" "list_alive e now" "addr_in (Unmap ip) p" by blast
  let ?b = "nat (pfx_bits p)"
  have b: "0 \<le> pfx_bits p" "pfx_bits p \<le> BitLen (Unmap ip)" and a: "pfx_addr p = addr_mask (Unmap ip) (pfx_bits p)"
    using p(3) by (auto simp: addr_in_def)
  have "Masked (PrefixFrom (Unmap ip) (int ?b)) = Some (Prefix (addr_mask (Unmap ip) (pfx_bits p)) (pfx_bits p))"
    using Masked_PrefixFrom [OF b] b by simp
  then have m: "Masked (PrefixFrom (Unmap ip) (int ?b)) = Some p"
    by (cases p) (use a in simp)
  have fam: "family p = (if Is4 (Unmap ip) then 0 else 1)"
    by (simp add: family_def a)
  have "p \<in> nets_of_length c (family p) ?b"
    using p(1) b by (auto simp: nets_of_length_def)
  moreover have "finite (nets_of_length c (family p) ?b)"
    using ok by (simp add: comp_ok_def finite_nets)
  ultimately have "cm_lens c (family p) ?b \<noteq> 0"
    using ok by (auto simp: comp_ok_def)
  with m p fam b show "containsAddr c ip now"
    unfolding containsAddr_def contains_bits_iff by (intro exI [of _ ?b]) auto
qed

end
