(* ===== verification/Livelist.thy ===== *)
theory Livelist
  imports Composition
begin

text \<open>
  The mirror of the datasets (\<open>internal/livelist/livelist.go\<close>). One goroutine per set takes
  frames from a bounded queue; what it does for a frame is \<open>onFrame\<close>. The bus and Redis as
  they answer while one frame is handled are the record \<open>world\<close>. \<open>None\<close> as the result of
  an operation is that it does not return: the panic of an invalid prefix, or a \<open>catchUp\<close>
  that never ends because Redis answers \<open>MGET\<close> with no values at all. Logging and the
  subscription are not modelled.
\<close>

record frame =
  fr_V :: int
  fr_Set :: string
  fr_Epoch :: string
  fr_Seq :: "64 word"
  fr_Op :: string
  fr_Hash :: string
  fr_Key :: string
  fr_Package :: string
  fr_Inline :: string
  fr_Object :: string
  fr_Count :: int

text \<open>The set a goroutine owns (\<open>type set\<close>).\<close>

record mset =
  st_name :: string
  st_ready :: bool
  st_epoch :: "64 word"
  st_seq :: "64 word"
  st_key :: bytes
  st_typ :: "8 word"
  st_comp :: composition
  st_lastSeen :: time
  st_silent :: bool
  st_in :: "frame list"
  st_syncing :: bool
  st_refused :: string
  st_snapBad :: bool

text \<open>
  \<open>Object\<close>: an error is \<open>None\<close>, a missing key \<open>Some None\<close>. \<open>Objects\<close>: an error is
  \<open>None\<close>, a missing key an element \<open>None\<close>. \<open>wd_Request\<close> gives the reply frame of a
  snapshot request with whether it decoded without an error.
\<close>

record blobs =
  bl_Object :: "string \<Rightarrow> bytes option option"
  bl_Objects :: "string list \<Rightarrow> bytes option list option"

record world =
  wd_now :: time
  wd_Request :: "string \<Rightarrow> (frame \<times> bool) option"
  wd_blobs :: "blobs option"

definition frameVersion :: int where "frameVersion = 3"
definition queueDepth :: nat where "queueDepth = 1024"
definition packagesPerRead :: "64 word" where "packagesPerRead = 256"
definition silenceAfter :: duration where "silenceAfter = 6 * second"

abbreviation "opResync \<equiv> ''resync''"
abbreviation "opDiff \<equiv> ''diff''"
abbreviation "opTick \<equiv> ''tick''"
abbreviation "opSnapshot \<equiv> ''snapshot''"

definition diffKey :: "string \<Rightarrow> 64 word \<Rightarrow> string" where
  "diffKey name seq = ''waf:diff:'' @ name @ '':'' @ FormatUint (unat seq)"

text \<open>
  \<open>base64.StdEncoding.DecodeString\<close>: the other alphabet, and padding to whole groups of four.
\<close>

definition std_char :: "char \<Rightarrow> char" where
  "std_char c = (if c = CHR ''+'' then CHR ''-'' else if c = CHR ''/'' then CHR ''_'' else c)"

definition b64std_decode :: "string \<Rightarrow> bytes option" where
  "b64std_decode s =
     (let t = filter (\<lambda>c. byte_val c \<noteq> 10 \<and> byte_val c \<noteq> 13) s;
          body = TrimRightBytes ''='' t
      in if length t mod 4 \<noteq> 0 \<or> length t - length body > 2 \<or> CHR ''-'' \<in> set body \<or> CHR ''_'' \<in> set body
         then None else b64_decode (map std_char body))"


section \<open>Snapshots\<close>

definition newSet :: "string \<Rightarrow> time \<Rightarrow> mset" where
  "newSet name now =
     \<lparr>st_name = name, st_ready = False, st_epoch = 0, st_seq = 0, st_key = replicate 16 (CHR 0x00),
      st_typ = 0, st_comp = newComposition, st_lastSeen = now, st_silent = False, st_in = [],
      st_syncing = False, st_refused = [], st_snapBad = False\<rparr>"

text \<open>What a snapshot object makes of a set, once the reply named it.\<close>

definition install :: "bytes \<Rightarrow> mset \<Rightarrow> mset option" where
  "install data st =
     (case unpack data of
        Inl _ \<Rightarrow> Some st
      | Inr (head, recs) \<Rightarrow>
          (if ph_kind head \<noteq> kindSnapshot then Some st
           else (case apply_all (ph_key head) (ph_typ head) recs newComposition of
                   None \<Rightarrow> None
                 | Some c \<Rightarrow>
                     Some (st\<lparr>st_epoch := ph_epoch head, st_key := ph_key head, st_seq := ph_seq head,
                       st_typ := ph_typ head, st_comp := c, st_ready := True,
                       st_snapBad := (cm_hash c \<noteq> ph_hash head)\<rparr>))))"

definition snapshot_body :: "world \<Rightarrow> mset \<Rightarrow> mset option" where
  "snapshot_body w st =
     (if st_snapBad st then Some st
      else (case wd_Request w (''waf.sets.'' @ st_name st @ ''.snapshot'') of
              None \<Rightarrow> Some st
            | Some (ref, decoded) \<Rightarrow>
                (if \<not> decoded \<or> fr_Op ref \<noteq> opSnapshot \<or> fr_Object ref = [] then
                   (let op = (if fr_Op ref = [] then ''bad reply'' else fr_Op ref)
                    in if st_refused st = op then Some st else Some (st\<lparr>st_refused := op\<rparr>))
                 else
                   (let st = st\<lparr>st_refused := []\<rparr>
                    in case wd_blobs w of
                         None \<Rightarrow> Some st
                       | Some b \<Rightarrow>
                           (case bl_Object b (fr_Object ref) of
                              None \<Rightarrow> Some st
                            | Some None \<Rightarrow> Some st
                            | Some (Some data) \<Rightarrow> install data st)))))"

definition Mirror_snapshot :: "world \<Rightarrow> mset \<Rightarrow> mset option" where
  "Mirror_snapshot w st =
     (if st_syncing st then Some st
      else map_option (\<lambda>st. st\<lparr>st_syncing := False\<rparr>) (snapshot_body w (st\<lparr>st_syncing := True\<rparr>)))"


section \<open>Packages\<close>

definition verify :: "world \<Rightarrow> mset \<Rightarrow> string \<Rightarrow> (mset \<times> bool) option" where
  "verify w st want =
     (if want = [] \<or> hexOf (cm_hash (st_comp st)) = want then Some (st, True)
      else if st_snapBad st then Some (st, False)
      else map_option (\<lambda>st. (st, False)) (Mirror_snapshot w st))"

definition applyPackage :: "world \<Rightarrow> mset \<Rightarrow> bytes \<Rightarrow> 64 word \<Rightarrow> (mset \<times> bool) option" where
  "applyPackage w st data want =
     (case unpack data of
        Inl _ \<Rightarrow> map_option (\<lambda>st. (st, False)) (Mirror_snapshot w st)
      | Inr (head, recs) \<Rightarrow>
          (if ph_kind head \<noteq> kindPackage \<or> ph_epoch head \<noteq> st_epoch st \<or> ph_seq head \<noteq> want
              \<or> ph_typ head \<noteq> st_typ st
           then map_option (\<lambda>st. (st, False)) (Mirror_snapshot w st)
           else (case apply_all (st_key st) (ph_typ head) recs (st_comp st) of
                   None \<Rightarrow> None
                 | Some c \<Rightarrow>
                     verify w (st\<lparr>st_comp := c, st_seq := ph_seq head\<rparr>) (hexOf (ph_hash head)))))"

text \<open>The loop over the objects of one read; the flag tells whether \<open>catchUp\<close> goes on.\<close>

fun objects_loop :: "world \<Rightarrow> mset \<Rightarrow> 64 word \<Rightarrow> bytes option list \<Rightarrow> (mset \<times> bool) option" where
  "objects_loop w st seq [] = Some (st, True)"
| "objects_loop w st seq (None # objs) = map_option (\<lambda>st. (st, False)) (Mirror_snapshot w st)"
| "objects_loop w st seq (Some data # objs) =
     (case applyPackage w st data seq of
        None \<Rightarrow> None
      | Some (st, ok) \<Rightarrow> (if \<not> ok then Some (st, False) else objects_loop w st (seq + 1) objs))"

definition package_keys :: "mset \<Rightarrow> 64 word \<Rightarrow> string list" where
  "package_keys st target =
     (let n = target - st_seq st;
          n = (if n > packagesPerRead then packagesPerRead else n)
      in map (\<lambda>i. diffKey (st_name st) (st_seq st + 1 + of_nat i)) [0 ..< unat n])"

partial_function (option) catch_up_loop :: "world \<Rightarrow> blobs \<Rightarrow> mset \<Rightarrow> 64 word \<Rightarrow> string \<Rightarrow> mset option" where
  "catch_up_loop w b st target hash =
     (if target \<le> st_seq st then map_option fst (verify w st hash)
      else (case bl_Objects b (package_keys st target) of
              None \<Rightarrow> Some st
            | Some objs \<Rightarrow>
                (case objects_loop w st (st_seq st + 1) objs of
                   None \<Rightarrow> None
                 | Some (st', go) \<Rightarrow> (if go then catch_up_loop w b st' target hash else Some st'))))"

declare catch_up_loop.simps [code]

definition catchUp :: "world \<Rightarrow> mset \<Rightarrow> 64 word \<Rightarrow> string \<Rightarrow> mset option" where
  "catchUp w st target hash =
     (case wd_blobs w of None \<Rightarrow> Some st | Some b \<Rightarrow> catch_up_loop w b st target hash)"


section \<open>Frames\<close>

text \<open>Any frame but the ticker's own is a sign of life of the keeper.\<close>

definition frame_seen :: "world \<Rightarrow> frame \<Rightarrow> mset \<Rightarrow> mset" where
  "frame_seen w f st =
     (if fr_Op f \<noteq> opResync then st\<lparr>st_lastSeen := wd_now w, st_silent := False\<rparr> else st)"

definition onFrame :: "world \<Rightarrow> mset \<Rightarrow> frame \<Rightarrow> mset option" where
  "onFrame w st f =
     (if fr_V f \<noteq> frameVersion then Some st
      else
        (let ready = st_ready st; myEpoch = st_epoch st; mySeq = st_seq st;
             st = frame_seen w f st
         in if \<not> ready then Mirror_snapshot w st
            else if fr_Op f = opResync then Some st
            else (case ParseHex64 (fr_Epoch f) of
                    None \<Rightarrow> Some st
                  | Some epoch \<Rightarrow>
                      (if epoch \<noteq> myEpoch then Mirror_snapshot w (st\<lparr>st_snapBad := False\<rparr>)
                       else if fr_Seq f < mySeq then Some st
                       else if fr_Seq f = mySeq then
                         (if fr_Op f = opTick \<or> fr_Op f = opDiff
                          then map_option fst (verify w st (fr_Hash f)) else Some st)
                       else (case (if fr_Op f = opDiff \<and> fr_Inline f \<noteq> [] \<and> fr_Seq f = mySeq + 1
                                   then b64std_decode (fr_Inline f) else None) of
                               Some data \<Rightarrow> map_option fst (applyPackage w st data (fr_Seq f))
                             | None \<Rightarrow> catchUp w st (fr_Seq f) (fr_Hash f))))))"

text \<open>The queue drops what does not fit; the resync ticker asks for a snapshot of a set not ready.\<close>

definition enqueue :: "frame \<Rightarrow> mset \<Rightarrow> mset" where
  "enqueue f st = (if length (st_in st) < queueDepth then st\<lparr>st_in := st_in st @ [f]\<rparr> else st)"

definition resync_frame :: frame where
  "resync_frame = \<lparr>fr_V = frameVersion, fr_Set = [], fr_Epoch = [], fr_Seq = 0, fr_Op = opResync,
     fr_Hash = [], fr_Key = [], fr_Package = [], fr_Inline = [], fr_Object = [], fr_Count = 0\<rparr>"

definition resync :: "time \<Rightarrow> mset \<Rightarrow> mset" where
  "resync now st =
     (let quiet = (\<not> st_silent st \<and> now - st_lastSeen st > silenceAfter);
          st' = (if st_ready st \<and> quiet then st\<lparr>st_silent := True\<rparr> else st)
      in if \<not> st_ready st then enqueue resync_frame st' else st')"

text \<open>
  The life of one set: \<open>run\<close> first asks for a snapshot, then handles the queued frames in
  order; deliveries and ticks come in between. The world may answer every step differently;
  \<open>ok\<close> and \<open>okf\<close> say which worlds and which delivered frames are allowed.
\<close>

inductive set_steps :: "(world \<Rightarrow> bool) \<Rightarrow> (frame \<Rightarrow> bool) \<Rightarrow> string \<Rightarrow> mset \<Rightarrow> bool"
  for ok :: "world \<Rightarrow> bool" and okf :: "frame \<Rightarrow> bool" and name where
  start: "ok w \<Longrightarrow> Mirror_snapshot w (newSet name now) = Some st \<Longrightarrow> set_steps ok okf name st"
| deliver: "set_steps ok okf name st \<Longrightarrow> okf f \<Longrightarrow> set_steps ok okf name (enqueue f st)"
| tick: "set_steps ok okf name st \<Longrightarrow> set_steps ok okf name (resync now st)"
| handle: "set_steps ok okf name st \<Longrightarrow> ok w \<Longrightarrow> st_in st = f # fs \<Longrightarrow>
     onFrame w (st\<lparr>st_in := fs\<rparr>) f = Some st' \<Longrightarrow> set_steps ok okf name st'"


section \<open>Questions to the mirror\<close>

type_synonym mirror = "string \<rightharpoonup> mset"

definition Mirror_Ensure :: "string \<Rightarrow> time \<Rightarrow> mirror \<Rightarrow> mirror" where
  "Mirror_Ensure name now m =
     (if name = [] then m
      else (case m name of Some _ \<Rightarrow> m | None \<Rightarrow> m(name \<mapsto> newSet name now)))"

text \<open>\<open>now\<close> is \<open>time.Now().UnixMilli()\<close>. The result is \<open>(ok, ready)\<close>.\<close>

definition Mirror_Contains :: "ip_text \<Rightarrow> int \<Rightarrow> mirror \<Rightarrow> string \<Rightarrow> string \<Rightarrow> bool \<times> bool" where
  "Mirror_Contains nt now m name value =
     (case m name of
        None \<Rightarrow> (False, False)
      | Some st \<Rightarrow>
          (if value = [] \<or> \<not> st_ready st then (False, False)
           else if st_typ st = typeCIDR then
             (case it_ParseAddr nt value of
                Some a \<Rightarrow> (containsAddr (st_comp st) a now, True)
              | None \<Rightarrow>
                  (case it_ParsePrefix nt value of
                     Some p \<Rightarrow>
                       (case Masked (PrefixFrom (Unmap (pfx_addr p)) (pfx_bits p)) of
                          None \<Rightarrow> (False, True)
                        | Some q \<Rightarrow>
                            (case cm_nets (st_comp st) q of
                               None \<Rightarrow> (False, True)
                             | Some e \<Rightarrow> (list_alive e now, True)))
                   | None \<Rightarrow> (False, True)))
           else (case cm_entries (st_comp st) value of
                   None \<Rightarrow> (False, True)
                 | Some r \<Rightarrow> (list_alive (lr_exp r) now, True))))"

definition Mirror_Lookup :: "int \<Rightarrow> mirror \<Rightarrow> string \<Rightarrow> string \<Rightarrow> entry \<times> bool \<times> bool" where
  "Mirror_Lookup now m name value =
     (case m name of
        None \<Rightarrow> (\<lparr>en_Reason = [], en_Expires = 0\<rparr>, False, False)
      | Some st \<Rightarrow>
          (if value = [] \<or> \<not> st_ready st then (\<lparr>en_Reason = [], en_Expires = 0\<rparr>, False, False)
           else (case cm_entries (st_comp st) value of
                   None \<Rightarrow> (\<lparr>en_Reason = [], en_Expires = 0\<rparr>, False, True)
                 | Some r \<Rightarrow>
                     (if \<not> list_alive (lr_exp r) now
                      then (\<lparr>en_Reason = [], en_Expires = 0\<rparr>, False, True)
                      else (\<lparr>en_Reason = lr_reason r, en_Expires = lr_exp r\<rparr>, True, True)))))"

definition Mirror_ContainsAddr :: "int \<Rightarrow> mirror \<Rightarrow> string \<Rightarrow> addr option \<Rightarrow> bool \<times> bool" where
  "Mirror_ContainsAddr now m name ip =
     (case (m name, ip) of
        (Some st, Some a) \<Rightarrow> (if \<not> st_ready st then (False, False) else (containsAddr (st_comp st) a now, True))
      | _ \<Rightarrow> (False, False))"

record set_stats =
  sx_Name :: string
  sx_Ready :: bool
  sx_Epoch :: string
  sx_Seq :: "64 word"
  sx_Hash :: string
  sx_Entries :: nat

definition Mirror_Stats :: "mset \<Rightarrow> set_stats" where
  "Mirror_Stats st =
     \<lparr>sx_Name = st_name st, sx_Ready = st_ready st, sx_Epoch = hexOf (st_epoch st), sx_Seq = st_seq st,
      sx_Hash = hexOf (cm_hash (st_comp st)), sx_Entries = comp_size (st_comp st)\<rparr>"


section \<open>Invariants of a set\<close>

definition same_data :: "mset \<Rightarrow> mset \<Rightarrow> bool" where
  "same_data st st' \<longleftrightarrow>
     st_name st' = st_name st \<and> st_ready st' = st_ready st \<and> st_epoch st' = st_epoch st \<and>
     st_seq st' = st_seq st \<and> st_key st' = st_key st \<and> st_typ st' = st_typ st \<and>
     st_comp st' = st_comp st"

lemma same_data_refl [simp]: "same_data st st"
  by (simp add: same_data_def)

text \<open>The bytes a world and a frame can hand to the mirror.\<close>

definition served :: "world \<Rightarrow> bytes \<Rightarrow> bool" where
  "served w data \<longleftrightarrow> (\<exists>b. wd_blobs w = Some b \<and>
     ((\<exists>key. bl_Object b key = Some (Some data)) \<or>
      (\<exists>keys objs. bl_Objects b keys = Some objs \<and> Some data \<in> set objs)))"

definition inline_data :: "frame \<Rightarrow> bytes \<Rightarrow> bool" where
  "inline_data f data \<longleftrightarrow> fr_Inline f \<noteq> [] \<and> b64std_decode (fr_Inline f) = Some data"

text \<open>How the operations come about, one case for each way through them.\<close>

lemma snapshot_cases [consumes 1, case_names same install]:
  assumes "Mirror_snapshot w st = Some st'"
  obtains "same_data st st'"
  | data st1 st2 where "served w data" "same_data st st1" "install data st1 = Some st2" "same_data st2 st'"
proof (cases "st_syncing st")
  case True
  with assms that(1) show thesis by (simp add: Mirror_snapshot_def)
next
  case False
  with assms obtain st2 where b: "snapshot_body w (st\<lparr>st_syncing := True\<rparr>) = Some st2"
    and st': "st' = st2\<lparr>st_syncing := False\<rparr>" by (auto simp: Mirror_snapshot_def)
  have "same_data st st2 \<or> (\<exists>data. served w data \<and>
      install data (st\<lparr>st_syncing := True, st_refused := []\<rparr>) = Some st2)"
    using b by (fastforce simp: snapshot_body_def Let_def same_data_def served_def split: if_splits option.splits)
  then show thesis
  proof
    assume "same_data st st2"
    then show thesis by (intro that(1)) (simp add: st' same_data_def)
  next
    assume "\<exists>data. served w data \<and> install data (st\<lparr>st_syncing := True, st_refused := []\<rparr>) = Some st2"
    then obtain data where "served w data" "install data (st\<lparr>st_syncing := True, st_refused := []\<rparr>) = Some st2"
      by blast
    then show thesis
      by (intro that(2) [of data "st\<lparr>st_syncing := True, st_refused := []\<rparr>" st2]) (simp_all add: st' same_data_def)
  qed
qed

lemma applyPackage_cases [consumes 1, case_names resync applied]:
  assumes "applyPackage w st data want = Some (st', ok)"
  obtains "Mirror_snapshot w st = Some st'" "\<not> ok"
  | head recs c where "unpack data = Inr (head, recs)" "ph_kind head = kindPackage"
      "ph_epoch head = st_epoch st \<and> ph_seq head = want" "ph_typ head = st_typ st"
      "apply_all (st_key st) (ph_typ head) recs (st_comp st) = Some c"
      "verify w (st\<lparr>st_comp := c, st_seq := ph_seq head\<rparr>) (hexOf (ph_hash head)) = Some (st', ok)"
  using assms
  by (auto simp: applyPackage_def split: sum.splits prod.splits option.splits if_splits)

lemma verify_ok: "verify w st want = Some (st', True) \<Longrightarrow>
    st' = st \<and> (want = [] \<or> hexOf (cm_hash (st_comp st)) = want)"
  by (auto simp: verify_def split: if_splits)

lemma applyPackage_next:
  "applyPackage w st data want = Some (st', ok) \<Longrightarrow> ok \<Longrightarrow> st_ready st \<Longrightarrow> st_ready st' \<and> st_seq st' = want"
  by (cases rule: applyPackage_cases) (auto dest: verify_ok)

lemma onFrame_cases [consumes 1, case_names same resnap check inlined catch_up]:
  assumes "onFrame w st f = Some st'"
  obtains "same_data st st'"
  | st1 where "same_data st st1" "Mirror_snapshot w st1 = Some st'"
  | st1 ok where "same_data st st1" "verify w st1 (fr_Hash f) = Some (st', ok)"
  | st1 data ok where "same_data st st1" "st_ready st1" "inline_data f data"
      "applyPackage w st1 data (st_seq st1 + 1) = Some (st', ok)"
  | st1 where "same_data st st1" "st_ready st1" "catchUp w st1 (fr_Seq f) (fr_Hash f) = Some st'"
proof -
  define st1 where "st1 = frame_seen w f st"
  have st1: "same_data st st1" "same_data st (st1\<lparr>st_snapBad := False\<rparr>)"
    by (simp_all add: st1_def frame_seen_def same_data_def)
  note eq = onFrame_def [of w st f, unfolded Let_def, folded st1_def]
  consider "same_data st st'" | "Mirror_snapshot w st1 = Some st'" | "Mirror_snapshot w (st1\<lparr>st_snapBad := False\<rparr>) = Some st'"
    | ok where "verify w st1 (fr_Hash f) = Some (st', ok)"
    | data ok where "st_ready st" "inline_data f data" "applyPackage w st1 data (st_seq st + 1) = Some (st', ok)"
    | "st_ready st" "catchUp w st1 (fr_Seq f) (fr_Hash f) = Some st'"
    using assms st1(1) unfolding eq inline_data_def
    by (auto split: if_splits option.splits)
  then show thesis
  proof cases
    case 1 then show thesis by (rule that(1))
  next
    case 2 then show thesis by (rule that(2) [OF st1(1)])
  next
    case 3 then show thesis by (rule that(2) [OF st1(2)])
  next
    case 4 then show thesis by (rule that(3) [OF st1(1)])
  next
    case 5 with st1(1) show thesis by (intro that(4) [OF st1(1)]) (auto simp: same_data_def)
  next
    case 6 with st1(1) show thesis by (intro that(5) [OF st1(1)]) (auto simp: same_data_def)
  qed
qed

text \<open>None of them touches the queue.\<close>

lemma snapshot_queue: "Mirror_snapshot w st = Some st' \<Longrightarrow> st_in st' = st_in st"
  by (auto simp: Mirror_snapshot_def snapshot_body_def install_def Let_def split: if_splits option.splits sum.splits prod.splits)

lemma verify_queue: "verify w st want = Some (st', ok) \<Longrightarrow> st_in st' = st_in st"
  by (auto simp: verify_def snapshot_queue split: if_splits)

lemma applyPackage_queue: "applyPackage w st data want = Some (st', ok) \<Longrightarrow> st_in st' = st_in st"
  by (cases rule: applyPackage_cases) (auto dest: verify_queue snapshot_queue)

lemma objects_loop_queue: "objects_loop w st seq objs = Some (st', go) \<Longrightarrow> st_in st' = st_in st"
  by (induction w st seq objs rule: objects_loop.induct)
    (auto simp: snapshot_queue dest: applyPackage_queue split: option.splits if_splits)

lemma catch_up_loop_queue: "catch_up_loop w b st target hash = Some st' \<Longrightarrow> st_in st' = st_in st"
proof (erule catch_up_loop.raw_induct [where P = "\<lambda>w b st target hash st'. st_in st' = st_in st", rotated])
  fix loop w b st target hash st'
  assume IH: "\<And>w b st target hash y. loop w b st target hash = Some y \<Longrightarrow> st_in y = st_in st"
    and body: "(if target \<le> st_seq st then map_option fst (verify w st hash)
      else case bl_Objects b (package_keys st target) of None \<Rightarrow> Some st
      | Some objs \<Rightarrow> (case objects_loop w st (st_seq st + 1) objs of None \<Rightarrow> None
        | Some (st', go) \<Rightarrow> if go then loop w b st' target hash else Some st')) = Some st'"
  show "st_in st' = st_in st"
    using body
    by (auto dest!: IH verify_queue objects_loop_queue split: if_splits option.splits)
qed

lemma onFrame_queue: "onFrame w st f = Some st' \<Longrightarrow> st_in st' = st_in st"
proof -
  assume f: "onFrame w st f = Some st'"
  have seen: "st_in (frame_seen w f st) = st_in st" by (simp add: frame_seen_def)
  show ?thesis
    using f unfolding onFrame_def Let_def
    by (auto simp: seen catchUp_def dest: snapshot_queue verify_queue applyPackage_queue catch_up_loop_queue
        split: if_splits option.splits)
qed

text \<open>
  A property of a set that bookkeeping does not touch, that a snapshot establishes and a
  package of the next sequence number keeps, is an invariant of the mirror. \<open>G\<close> is what is
  known of the bytes that arrive.
\<close>

locale set_invariant =
  fixes P :: "mset \<Rightarrow> bool" and G :: "bytes \<Rightarrow> bool"
  assumes fresh: "P (newSet name now)"
    and keep: "same_data st st' \<Longrightarrow> P st \<Longrightarrow> P st'"
    and installed: "P st \<Longrightarrow> G data \<Longrightarrow> unpack data = Inr (head, recs) \<Longrightarrow>
      ph_kind head = kindSnapshot \<Longrightarrow> apply_all (ph_key head) (ph_typ head) recs newComposition = Some c \<Longrightarrow>
      P (st\<lparr>st_epoch := ph_epoch head, st_key := ph_key head, st_seq := ph_seq head,
           st_typ := ph_typ head, st_comp := c, st_ready := True, st_snapBad := bad\<rparr>)"
    and package: "P st \<Longrightarrow> G data \<Longrightarrow> st_ready st \<Longrightarrow> unpack data = Inr (head, recs) \<Longrightarrow>
      ph_kind head = kindPackage \<Longrightarrow> ph_epoch head = st_epoch st \<Longrightarrow> ph_seq head = st_seq st + 1 \<Longrightarrow>
      ph_typ head = st_typ st \<Longrightarrow> apply_all (st_key st) (ph_typ head) recs (st_comp st) = Some c \<Longrightarrow>
      P (st\<lparr>st_comp := c, st_seq := ph_seq head\<rparr>)"
begin

lemma install_P: "P st \<Longrightarrow> G data \<Longrightarrow> install data st = Some st' \<Longrightarrow> P st'"
  by (auto simp: install_def installed split: sum.splits if_splits option.splits)

lemma snapshot_P:
  assumes "P st" "\<And>data. served w data \<Longrightarrow> G data" "Mirror_snapshot w st = Some st'"
  shows "P st'"
  using assms(3)
proof (cases rule: snapshot_cases)
  case same
  then show ?thesis using assms(1) by (rule keep)
next
  case (install data st1 st2)
  from install_P [OF keep [OF install(2) assms(1)] assms(2) [OF install(1)] install(3)] install(4)
  show ?thesis by (rule keep [rotated])
qed

lemma verify_P:
  "P st \<Longrightarrow> (\<And>data. served w data \<Longrightarrow> G data) \<Longrightarrow> verify w st want = Some (st', ok) \<Longrightarrow> P st'"
  by (auto simp: verify_def intro: snapshot_P split: if_splits)

lemma applyPackage_P:
  assumes "P st" "\<And>data. served w data \<Longrightarrow> G data" "G data" "st_ready st"
    and "applyPackage w st data (st_seq st + 1) = Some (st', ok)"
  shows "P st'"
  using assms(5)
proof (cases rule: applyPackage_cases)
  case resync
  then show ?thesis using assms by (auto intro: snapshot_P)
next
  case (applied head recs c)
  have "P (st\<lparr>st_comp := c, st_seq := ph_seq head\<rparr>)"
    using assms(1,3,4) applied by (intro package) auto
  then show ?thesis
    using assms(2) applied(6) by (rule verify_P)
qed

lemma objects_loop_P:
  assumes "P st" "\<And>data. served w data \<Longrightarrow> G data" "\<And>data. Some data \<in> set objs \<Longrightarrow> G data"
    and "st_ready st" "objects_loop w st (st_seq st + 1) objs = Some (st', go)"
  shows "P st' \<and> (go \<longrightarrow> st_ready st')"
  using assms
proof (induction objs arbitrary: st)
  case Nil
  then show ?case by auto
next
  case (Cons obj objs)
  show ?case
  proof (cases obj)
    case None
    with Cons show ?thesis by (auto intro: snapshot_P)
  next
    case (Some data)
    with Cons.prems(5) obtain st1 ok where
      pkg: "applyPackage w st data (st_seq st + 1) = Some (st1, ok)" by (auto split: option.splits)
    have P1: "P st1"
      using applyPackage_P [OF Cons.prems(1,2) _ Cons.prems(4) pkg] Cons.prems(3) Some by auto
    show ?thesis
    proof (cases ok)
      case True
      from applyPackage_next [OF pkg True Cons.prems(4)] have st1: "st_ready st1" "st_seq st1 = st_seq st + 1" by auto
      then have "objects_loop w st1 (st_seq st1 + 1) objs = Some (st', go)"
        using Cons.prems(5) Some pkg True by simp
      then show ?thesis
        using Cons.IH [OF P1 Cons.prems(2) _ st1(1)] Cons.prems(3) by auto
    next
      case False
      then show ?thesis using Cons.prems(5) Some pkg P1 by auto
    qed
  qed
qed

lemma catch_up_loop_P:
  assumes loop: "catch_up_loop w b st target hash = Some st'"
    and P: "P st" "st_ready st" "wd_blobs w = Some b" and G: "\<And>data. served w data \<Longrightarrow> G data"
  shows "P st'"
proof -
  have "P st \<longrightarrow> st_ready st \<longrightarrow> wd_blobs w = Some b \<longrightarrow> (\<forall>data. served w data \<longrightarrow> G data) \<longrightarrow> P st'"
    using loop
  proof (rule catch_up_loop.raw_induct [where P = "\<lambda>w b st target hash st'. P st \<longrightarrow> st_ready st \<longrightarrow>
      wd_blobs w = Some b \<longrightarrow> (\<forall>data. served w data \<longrightarrow> G data) \<longrightarrow> P st'", rotated])
    fix loop w b st target hash st'
    assume IH: "\<And>w b st target hash y. loop w b st target hash = Some y \<Longrightarrow>
        P st \<longrightarrow> st_ready st \<longrightarrow> wd_blobs w = Some b \<longrightarrow> (\<forall>data. served w data \<longrightarrow> G data) \<longrightarrow> P y"
      and body: "(if target \<le> st_seq st then map_option fst (verify w st hash)
        else case bl_Objects b (package_keys st target) of None \<Rightarrow> Some st
        | Some objs \<Rightarrow> (case objects_loop w st (st_seq st + 1) objs of None \<Rightarrow> None
          | Some (st', go) \<Rightarrow> if go then loop w b st' target hash else Some st')) = Some st'"
    show "P st \<longrightarrow> st_ready st \<longrightarrow> wd_blobs w = Some b \<longrightarrow> (\<forall>data. served w data \<longrightarrow> G data) \<longrightarrow> P st'"
    proof (intro impI)
      assume P: "P st" "st_ready st" "wd_blobs w = Some b" and G: "\<forall>data. served w data \<longrightarrow> G data"
      show "P st'"
      proof (cases "target \<le> st_seq st")
        case True
        with body obtain ok where "verify w st hash = Some (st', ok)" by auto
        then show ?thesis using verify_P [OF P(1)] G by blast
      next
        case low: False
        show ?thesis
        proof (cases "bl_Objects b (package_keys st target)")
          case None
          with body low P show ?thesis by simp
        next
          case (Some objs)
          with body low obtain st1 go where step: "objects_loop w st (st_seq st + 1) objs = Some (st1, go)"
            and rest: "(if go then loop w b st1 target hash else Some st1) = Some st'"
            by (auto split: option.splits)
          have "Some data \<in> set objs \<Longrightarrow> G data" for data
            using Some P(3) G by (auto simp: served_def)
          then have "P st1 \<and> (go \<longrightarrow> st_ready st1)"
            using G by (intro objects_loop_P [OF P(1) _ _ P(2) step]) auto
          then show ?thesis
            using rest IH [of w b st1 target hash st'] P(3) G by (cases go) auto
        qed
      qed
    qed
  qed
  with P G show ?thesis by blast
qed

lemma onFrame_P:
  assumes "P st" "\<And>data. served w data \<Longrightarrow> G data" "\<And>data. inline_data f data \<Longrightarrow> G data"
    and "onFrame w st f = Some st'"
  shows "P st'"
  using assms(4)
proof (cases rule: onFrame_cases)
  case same
  then show ?thesis using assms(1) by (rule keep)
next
  case (resnap st1)
  then show ?thesis using assms(1,2) by (auto intro: snapshot_P keep)
next
  case (check st1 ok)
  then show ?thesis using assms(1,2) by (auto intro: verify_P keep)
next
  case (inlined st1 data ok)
  then have "G data" by (auto intro: assms(3))
  then show ?thesis
    using inlined applyPackage_P [OF keep [OF inlined(1) assms(1)] assms(2) _ inlined(2)] by auto
next
  case (catch_up st1)
  show ?thesis
  proof (cases "wd_blobs w")
    case None
    with catch_up assms(1) show ?thesis by (auto simp: catchUp_def intro: keep)
  next
    case (Some b)
    with catch_up(3) have "catch_up_loop w b st1 (fr_Seq f) (fr_Hash f) = Some st'"
      by (simp add: catchUp_def)
    from catch_up_loop_P [OF this keep [OF catch_up(1) assms(1)] catch_up(2) Some assms(2)] show ?thesis .
  qed
qed

lemma queue_P: "P st \<Longrightarrow> P (enqueue f st)" "P st \<Longrightarrow> P (resync now st)" "P st \<Longrightarrow> P (st\<lparr>st_in := fs\<rparr>)"
  by (erule keep [rotated], simp add: same_data_def enqueue_def resync_def Let_def)+

lemma set_steps_P:
  assumes "\<And>w data. ok w \<Longrightarrow> served w data \<Longrightarrow> G data"
    and "\<And>f data. okf f \<Longrightarrow> inline_data f data \<Longrightarrow> G data"
    and "set_steps ok okf name st"
  shows "P st \<and> (\<forall>f \<in> set (st_in st). okf f \<or> f = resync_frame)"
  using assms(3)
proof (induction rule: set_steps.induct)
  case (start w now st)
  then show ?case
    using snapshot_P [OF fresh assms(1)] snapshot_queue [OF start(2)] by (auto simp: newSet_def)
next
  case (deliver st f)
  then show ?case by (auto simp: queue_P) (auto simp: enqueue_def split: if_splits)
next
  case (tick st now)
  then show ?case
    by (auto simp: queue_P) (auto simp: enqueue_def resync_def Let_def split: if_splits)
next
  case (handle st w f fs st')
  have "inline_data f data \<Longrightarrow> G data" for data
    using handle assms(2) by (auto simp: inline_data_def resync_frame_def)
  then have "P st'"
    using handle assms(1) by (intro onFrame_P [OF queue_P(3) _ _ handle(4)]) auto
  then show ?case
    using handle onFrame_queue [OF handle(4)] by auto
qed

end


section \<open>The mirror is well formed\<close>

definition shape :: "8 word \<Rightarrow> composition \<Rightarrow> bool" where
  "shape typ c \<longleftrightarrow> (if typ = typeCIDR then cm_entries c = Map.empty else cm_nets c = Map.empty)"

lemma shape_new [simp]: "shape typ newComposition"
  by (simp add: shape_def newComposition_def)

lemma comp_apply_shape: "shape typ c \<Longrightarrow> comp_apply key typ r c = Some c' \<Longrightarrow> shape typ c'"
  by (auto simp: shape_def comp_apply_def apply_net_def apply_entry_def Let_def split: if_splits option.splits)

lemma apply_all_shape: "shape typ c \<Longrightarrow> apply_all key typ rs c = Some c' \<Longrightarrow> shape typ c'"
  by (induction rs arbitrary: c) (auto dest: comp_apply_shape split: option.splits)

definition mset_ok :: "mset \<Rightarrow> bool" where
  "mset_ok st \<longleftrightarrow> comp_ok (st_key st) (st_comp st) \<and> shape (st_typ st) (st_comp st)"

interpretation wf: set_invariant mset_ok "\<lambda>_. True"
proof
  show "mset_ok (newSet name now)" for name now
    by (simp add: mset_ok_def newSet_def newComposition_ok)
qed (auto simp: mset_ok_def same_data_def intro: apply_all_ok newComposition_ok
    apply_all_shape [OF shape_new] apply_all_shape)

definition mirror_ok :: "mirror \<Rightarrow> bool" where
  "mirror_ok m \<longleftrightarrow> (\<forall>name st. m name = Some st \<longrightarrow> mset_ok st)"


section \<open>The mirror says what the keeper published\<close>

text \<open>
  \<open>T epoch seq\<close> is the contents the keeper published as that state. An object is genuine when
  its snapshot is that state, or its package leads from the state before to it.
\<close>

definition genuine :: "(64 word \<Rightarrow> 64 word \<Rightarrow> content) \<Rightarrow> bytes \<Rightarrow> bool" where
  "genuine T data \<longleftrightarrow>
     (\<forall>h rs. unpack data = Inr (h, rs) \<longrightarrow>
        (ph_kind h = kindSnapshot \<longrightarrow>
           content_all (ph_typ h) rs (Map.empty, Map.empty) = T (ph_epoch h) (ph_seq h)) \<and>
        (ph_kind h = kindPackage \<longrightarrow>
           content_all (ph_typ h) rs (T (ph_epoch h) (ph_seq h - 1)) = T (ph_epoch h) (ph_seq h)))"

definition mirrors :: "(64 word \<Rightarrow> 64 word \<Rightarrow> content) \<Rightarrow> mset \<Rightarrow> bool" where
  "mirrors T st \<longleftrightarrow> (st_ready st \<longrightarrow> content_of (st_comp st) = T (st_epoch st) (st_seq st))"

interpretation faithful: set_invariant "mirrors T" "genuine T"
proof
  show "mirrors T (newSet name now)" for name now
    by (simp add: mirrors_def newSet_def)
  show "mirrors T st \<Longrightarrow> mirrors T st'" if "same_data st st'" for st st'
    using that by (simp add: mirrors_def same_data_def)
next
  fix st data head recs c bad
  assume "genuine T data" "unpack data = Inr (head, recs)" "ph_kind head = kindSnapshot"
    and a: "apply_all (ph_key head) (ph_typ head) recs newComposition = Some c"
  then have "content_all (ph_typ head) recs (Map.empty, Map.empty) = T (ph_epoch head) (ph_seq head)"
    by (simp add: genuine_def)
  moreover have "content_of newComposition = (Map.empty, Map.empty)"
    by (simp add: content_of_def newComposition_def)
  ultimately show "mirrors T (st\<lparr>st_epoch := ph_epoch head, st_key := ph_key head,
      st_seq := ph_seq head, st_typ := ph_typ head, st_comp := c, st_ready := True, st_snapBad := bad\<rparr>)"
    using apply_all_content [OF a] by (simp add: mirrors_def)
next
  fix st data head recs c
  assume m: "mirrors T st" "st_ready st" and g: "genuine T data" and u: "unpack data = Inr (head, recs)"
    and h: "ph_kind head = kindPackage" "ph_epoch head = st_epoch st" "ph_seq head = st_seq st + 1"
    and a: "apply_all (st_key st) (ph_typ head) recs (st_comp st) = Some c"
  have "kindPackage \<noteq> kindSnapshot" by (simp add: kindPackage_def kindSnapshot_def)
  then have "content_all (ph_typ head) recs (T (ph_epoch head) (ph_seq head - 1)) = T (ph_epoch head) (ph_seq head)"
    using g u h(1) unfolding genuine_def by blast
  with m h apply_all_content [OF a]
  show "mirrors T (st\<lparr>st_comp := c, st_seq := ph_seq head\<rparr>)"
    by (simp add: mirrors_def)
qed


section \<open>Handling a frame returns\<close>

text \<open>Redis answers \<open>MGET\<close> with one value per key, and no packed record adds an invalid prefix.\<close>

definition answers_reads :: "world \<Rightarrow> bool" where
  "answers_reads w \<longleftrightarrow> (\<forall>b keys objs. wd_blobs w = Some b \<longrightarrow> bl_Objects b keys = Some objs \<longrightarrow>
     length objs = length keys)"

definition safe_data :: "bytes \<Rightarrow> bool" where
  "safe_data data \<longleftrightarrow> (\<forall>h rs. unpack data = Inr (h, rs) \<longrightarrow> list_all (record_safe (ph_typ h)) rs)"

lemma install_returns: "safe_data data \<Longrightarrow> \<exists>st'. install data st = Some st'"
proof (cases "unpack data")
  case (Inl e)
  then show ?thesis by (simp add: install_def)
next
  case (Inr hr)
  obtain head recs where hr: "hr = (head, recs)" by force
  assume "safe_data data"
  then have "list_all (record_safe (ph_typ head)) recs"
    using Inr by (simp add: safe_data_def hr)
  then obtain c where "apply_all (ph_key head) (ph_typ head) recs newComposition = Some c"
    using apply_all_returns [OF newComposition_ok] by blast
  then show ?thesis
    using Inr hr by (simp add: install_def)
qed

definition safe_world :: "world \<Rightarrow> bool" where
  "safe_world w \<longleftrightarrow> (\<forall>data. served w data \<longrightarrow> safe_data data)"

lemma snapshot_returns:
  assumes "safe_world w"
  shows "\<exists>st'. Mirror_snapshot w st = Some st'"
proof -
  have "\<exists>st2. snapshot_body w st1 = Some st2" for st1
  proof -
    have inst: "\<exists>st2. install data st = Some st2" if "wd_blobs w = Some b" "bl_Object b key = Some (Some data)"
      for data st b key
    proof (rule install_returns)
      show "safe_data data" using assms that by (auto simp: safe_world_def served_def)
    qed
    then show ?thesis
      by (auto simp: snapshot_body_def Let_def split: option.splits prod.splits)
  qed
  then show ?thesis
    by (auto simp: Mirror_snapshot_def)
qed

lemma verify_returns:
  assumes "safe_world w"
  shows "\<exists>st' ok. verify w st want = Some (st', ok)"
  using snapshot_returns [OF assms] by (auto simp: verify_def)

lemma applyPackage_returns:
  assumes "safe_world w" "safe_data data" "mset_ok st"
  shows "\<exists>st' ok. applyPackage w st data want = Some (st', ok)"
proof (cases "unpack data")
  case (Inl e)
  then show ?thesis using snapshot_returns [OF assms(1)] by (auto simp: applyPackage_def)
next
  case (Inr hr)
  obtain head recs where hr: "hr = (head, recs)" by force
  have "list_all (record_safe (ph_typ head)) recs"
    using assms(2) Inr by (simp add: safe_data_def hr)
  then obtain c where "apply_all (st_key st) (ph_typ head) recs (st_comp st) = Some c"
    using apply_all_returns assms(3) unfolding mset_ok_def by blast
  then show ?thesis
    using Inr hr snapshot_returns [OF assms(1)] verify_returns [OF assms(1)]
    by (auto simp: applyPackage_def)
qed

lemma objects_loop_returns:
  assumes "safe_world w" "\<And>data. Some data \<in> set objs \<Longrightarrow> safe_data data"
    and "mset_ok st" "st_ready st"
  shows "\<exists>st' go. objects_loop w st (st_seq st + 1) objs = Some (st', go) \<and>
    (go \<longrightarrow> st_ready st' \<and> mset_ok st' \<and> st_seq st' = st_seq st + of_nat (length objs))"
  using assms(2-4)
proof (induction objs arbitrary: st)
  case Nil
  then show ?case by auto
next
  case (Cons obj objs)
  show ?case
  proof (cases obj)
    case None
    then show ?thesis using snapshot_returns [OF assms(1)] by auto
  next
    case (Some data)
    have data: "safe_data data" using Cons.prems(1) Some by simp
    obtain st1 ok where p: "applyPackage w st data (st_seq st + 1) = Some (st1, ok)"
      using applyPackage_returns [OF assms(1) data Cons.prems(2)] by blast
    show ?thesis
    proof (cases ok)
      case True
      with applyPackage_next [OF p True Cons.prems(3)] have st1: "st_ready st1" "st_seq st1 = st_seq st + 1" by auto
      have "mset_ok st1"
        using wf.applyPackage_P [OF Cons.prems(2) _ _ Cons.prems(3) p] by simp
      from Cons.IH [OF _ this st1(1)] Cons.prems(1) show ?thesis
        using Some p True st1(2) by (auto simp: algebra_simps)
    next
      case False
      then show ?thesis using Some p by auto
    qed
  qed
qed

lemma length_package_keys:
  assumes "\<not> target \<le> st_seq st"
  shows "0 < length (package_keys st target)" "length (package_keys st target) \<le> unat (target - st_seq st)"
proof -
  have "target - st_seq st \<noteq> 0" using assms by auto
  then have "0 < unat (target - st_seq st)" by (simp add: unat_gt_0)
  moreover have "unat packagesPerRead = 256" by (simp add: packagesPerRead_def)
  ultimately show "0 < length (package_keys st target)"
    and "length (package_keys st target) \<le> unat (target - st_seq st)"
    by (auto simp: package_keys_def Let_def word_less_nat_alt)
qed

lemma unat_step:
  assumes "\<not> target \<le> (s :: 64 word)" "k \<le> unat (target - s)"
  shows "unat (target - (s + of_nat k)) = unat (target - s) - k"
proof -
  have "k < 2 ^ 64" using assms(2) unat_bound [of "target - s"] by simp
  then have k: "unat (of_nat k :: 64 word) = k" by (simp add: unat_of_nat)
  have "target - (s + of_nat k) = (target - s) - of_nat k" by (simp add: algebra_simps)
  moreover have "of_nat k \<le> target - s" using assms(2) k by (simp add: word_le_nat_alt)
  ultimately show ?thesis by (metis k unat_sub)
qed

lemma catch_up_loop_returns:
  assumes "safe_world w" "answers_reads w" "wd_blobs w = Some b"
    and "mset_ok st" "st_ready st"
  shows "\<exists>st'. catch_up_loop w b st target hash = Some st'"
  using assms(4,5)
proof (induction "unat (target - st_seq st)" arbitrary: st rule: less_induct)
  case less
  show ?case
  proof (cases "target \<le> st_seq st")
    case True
    then show ?thesis
      using verify_returns [OF assms(1), of st hash] by (subst catch_up_loop.simps) auto
  next
    case low: False
    show ?thesis
    proof (cases "bl_Objects b (package_keys st target)")
      case None
      then show ?thesis using low by (subst catch_up_loop.simps) simp
    next
      case (Some objs)
      have len: "length objs = length (package_keys st target)"
        using assms(2,3) Some by (auto simp: answers_reads_def)
      have "Some data \<in> set objs \<Longrightarrow> safe_data data" for data
        using Some assms(1,3) by (auto simp: served_def safe_world_def)
      from objects_loop_returns [OF assms(1) this less.prems] obtain st1 go where
        step: "objects_loop w st (st_seq st + 1) objs = Some (st1, go)"
        and st1: "go \<Longrightarrow> st_ready st1 \<and> mset_ok st1 \<and> st_seq st1 = st_seq st + of_nat (length objs)"
        by blast
      show ?thesis
      proof (cases go)
        case True
        have "unat (target - st_seq st1) < unat (target - st_seq st)"
        proof -
          have "unat (target - st_seq st1) = unat (target - st_seq st) - length objs"
            using st1 [OF True] unat_step [OF low] length_package_keys(2) [OF low] len by simp
          then show ?thesis
            using length_package_keys [OF low] len by linarith
        qed
        from less.hyps [OF this] st1 [OF True] obtain st' where "catch_up_loop w b st1 target hash = Some st'"
          by blast
        then show ?thesis
          using low Some step True by (subst catch_up_loop.simps) simp
      next
        case False
        then show ?thesis using low Some step by (subst catch_up_loop.simps) simp
      qed
    qed
  qed
qed

lemma onFrame_returns_aux:
  assumes "safe_world w" "\<And>data. inline_data f data \<Longrightarrow> safe_data data"
    and "answers_reads w" "mset_ok st"
  shows "\<exists>st'. onFrame w st f = Some st'"
proof -
  let ?st = "frame_seen w f st"
  have seen: "mset_ok ?st" "st_ready ?st = st_ready st"
    using assms(4) by (simp_all add: frame_seen_def mset_ok_def)
  have pkg: "\<exists>st' ok. applyPackage w ?st data want = Some (st', ok)" if "inline_data f data" for data want
    using applyPackage_returns [OF assms(1) assms(2) [OF that] seen(1)] by blast
  have catch: "st_ready st \<Longrightarrow> \<exists>st'. catchUp w ?st seq hash = Some st'" for seq hash
    using catch_up_loop_returns [OF assms(1,3) _ seen(1)] seen(2)
    by (cases "wd_blobs w") (auto simp: catchUp_def)
  show ?thesis
    using snapshot_returns [OF assms(1)] verify_returns [OF assms(1)] pkg catch
    by (fastforce simp: onFrame_def Let_def inline_data_def split: option.splits)
qed


section \<open>The interface \<open>decide.Sessions\<close>\<close>

text \<open>What the decision asks of a list of sessions, and what it may rely on.\<close>

record session_api =
  sa_Contains :: "string \<Rightarrow> string \<Rightarrow> bool \<times> bool"
  sa_Lookup :: "string \<Rightarrow> string \<Rightarrow> entry \<times> bool \<times> bool"

locale sessions =
  fixes inv :: "'m \<Rightarrow> bool"
    and Contains :: "'m \<Rightarrow> string \<Rightarrow> string \<Rightarrow> bool \<times> bool"
    and Lookup :: "'m \<Rightarrow> string \<Rightarrow> string \<Rightarrow> entry \<times> bool \<times> bool"
  assumes not_ready: "Contains m name v = (ok, False) \<Longrightarrow> \<not> ok"
    and lookup_ready: "snd (snd (Lookup m name v)) = snd (Contains m name v)"
    and lookup_listed: "inv m \<Longrightarrow> fst (snd (Lookup m name v)) \<Longrightarrow> Contains m name v = (True, True)"
begin

definition api :: "'m \<Rightarrow> session_api" where
  "api m = \<lparr>sa_Contains = Contains m, sa_Lookup = Lookup m\<rparr>"

lemma api_simps [simp]: "sa_Contains (api m) = Contains m" "sa_Lookup (api m) = Lookup m"
  by (simp_all add: api_def)

lemma listed_ready: "fst (Contains m name v) \<Longrightarrow> Contains m name v = (True, True)"
  using not_ready [of m name v True] by (cases "Contains m name v") auto

end

interpretation mirror: sessions mirror_ok "Mirror_Contains nt now" "Mirror_Lookup now"
proof
  show "Mirror_Contains nt now m name v = (ok, False) \<Longrightarrow> \<not> ok" for m name v ok
    by (auto simp: Mirror_Contains_def split: option.splits if_splits)
  show "snd (snd (Mirror_Lookup now m name v)) = snd (Mirror_Contains nt now m name v)" for m name v
    by (auto simp: Mirror_Contains_def Mirror_Lookup_def split: option.splits)
  show "Mirror_Contains nt now m name v = (True, True)"
    if "mirror_ok m" "fst (snd (Mirror_Lookup now m name v))" for m name v
  proof -
    from that(2) obtain st r where st: "m name = Some st" "v \<noteq> []" "st_ready st"
      "cm_entries (st_comp st) v = Some r" "list_alive (lr_exp r) now"
      by (auto simp: Mirror_Lookup_def split: option.splits if_splits)
    with that(1) have "st_typ st \<noteq> typeCIDR"
      by (auto simp: mirror_ok_def mset_ok_def shape_def)
    with st show ?thesis by (simp add: Mirror_Contains_def)
  qed
qed

end
