(* ===== verification/Decide.thy ===== *)
theory Decide
  imports AuditSink Token Jwt Learn Livelist
begin

text \<open>
  The decision (\<open>internal/decide/decide.go\<close>): what the gate answers for one request. \<open>Check\<close>
  is composed of the code's own steps: opening the credential (\<open>open_cred\<close>, with one way for
  sealed sessions, one for bearer tokens and one for learned sessions), the asks of earlier
  verdicts, the gate, and the answers.

  The parts that are not this repository's, or that draw randomness, come in as the record
  \<open>decide_env\<close>: the case tables, the text forms of addresses, SHA-256, the key's cipher with
  the JSON forms of session and ticket, the token crypto, and the random bytes of the ticket.
\<close>

section \<open>Constants and data\<close>

abbreviation "CodeOK \<equiv> ''AUTH_OK''"
abbreviation "CodeOff \<equiv> ''AUTH_OFF''"
abbreviation "CodeSelf \<equiv> ''AUTH_SELF''"
abbreviation "CodeObserve \<equiv> ''AUTH_OBSERVE''"
abbreviation "CodeRenew \<equiv> ''AUTH_RENEW''"
abbreviation "CodeReauth \<equiv> ''AUTH_REAUTH''"
abbreviation "CodeSkipped \<equiv> ''AUTH_SKIPPED''"
abbreviation "CodeNoSession \<equiv> ''AUTH_NO_SESSION''"
abbreviation "CodeSessionBad \<equiv> ''AUTH_SESSION_BAD''"
abbreviation "CodeSessionExpired \<equiv> ''AUTH_SESSION_EXPIRED''"
abbreviation "CodeSessionBind \<equiv> ''AUTH_SESSION_BIND''"
abbreviation "CodeSessionScope \<equiv> ''AUTH_SESSION_SCOPE''"
abbreviation "CodeSessionSource \<equiv> ''AUTH_SESSION_SOURCE''"
abbreviation "CodeSessionRevoked \<equiv> ''AUTH_SESSION_REVOKED''"
abbreviation "CodeListUnavailable \<equiv> ''AUTH_LIST_UNAVAILABLE''"
abbreviation "CodeStoreUnavailable \<equiv> ''AUTH_STORE_UNAVAILABLE''"
abbreviation "CodeGeoUnavailable \<equiv> ''AUTH_GEO_UNAVAILABLE''"
abbreviation "CodeForbidden \<equiv> ''AUTH_FORBIDDEN''"
abbreviation "CodeUnknownProfile \<equiv> ''AUTH_UNKNOWN_PROFILE''"
abbreviation "CodeWrongPhase \<equiv> ''AUTH_PHASE_NOT_SUPPORTED''"

abbreviation "FindingSessionBad \<equiv> ''auth-session-bad''"
abbreviation "FindingSessionRevoked \<equiv> ''auth-session-revoked''"
abbreviation "FindingForbidden \<equiv> ''auth-forbidden''"
abbreviation "FindingUnknownProfile \<equiv> ''auth-unknown-profile''"
abbreviation "FindingStore \<equiv> ''auth-store-unavailable''"
abbreviation "FindingListDown \<equiv> ''auth-list-unavailable''"

abbreviation "OutcomeApplied \<equiv> ''applied''"
abbreviation "OutcomeNoRule \<equiv> ''no_rule''"

record action_outcome =
  ao_From :: string
  ao_Do :: string
  ao_Apply :: string
  ao_Code :: string
  ao_Value :: int
  ao_Delta :: int
  ao_Outcome :: string

text \<open>The values of the audit event's \<open>engine\<close> map.\<close>

datatype engine_value = EStr string | EBool bool | EInt int | EOutcomes "action_outcome list"

type_synonym engine = "string \<rightharpoonup> engine_value"

record decide_input =
  in_Profile :: "profile option"
  in_Ask :: string
  in_Method :: string
  in_URI :: string
  in_Args :: string
  in_ClientIP :: string
  in_Headers :: "header list"
  in_Cookie :: string
  in_UserAgent :: string
  in_Accept :: string
  in_SecFetchDest :: string
  in_UpgradeInsecure :: bool
  in_Prior :: "prior_verdict list"
  in_StoreUnavailable :: string
  in_Now :: time

record result =
  rs_Verdict :: string
  rs_Code :: string
  rs_Text :: string
  rs_Response :: string
  rs_RedirectURL :: string
  rs_RedirectStatus :: int
  rs_Inline :: bool
  rs_Cookies :: "cookie list"
  rs_Headers :: "string \<rightharpoonup> string"
  rs_Session :: "token_session option"
  rs_Findings :: "finding list"
  rs_Engine :: engine
  rs_Sessions :: "psession list"
  rs_Event :: string

text \<open>
  \<open>de_open_session\<close> and \<open>de_seal_ticket\<close> are the JSON forms \<open>encoding/json\<close> gives; the nonce
  is the 16 bytes of \<open>NewID\<close>, \<open>de_rand\<close> the bytes of the cipher's nonce or a failed read.
\<close>

record decide_env =
  de_ct :: case_tables
  de_nt :: ip_text
  de_sha256 :: "bytes \<Rightarrow> bytes"
  de_key :: aead
  de_session_json :: "bytes \<Rightarrow> token_session option"
  de_ticket_json :: "ticket \<Rightarrow> bytes option"
  de_jwt_json :: "bytes \<Rightarrow> (string \<times> json) list option"
  de_crypto :: jwt_crypto
  de_id :: bytes
  de_rand :: "bytes option"

definition zero_result :: result where
  "zero_result =
     \<lparr>rs_Verdict = [], rs_Code = [], rs_Text = [], rs_Response = [], rs_RedirectURL = [],
      rs_RedirectStatus = 0, rs_Inline = False, rs_Cookies = [], rs_Headers = Map.empty,
      rs_Session = None, rs_Findings = [], rs_Engine = Map.empty, rs_Sessions = [], rs_Event = []\<rparr>"


section \<open>Asks of earlier verdicts\<close>

record ask =
  ask_reauth :: bool
  ask_skip :: bool
  ask_outcomes :: "action_outcome list"

definition rule_takes :: "prior_rule \<Rightarrow> string \<Rightarrow> action \<Rightarrow> bool" where
  "rule_takes r from act \<longleftrightarrow>
     \<not> (pl_From r \<noteq> AnyInspector \<and> pl_From r \<noteq> from) \<and>
     \<not> (\<not> PriorRule_Accepts r (act_Do act) \<or> \<not> PriorRule_WantsAxis r (Action_Scope act)
        \<or> \<not> PriorRule_WantsCode r (act_Code act))"

fun deliver_rules :: "string \<Rightarrow> action \<Rightarrow> prior_rule list \<Rightarrow> ask \<times> string \<Rightarrow> ask \<times> string" where
  "deliver_rules from act [] (a, out) = (a, out)"
| "deliver_rules from act (r # rs) (a, out) =
     (if \<not> rule_takes r from act then deliver_rules from act rs (a, out)
      else (let a = (if act_Do act = DoReauth then a\<lparr>ask_reauth := True\<rparr>
                     else if act_Do act = DoSkip then a\<lparr>ask_skip := True\<rparr> else a)
            in deliver_rules from act rs (a, OutcomeApplied)))"

definition deliver :: "profile \<Rightarrow> string \<Rightarrow> action \<Rightarrow> ask \<Rightarrow> ask" where
  "deliver p from act a =
     (let (a, outcome) = deliver_rules from act (tr_Prior (pf_Trigger p)) (a, OutcomeNoRule)
      in a\<lparr>ask_outcomes := ask_outcomes a @
           [\<lparr>ao_From = from, ao_Do = act_Do act, ao_Apply = Action_Scope act, ao_Code = act_Code act,
             ao_Value = act_Value act, ao_Delta = act_Delta act, ao_Outcome = outcome\<rparr>]\<rparr>)"

definition priorAsk :: "prior_verdict list \<Rightarrow> profile \<Rightarrow> ask" where
  "priorAsk prior p =
     foldl (\<lambda>a v.
       if pv_Phase v \<noteq> [] \<and> pv_Phase v \<noteq> PhaseRequest then a
       else foldl (\<lambda>a act. deliver p (pv_Inspector v) act a) a (pv_Actions v))
     \<lparr>ask_reauth = False, ask_skip = False, ask_outcomes = []\<rparr> prior"


section \<open>Findings\<close>

definition bad :: "string \<Rightarrow> string \<Rightarrow> finding list" where
  "bad code rule =
     [\<lparr>fd_Code = code, fd_Severity = SeverityMedium, fd_Target = TargetConn, fd_Rule = rule\<rparr>]"

definition absent :: "decide_input \<Rightarrow> finding list" where
  "absent inp =
     (if in_StoreUnavailable inp = [] then []
      else [\<lparr>fd_Code = FindingStore, fd_Severity = SeverityHigh, fd_Target = TargetConn,
             fd_Rule = in_StoreUnavailable inp\<rparr>])"

definition forbidden :: "token_session \<Rightarrow> profile \<Rightarrow> finding list" where
  "forbidden s p =
     [\<lparr>fd_Code = FindingForbidden, fd_Severity = SeverityHigh, fd_Target = TargetConn,
       fd_Rule = ts_Sub s @ '' not in '' @ Join '','' (gt_Groups (pf_Gate p))\<rparr>]"


section \<open>Opening the credential\<close>

type_synonym opened = "token_session option \<times> string \<times> finding list"

fun headerValue :: "case_tables \<Rightarrow> header list \<Rightarrow> string \<Rightarrow> string" where
  "headerValue ct [] name = []"
| "headerValue ct ((n, v) # pairs) name = (if EqualFold ct n name then v else headerValue ct pairs name)"

definition bearer :: "case_tables \<Rightarrow> string \<Rightarrow> string \<Rightarrow> string" where
  "bearer ct value pre =
     (let value = TrimSpace value
      in if pre = [] then value
         else if length value < length pre \<or> \<not> EqualFold ct (take (length pre) value) pre then []
         else TrimSpace (drop (length pre) value))"

text \<open>The session that a verified token stands for.\<close>

definition jwt_session :: "decide_env \<Rightarrow> source \<Rightarrow> jwt_claims \<Rightarrow> jwt_token \<Rightarrow> int \<Rightarrow> token_session" where
  "jwt_session env src claims tok expiry =
     (let sid = Jwt_String tok (jc_Session claims);
          sid = (if sid = [] then Jwt_String tok ''jti'' else sid);
          sid = (if sid = [] then Jwt_Hash (de_sha256 env) tok else sid)
      in \<lparr>ts_SID = sid, ts_Sub = Jwt_String tok (jc_User claims),
          ts_Issued = (case Jwt_Int tok (jc_Issued claims) of None \<Rightarrow> 0 | Some n \<Rightarrow> n),
          ts_Expiry = expiry, ts_Renew = 0, ts_Born = 0, ts_Cred = [], ts_Scope = [],
          ts_Iss = src_Name src, ts_Net = [], ts_UA = [], ts_AMR = [''jwt''],
          ts_Groups = Jwt_Strings tok (jc_Groups claims)\<rparr>)"

text \<open>The claims in the order the code checks them; \<open>int64\<close> sums wrap.\<close>

definition jwt_checks :: "jwt_provider \<Rightarrow> jwt_token \<Rightarrow> time \<Rightarrow> (bool \<times> string \<times> finding list) list" where
  "jwt_checks j tok t =
     (let leeway = whole_seconds (jv_Leeway (jp_Verify j)); now = unix t
      in [(case Jwt_Int tok (jc_Expiry (jp_Claims j)) of
             None \<Rightarrow> False | Some e \<Rightarrow> now > i64 (e + leeway), CodeSessionExpired, []),
          (case Jwt_Int tok ''nbf'' of
             None \<Rightarrow> False | Some n \<Rightarrow> now < i64 (n - leeway), CodeSessionBad, bad FindingSessionBad ''nbf''),
          (jv_Issuer (jp_Verify j) \<noteq> [] \<and> Jwt_String tok ''iss'' \<noteq> jv_Issuer (jp_Verify j),
             CodeSessionSource, bad FindingSessionBad ''issuer''),
          (jv_Audience (jp_Verify j) \<noteq> [] \<and>
             \<not> member_loop (Jwt_Strings tok ''aud'') (jv_Audience (jp_Verify j)),
             CodeSessionScope, bad FindingSessionBad ''audience'')])"

definition openJWT :: "decide_env \<Rightarrow> decide_input \<Rightarrow> source \<Rightarrow> jwt_provider \<Rightarrow> opened" where
  "openJWT env inp src j =
     (let raw = (if jp_Header j \<noteq> []
                 then bearer (de_ct env) (headerValue (de_ct env) (in_Headers inp) (jp_Header j)) (jp_Prefix j)
                 else in_Cookie inp)
      in if raw = [] then (None, CodeNoSession, absent inp)
         else (case Jwt_Parse (de_jwt_json env) raw of
                 Inl _ \<Rightarrow> (None, CodeSessionBad, bad FindingSessionBad ''malformed'')
               | Inr tok \<Rightarrow>
                   (if jv_Alg (jp_Verify j) \<noteq> JWTAlgNone \<and>
                       Jwt_Verify (de_crypto env) tok (jv_Alg (jp_Verify j)) (jp_Key j) \<noteq> None
                    then (None, CodeSessionBad, bad FindingSessionBad ''signature'')
                    else (case first_err (jwt_checks j tok (in_Now inp)) of
                            Some (code, fs) \<Rightarrow> (None, code, fs)
                          | None \<Rightarrow>
                              (Some (jwt_session env src (jp_Claims j) tok
                                 (case Jwt_Int tok (jc_Expiry (jp_Claims j)) of None \<Rightarrow> 0 | Some e \<Rightarrow> e)),
                               CodeOK, [])))))"

definition openApp :: "decide_env \<Rightarrow> decide_input \<Rightarrow> source \<Rightarrow> session_api option \<Rightarrow> opened" where
  "openApp env inp src ses =
     (if in_Cookie inp = [] then (None, CodeNoSession, absent inp)
      else (let sid = Learn_Hash (de_sha256 env) (in_Cookie inp); l = lc_Sessions (src_List src)
            in case ses of
                 None \<Rightarrow> (None, CodeListUnavailable, bad FindingListDown l)
               | Some api \<Rightarrow>
                   (case sa_Lookup api l sid of
                      (entry, listed, ready) \<Rightarrow>
                        (if \<not> ready then (None, CodeListUnavailable, bad FindingListDown l)
                         else if \<not> listed then (None, CodeNoSession, [])
                         else (Some \<lparr>ts_SID = sid, ts_Sub = UserOf (en_Reason entry), ts_Issued = 0,
                                 ts_Expiry = sgn (en_Expires entry) * (\<bar>en_Expires entry\<bar> div 1000),
                                 ts_Renew = 0, ts_Born = 0, ts_Cred = [], ts_Scope = [],
                                 ts_Iss = src_Name src, ts_Net = [], ts_UA = [], ts_AMR = [''app''],
                                 ts_Groups = []\<rparr>, CodeOK, [])))))"

definition want_bind :: "decide_env \<Rightarrow> decide_input \<Rightarrow> source \<Rightarrow> bind" where
  "want_bind env inp src =
     \<lparr>bd_Net = (if BindsNet src
        then Subnet (de_nt env) (in_ClientIP inp) (sc_V4 (src_Session src)) (sc_V6 (src_Session src)) else []),
      bd_UA = (if BindsUA src then Fingerprint (de_sha256 env) (in_UserAgent inp) else [])\<rparr>"

text \<open>
  The sealed session of a source of our own, with the list of live sessions. \<open>OpenSession\<close>
  never returns neither a session nor an error (\<open>OpenSession_no_error\<close>).
\<close>

definition openOwn :: "decide_env \<Rightarrow> decide_input \<Rightarrow> source \<Rightarrow> session_api option \<Rightarrow> opened" where
  "openOwn env inp src ses =
     (if in_Cookie inp = [] then (None, CodeNoSession, absent inp)
      else (case OpenSession (de_key env) (de_session_json env) (in_Cookie inp) (in_Now inp)
                   (want_bind env inp src) of
              (_, Some ErrExpired) \<Rightarrow> (None, CodeSessionExpired, [])
            | (_, Some ErrBind) \<Rightarrow> (None, CodeSessionBind, bad FindingSessionBad ''bind'')
            | (_, Some _) \<Rightarrow> (None, CodeSessionBad, bad FindingSessionBad ''signature'')
            | (None, None) \<Rightarrow> (None, CodeSessionBad, [])
            | (Some s, None) \<Rightarrow>
                (if ts_Scope s \<noteq> [] \<and> ts_Scope s \<noteq> sc_Cookie (src_Session src)
                 then (None, CodeSessionScope, [])
                 else if ts_Iss s \<noteq> src_Name src then (None, CodeSessionSource, [])
                 else if List_Enabled (src_List src) \<and>
                         in_Now inp - unix_time (ts_Issued s) > lc_Grace (src_List src) then
                   (case ses of
                      None \<Rightarrow> (None, CodeListUnavailable, bad FindingListDown (lc_Sessions (src_List src)))
                    | Some api \<Rightarrow>
                        (case sa_Contains api (lc_Sessions (src_List src)) (ts_SID s) of
                           (listed, ready) \<Rightarrow>
                             (if \<not> ready then (None, CodeListUnavailable,
                                bad FindingListDown (lc_Sessions (src_List src)))
                              else if \<not> listed then (None, CodeSessionRevoked,
                                bad FindingSessionRevoked (ts_SID s))
                              else (Some s, CodeOK, []))))
                 else (Some s, CodeOK, []))))"

text \<open>
  \<open>open\<close>. A profile in force has its source linked, and a JWT source its section; Go would
  panic on a nil pointer here, which \<open>None\<close> stands for.
\<close>

definition open_cred :: "decide_env \<Rightarrow> decide_input \<Rightarrow> profile \<Rightarrow> session_api option \<Rightarrow> opened option" where
  "open_cred env inp p ses =
     (case pf_Src p of
        None \<Rightarrow> None
      | Some src \<Rightarrow>
          (if src_Provider src = ProviderJWT then
             map_option (openJWT env inp src) (pr_JWT (src_Providers src))
           else if src_Provider src = ProviderApp then Some (openApp env inp src ses)
           else Some (openOwn env inp src ses)))"


section \<open>Whether a page can be shown\<close>

definition acceptsHTML :: "string \<Rightarrow> bool" where
  "acceptsHTML accept \<longleftrightarrow>
     ContainsStr accept ''text/html'' \<or> ContainsStr accept ''application/xhtml+xml''"

definition showsPage :: "decide_input \<Rightarrow> bool" where
  "showsPage inp =
     (if in_SecFetchDest inp = [] then in_UpgradeInsecure inp \<or> acceptsHTML (in_Accept inp)
      else in_SecFetchDest inp = ''document'' \<or> in_SecFetchDest inp = ''iframe''
        \<or> in_SecFetchDest inp = ''frame'')"

definition navigational :: "decide_input \<Rightarrow> profile \<Rightarrow> bool" where
  "navigational inp p =
     (if \<not> RedirectsMethod p (in_Method inp) then False
      else if gt_HTMLOnly (pf_Gate p) \<and> \<not> showsPage inp then False
      else True)"

definition wouldBe :: "decide_input \<Rightarrow> profile \<Rightarrow> string" where
  "wouldBe inp p = (if navigational inp p then VerdictRedirect else VerdictDeny)"

definition returnPath_max :: nat where
  "returnPath_max = 1024"

definition returnPath :: "string \<Rightarrow> string \<Rightarrow> string" where
  "returnPath uri args =
     (if uri = [] \<or> hd uri \<noteq> CHR ''/'' then []
      else if HasPrefix uri ''//'' then []
      else (let out = (if args \<noteq> [] then uri @ ''?'' @ args else uri)
            in if length out > returnPath_max then []
               else if list_ex (\<lambda>c. byte_val c < 0x21 \<or> byte_val c > 0x7e \<or> c = CHR 0x5C) out then []
               else out))"


section \<open>Answers\<close>

definition setHeader :: "string \<Rightarrow> string \<Rightarrow> (string \<rightharpoonup> string) \<Rightarrow> (string \<rightharpoonup> string)" where
  "setHeader name value dst = (if name = [] then dst else dst(name \<mapsto> value))"

definition sessionsOf :: "source option \<Rightarrow> token_session option \<Rightarrow> psession list" where
  "sessionsOf src s =
     (case (src, s) of
        (Some src, Some s) \<Rightarrow>
          (let entry = \<lparr>ps_Source = src_Name src, ps_Kind = SessionOwn, ps_User = ts_Sub s, ps_ID = ts_SID s,
                 ps_Verified = True, ps_Issued = ts_Issued s, ps_Expires = ts_Expiry s,
                 ps_Groups = ts_Groups s\<rparr>
           in [if src_Provider src = ProviderJWT
               then entry\<lparr>ps_Kind := SessionJWT, ps_Verified :=
                      (case pr_JWT (src_Providers src) of None \<Rightarrow> False
                       | Some j \<Rightarrow> jv_Alg (jp_Verify j) \<noteq> JWTAlgNone)\<rparr>
               else if src_Provider src = ProviderApp then entry\<lparr>ps_Kind := SessionApp\<rparr>
               else entry])
      | _ \<Rightarrow> [])"

definition allow :: "profile \<Rightarrow> token_session option \<Rightarrow> string \<Rightarrow> engine \<Rightarrow> result" where
  "allow p s code eng =
     (let (user, groups, method) =
            (case s of None \<Rightarrow> ([], [], [])
             | Some s \<Rightarrow> (ts_Sub s, Join '','' (ts_Groups s), Join ''+'' (ts_AMR s)));
          eng = (case s of None \<Rightarrow> eng
             | Some s \<Rightarrow> eng(''sub'' \<mapsto> EStr (ts_Sub s), ''sid'' \<mapsto> EStr (ts_SID s)));
          hs = (case pf_Src p of None \<Rightarrow> Map.empty
             | Some src \<Rightarrow>
                 setHeader (up_Method (src_Upstream src)) method
                   (setHeader (up_Groups (src_Upstream src)) groups
                     (setHeader (up_User (src_Upstream src)) user Map.empty)))
      in zero_result\<lparr>rs_Verdict := VerdictAllow, rs_Code := code, rs_Headers := hs, rs_Session := s,
           rs_Engine := eng, rs_Sessions := sessionsOf (pf_Src p) s\<rparr>)"

definition deny :: "profile \<Rightarrow> string \<Rightarrow> engine \<Rightarrow> result" where
  "deny p code eng =
     zero_result\<lparr>rs_Verdict := VerdictDeny, rs_Code := code,
       rs_Response := gt_DenyResponse (pf_Gate p), rs_Engine := eng\<rparr>"

definition redirect :: "decide_env \<Rightarrow> decide_input \<Rightarrow> profile \<Rightarrow> source \<Rightarrow> string \<Rightarrow> engine \<Rightarrow> result" where
  "redirect env inp p src code eng =
     (let to = (\<lambda>url. zero_result\<lparr>rs_Verdict := VerdictRedirect, rs_Code := code, rs_RedirectURL := url,
                  rs_RedirectStatus := gt_RedirectStatus (pf_Gate p), rs_Engine := eng\<rparr>)
      in if External src then
           (if lg_URI (src_Login src) = [] then deny p code eng else to (lg_URI (src_Login src)))
         else
           (let back = returnPath (in_URI inp) (in_Args inp);
                ticket = \<lparr>tk_Nonce = NewID (de_id env), tk_Return = back, tk_Scope = src_Name src,
                  tk_Expiry = unix (in_Now inp + tc_TTL (src_Ticket src))\<rparr>
            in case SealTicket (de_key env) (de_ticket_json env) (de_rand env) ticket of
                 None \<Rightarrow> deny p code eng
               | Some sealed \<Rightarrow>
                   (to (lg_URI (src_Login src) @ (if back \<noteq> [] then ''?rd='' @ QueryEscape back else [])))
                     \<lparr>rs_Cookies := [\<lparr>ck_Name = tc_Cookie (src_Ticket src), ck_Value = sealed,
                        ck_Path = lg_URI (src_Login src),
                        ck_MaxAge = whole_seconds (tc_TTL (src_Ticket src))\<rparr>]\<rparr>))"

definition renew_redirect :: "decide_input \<Rightarrow> profile \<Rightarrow> source \<Rightarrow> engine \<Rightarrow> result" where
  "renew_redirect inp p src eng =
     (let back = returnPath (in_URI inp) (in_Args inp);
          target = TrimRightBytes ''/'' (lg_URI (src_Login src)) @ ''/renew'' @
            (if back \<noteq> [] then ''?rd='' @ QueryEscape back else [])
      in zero_result\<lparr>rs_Verdict := VerdictRedirect, rs_Code := CodeRenew, rs_RedirectURL := target,
           rs_RedirectStatus := gt_RedirectStatus (pf_Gate p),
           rs_Engine := eng(''renew'' \<mapsto> EBool True)\<rparr>)"

definition gate :: "decide_env \<Rightarrow> decide_input \<Rightarrow> profile \<Rightarrow> source \<Rightarrow> string \<Rightarrow> engine \<Rightarrow> result" where
  "gate env inp p src code eng =
     (let res = redirect env inp p src code eng
      in if FormInline p \<and> rs_Verdict res = VerdictRedirect
         then res\<lparr>rs_Verdict := VerdictDeny, rs_Response := gt_DenyResponse (pf_Gate p),
                rs_Inline := True, rs_Engine := (rs_Engine res)(''inline'' \<mapsto> EBool True)\<rparr>
         else res)"

definition reauthDue :: "decide_input \<Rightarrow> profile \<Rightarrow> token_session \<Rightarrow> bool" where
  "reauthDue inp p s =
     (let after = tr_ReauthAfter (pf_Trigger p)
      in if after = 0 then True
         else unix (in_Now inp) \<ge> i64 (ts_Issued s + whole_seconds after))"

definition eventOf :: "token_session option \<Rightarrow> string \<Rightarrow> result \<Rightarrow> string" where
  "eventOf s code res =
     (if rs_Engine res ''forbidden'' \<noteq> None then OnForbidden
      else if s \<noteq> None then OnAuthenticated
      else if code = CodeNoSession then OnAnonymous
      else if code = CodeListUnavailable \<or> code = [] then []
      else OnInvalid)"


section \<open>The decision\<close>

definition base_engine :: "decide_input \<Rightarrow> profile \<Rightarrow> engine" where
  "base_engine inp p =
     (let eng = [''profile'' \<mapsto> EStr (pf_Name p), ''mode'' \<mapsto> EStr (pf_Mode p)];
          eng = (if pf_Mode p = ModeObserve then eng(''passive'' \<mapsto> EBool True) else eng)
      in if in_StoreUnavailable inp \<noteq> [] then eng(''store'' \<mapsto> EStr (in_StoreUnavailable inp)) else eng)"

definition would :: "string \<Rightarrow> string \<Rightarrow> engine \<Rightarrow> engine" where
  "would verdict code eng = eng(''would_verdict'' \<mapsto> EStr verdict, ''would_code'' \<mapsto> EStr code)"

text \<open>The answer to a request that carries a session.\<close>

definition with_session :: "decide_env \<Rightarrow> decide_input \<Rightarrow> profile \<Rightarrow> source \<Rightarrow> ask \<Rightarrow> engine \<Rightarrow>
    token_session \<Rightarrow> finding list \<Rightarrow> result" where
  "with_session env inp p src asked eng s fs =
     (if ask_reauth asked \<and> \<not> ask_skip asked \<and> reauthDue inp p s then
        (let eng = eng(''reauth'' \<mapsto> EBool True)
         in if pf_Mode p = ModeObserve then
              (allow p (Some s) CodeObserve (would (wouldBe inp p) CodeReauth eng))\<lparr>rs_Findings := fs\<rparr>
            else if navigational inp p then (gate env inp p src CodeReauth eng)\<lparr>rs_Findings := fs\<rparr>
            else (deny p CodeReauth eng)\<lparr>rs_Findings := fs\<rparr>)
      else if NeedsRenew s (in_Now inp) \<and> navigational inp p then
        (if pf_Mode p = ModeObserve
         then allow p (Some s) CodeObserve (would VerdictRedirect CodeRenew (eng(''renew'' \<mapsto> EBool True)))
         else renew_redirect inp p src eng)
      else allow p (Some s) CodeOK eng)"

text \<open>The answer to a session whose groups the profile does not let in.\<close>

definition not_allowed :: "profile \<Rightarrow> engine \<Rightarrow> token_session \<Rightarrow> result" where
  "not_allowed p eng s =
     (let eng = eng(''forbidden'' \<mapsto> EStr (Join '','' (gt_Groups (pf_Gate p))))
      in if pf_Mode p = ModeObserve
         then (allow p (Some s) CodeObserve (would VerdictDeny CodeForbidden eng))\<lparr>rs_Findings := forbidden s p\<rparr>
         else (deny p CodeForbidden eng)\<lparr>rs_Response := gt_ForbiddenResponse (pf_Gate p),
                rs_Findings := forbidden s p\<rparr>)"

definition without_session :: "decide_env \<Rightarrow> decide_input \<Rightarrow> profile \<Rightarrow> source \<Rightarrow> ask \<Rightarrow> engine \<Rightarrow>
    string \<Rightarrow> finding list \<Rightarrow> result" where
  "without_session env inp p src asked eng code fs =
     (if ask_skip asked then (allow p None CodeSkipped eng)\<lparr>rs_Findings := fs\<rparr>
      else if pf_Mode p = ModeObserve
        then (allow p None CodeObserve (would (wouldBe inp p) code eng))\<lparr>rs_Findings := fs\<rparr>
      else if navigational inp p then (gate env inp p src code eng)\<lparr>rs_Findings := fs\<rparr>
      else (deny p code eng)\<lparr>rs_Findings := fs\<rparr>)"

definition unknown_profile :: "decide_input \<Rightarrow> result" where
  "unknown_profile inp =
     zero_result\<lparr>rs_Verdict := VerdictError, rs_Code := CodeUnknownProfile, rs_Text := in_Ask inp,
       rs_Findings := [\<lparr>fd_Code = FindingUnknownProfile, fd_Severity = SeverityCritical,
         fd_Target = TargetConn, fd_Rule = in_Ask inp\<rparr>]\<rparr>"

text \<open>The engine map the request's profile and the earlier asks leave.\<close>

definition check_engine :: "decide_input \<Rightarrow> profile \<Rightarrow> engine" where
  "check_engine inp p =
     (let asked = priorAsk (in_Prior inp) p; eng = base_engine inp p
      in if ask_outcomes asked \<noteq> [] then eng(''actions'' \<mapsto> EOutcomes (ask_outcomes asked)) else eng)"

text \<open>\<open>None\<close> is a panic: a profile in force without its source.\<close>

definition Check :: "decide_env \<Rightarrow> decide_input \<Rightarrow> session_api option \<Rightarrow> result option" where
  "Check env inp ses =
     (case in_Profile inp of
        None \<Rightarrow> Some (unknown_profile inp)
      | Some p \<Rightarrow>
          (let eng = base_engine inp p
           in if pf_Mode p = ModeOff then Some (allow p None CodeOff eng)
              else if OwnPath p (in_URI inp)
                then Some (allow p None CodeSelf (eng(''self'' \<mapsto> EBool True)))
              else
                (let asked = priorAsk (in_Prior inp) p; eng = check_engine inp p
                 in case (pf_Src p, open_cred env inp p ses) of
                      (Some src, Some (s, code, fs)) \<Rightarrow>
                        (let res =
                           (if code = CodeListUnavailable then
                              zero_result\<lparr>rs_Verdict := VerdictError, rs_Code := code, rs_Findings := fs,
                                rs_Engine := eng\<rparr>
                            else (case s of
                                    Some s \<Rightarrow>
                                      (if \<not> Profile_Allows (de_ct env) p (ts_Groups s) then not_allowed p eng s
                                       else with_session env inp p src asked eng s fs)
                                  | None \<Rightarrow> without_session env inp p src asked eng code fs))
                         in Some (res\<lparr>rs_Event := eventOf s code res\<rparr>))
                    | _ \<Rightarrow> None)))"


section \<open>What a valid credential is\<close>

text \<open>
  The specification the three ways of opening are proved to meet: no order of checks, only
  what must hold of the credential.
\<close>

definition listed :: "session_api option \<Rightarrow> list_cfg \<Rightarrow> string \<Rightarrow> bool" where
  "listed ses l sid \<longleftrightarrow> (\<exists>api. ses = Some api \<and> sa_Contains api (lc_Sessions l) sid = (True, True))"

definition bound_to :: "bind \<Rightarrow> token_session \<Rightarrow> bool" where
  "bound_to b s \<longleftrightarrow> (bd_Net b = [] \<or> ts_Net s = [] \<or> bd_Net b = ts_Net s) \<and>
     (bd_UA b = [] \<or> ts_UA s = [] \<or> bd_UA b = ts_UA s)"

definition own_valid :: "decide_env \<Rightarrow> decide_input \<Rightarrow> source \<Rightarrow> session_api option \<Rightarrow> token_session \<Rightarrow> bool" where
  "own_valid env inp src ses s \<longleftrightarrow>
     Key_open (de_key env) (de_session_json env) sessionPrefix (in_Cookie inp) = Inr s \<and>
     ts_SID s \<noteq> [] \<and> ts_Expiry s \<noteq> 0 \<and> unix (in_Now inp) < ts_Expiry s \<and>
     bound_to (want_bind env inp src) s \<and>
     (ts_Scope s = [] \<or> ts_Scope s = sc_Cookie (src_Session src)) \<and>
     ts_Iss s = src_Name src \<and>
     (List_Enabled (src_List src) \<longrightarrow>
        in_Now inp \<le> unix_time (ts_Issued s) + lc_Grace (src_List src) \<or>
        listed ses (src_List src) (ts_SID s))"

definition jwt_raw :: "decide_env \<Rightarrow> decide_input \<Rightarrow> jwt_provider \<Rightarrow> string" where
  "jwt_raw env inp j =
     (if jp_Header j \<noteq> []
      then bearer (de_ct env) (headerValue (de_ct env) (in_Headers inp) (jp_Header j)) (jp_Prefix j)
      else in_Cookie inp)"

definition jwt_valid :: "decide_env \<Rightarrow> decide_input \<Rightarrow> jwt_provider \<Rightarrow> jwt_token \<Rightarrow> bool" where
  "jwt_valid env inp j tok \<longleftrightarrow>
     Jwt_Parse (de_jwt_json env) (jwt_raw env inp j) = Inr tok \<and>
     (jv_Alg (jp_Verify j) = JWTAlgNone \<or>
        Jwt_Verify (de_crypto env) tok (jv_Alg (jp_Verify j)) (jp_Key j) = None) \<and>
     (\<forall>e. Jwt_Int tok (jc_Expiry (jp_Claims j)) = Some e \<longrightarrow>
        unix (in_Now inp) \<le> i64 (e + whole_seconds (jv_Leeway (jp_Verify j)))) \<and>
     (\<forall>n. Jwt_Int tok ''nbf'' = Some n \<longrightarrow>
        i64 (n - whole_seconds (jv_Leeway (jp_Verify j))) \<le> unix (in_Now inp)) \<and>
     (jv_Issuer (jp_Verify j) = [] \<or> Jwt_String tok ''iss'' = jv_Issuer (jp_Verify j)) \<and>
     (jv_Audience (jp_Verify j) = [] \<or> jv_Audience (jp_Verify j) \<in> set (Jwt_Strings tok ''aud''))"

definition credential_valid :: "decide_env \<Rightarrow> decide_input \<Rightarrow> source \<Rightarrow> session_api option \<Rightarrow> token_session \<Rightarrow> bool" where
  "credential_valid env inp src ses s \<longleftrightarrow>
     (if src_Provider src = ProviderJWT then
        (\<exists>j tok. pr_JWT (src_Providers src) = Some j \<and> jwt_raw env inp j \<noteq> [] \<and> jwt_valid env inp j tok \<and>
           ts_SID s \<noteq> [] \<and> ts_Sub s = Jwt_String tok (jc_User (jp_Claims j)) \<and>
           ts_Groups s = Jwt_Strings tok (jc_Groups (jp_Claims j)) \<and> ts_Renew s = 0)
      else if src_Provider src = ProviderApp then
        (\<exists>api entry. ses = Some api \<and> in_Cookie inp \<noteq> [] \<and>
           sa_Lookup api (lc_Sessions (src_List src)) (ts_SID s) = (entry, True, True) \<and>
           ts_SID s = Learn_Hash (de_sha256 env) (in_Cookie inp) \<and> ts_Sub s = UserOf (en_Reason entry) \<and>
           ts_Groups s = [] \<and> ts_Renew s = 0)
      else in_Cookie inp \<noteq> [] \<and> own_valid env inp src ses s)"


section \<open>Facts about opening\<close>

lemma own_valid_open:
  "own_valid env inp src ses s \<longleftrightarrow>
     OpenSession (de_key env) (de_session_json env) (in_Cookie inp) (in_Now inp) (want_bind env inp src) = (Some s, None) \<and>
     (ts_Scope s = [] \<or> ts_Scope s = sc_Cookie (src_Session src)) \<and> ts_Iss s = src_Name src \<and>
     (List_Enabled (src_List src) \<longrightarrow>
        in_Now inp \<le> unix_time (ts_Issued s) + lc_Grace (src_List src) \<or> listed ses (src_List src) (ts_SID s))"
  unfolding OpenSession_accepts own_valid_def bound_to_def by (simp only: conj_assoc)

lemma openOwn_Some:
  "openOwn env inp src ses = (Some s, code, fs) \<longleftrightarrow>
     in_Cookie inp \<noteq> [] \<and> own_valid env inp src ses s \<and> code = CodeOK \<and> fs = []"
proof (cases "OpenSession (de_key env) (de_session_json env) (in_Cookie inp) (in_Now inp) (want_bind env inp src)")
  case (Pair so err)
  show ?thesis
  proof (cases err)
    case None
    then obtain s' where s': "OpenSession (de_key env) (de_session_json env) (in_Cookie inp) (in_Now inp)
        (want_bind env inp src) = (Some s', None)"
      using OpenSession_no_error [of "de_key env" "de_session_json env" "in_Cookie inp" "in_Now inp"
          "want_bind env inp src"] Pair by auto
    let ?old = "List_Enabled (src_List src) \<and> in_Now inp - unix_time (ts_Issued s') > lc_Grace (src_List src)"
    have valid: "own_valid env inp src ses s \<longleftrightarrow> s = s' \<and>
        (ts_Scope s' = [] \<or> ts_Scope s' = sc_Cookie (src_Session src)) \<and> ts_Iss s' = src_Name src \<and>
        (?old \<longrightarrow> listed ses (src_List src) (ts_SID s'))"
      unfolding own_valid_open s' by (auto simp: not_le)
    show ?thesis
    proof (cases "in_Cookie inp = [] \<or> (ts_Scope s' \<noteq> [] \<and> ts_Scope s' \<noteq> sc_Cookie (src_Session src)) \<or>
        ts_Iss s' \<noteq> src_Name src")
      case True
      then show ?thesis unfolding valid by (auto simp: openOwn_def s')
    next
      case pass: False
      show ?thesis
      proof (cases ?old)
        case True
        with pass have "openOwn env inp src ses = (case ses of
              None \<Rightarrow> (None, CodeListUnavailable, bad FindingListDown (lc_Sessions (src_List src)))
            | Some api \<Rightarrow> (case sa_Contains api (lc_Sessions (src_List src)) (ts_SID s') of
                (ok, ready) \<Rightarrow>
                  (if \<not> ready then (None, CodeListUnavailable, bad FindingListDown (lc_Sessions (src_List src)))
                   else if \<not> ok then (None, CodeSessionRevoked, bad FindingSessionRevoked (ts_SID s'))
                   else (Some s', CodeOK, []))))"
          unfolding openOwn_def s' by (simp only: prod.case option.case if_False if_True simp_thms) auto
        then show ?thesis
          unfolding valid listed_def using pass True by (auto split: option.splits prod.splits if_splits)
      next
        case False
        then have "openOwn env inp src ses = (Some s', CodeOK, [])"
          using pass unfolding openOwn_def s' by auto
        then show ?thesis unfolding valid using pass False by auto
      qed
    qed
  next
    case (Some e)
    have "own_valid env inp src ses s \<Longrightarrow>
        OpenSession (de_key env) (de_session_json env) (in_Cookie inp) (in_Now inp) (want_bind env inp src) = (Some s, None)"
      by (simp add: own_valid_open)
    then show ?thesis
      using Pair Some by (cases so; cases e) (auto simp: openOwn_def)
  qed
qed

lemma first_err_Some_in: "first_err cs = Some e \<Longrightarrow> (True, e) \<in> set cs"
  by (induction cs rule: first_err.induct) (auto split: if_splits)

lemma jwt_checks_None:
  "first_err (jwt_checks j tok t) = None \<longleftrightarrow>
     (\<forall>e. Jwt_Int tok (jc_Expiry (jp_Claims j)) = Some e \<longrightarrow>
        unix t \<le> i64 (e + whole_seconds (jv_Leeway (jp_Verify j)))) \<and>
     (\<forall>n. Jwt_Int tok ''nbf'' = Some n \<longrightarrow> i64 (n - whole_seconds (jv_Leeway (jp_Verify j))) \<le> unix t) \<and>
     (jv_Issuer (jp_Verify j) = [] \<or> Jwt_String tok ''iss'' = jv_Issuer (jp_Verify j)) \<and>
     (jv_Audience (jp_Verify j) = [] \<or> jv_Audience (jp_Verify j) \<in> set (Jwt_Strings tok ''aud''))"
  by (auto simp: jwt_checks_def Let_def split: option.splits)

lemma jwt_checks_code: "first_err (jwt_checks j tok t) = Some (code, fs) \<Longrightarrow>
    code \<in> {CodeSessionExpired, CodeSessionBad, CodeSessionSource, CodeSessionScope}"
  by (drule first_err_Some_in) (auto simp: jwt_checks_def Let_def)

lemma jwt_session_sid: "ts_SID (jwt_session env src claims tok e) \<noteq> []"
  by (simp add: jwt_session_def Let_def Jwt_Hash_def)

lemma openJWT_Some:
  "openJWT env inp src j = (Some s, code, fs) \<longleftrightarrow>
     jwt_raw env inp j \<noteq> [] \<and> code = CodeOK \<and> fs = [] \<and>
     (\<exists>tok. jwt_valid env inp j tok \<and> s = jwt_session env src (jp_Claims j) tok
        (case Jwt_Int tok (jc_Expiry (jp_Claims j)) of None \<Rightarrow> 0 | Some e \<Rightarrow> e))"
proof (cases "Jwt_Parse (de_jwt_json env) (jwt_raw env inp j)")
  case (Inl e)
  then show ?thesis
    by (auto simp: openJWT_def Let_def jwt_raw_def [symmetric] jwt_valid_def)
next
  case (Inr tok)
  have valid: "jwt_valid env inp j tok' \<longleftrightarrow> tok' = tok \<and>
      (jv_Alg (jp_Verify j) = JWTAlgNone \<or>
         Jwt_Verify (de_crypto env) tok (jv_Alg (jp_Verify j)) (jp_Key j) = None) \<and>
      first_err (jwt_checks j tok (in_Now inp)) = None" for tok'
    unfolding jwt_checks_None jwt_valid_def Inr by auto
  show ?thesis
    unfolding valid openJWT_def Let_def jwt_raw_def [symmetric] Inr
    by (auto simp del: first_err_None split: option.splits)
qed

lemma openJWT_None:
  assumes "openJWT env inp src j = (None, code, fs)"
  shows "code \<in> {CodeNoSession, CodeSessionBad, CodeSessionExpired, CodeSessionSource, CodeSessionScope}"
proof -
  consider "code = CodeNoSession" | "code = CodeSessionBad"
    | tok where "first_err (jwt_checks j tok (in_Now inp)) = Some (code, fs)"
    using assms
    by (simp add: openJWT_def Let_def del: first_err_None split: if_split_asm sum.split_asm option.split_asm prod.split_asm)
  then show ?thesis
  proof cases
    case 3
    then show ?thesis using jwt_checks_code by fastforce
  qed simp_all
qed

lemma openApp_Some:
  "openApp env inp src ses = (Some s, code, fs) \<Longrightarrow>
     src_Provider src = ProviderApp \<Longrightarrow> credential_valid env inp src ses s \<and> code = CodeOK \<and> fs = []"
  by (auto simp: openApp_def credential_valid_def Let_def split: if_splits option.splits prod.splits)

lemma openApp_None: "openApp env inp src ses = (None, code, fs) \<Longrightarrow> code \<in> {CodeNoSession, CodeListUnavailable}"
  by (auto simp: openApp_def Let_def split: if_splits option.splits prod.splits)

lemma openOwn_None: "openOwn env inp src ses = (None, code, fs) \<Longrightarrow>
    code \<in> {CodeNoSession, CodeSessionExpired, CodeSessionBind, CodeSessionBad, CodeSessionScope,
      CodeSessionSource, CodeListUnavailable, CodeSessionRevoked}"
  by (auto simp: openOwn_def split: if_splits option.splits prod.splits token_error.splits)

lemma open_cred_Some:
  assumes "open_cred env inp p ses = Some (Some s, code, fs)"
  obtains src where "pf_Src p = Some src" "credential_valid env inp src ses s" "code = CodeOK" "fs = []"
proof -
  from assms obtain src where src: "pf_Src p = Some src" by (auto simp: open_cred_def split: option.splits)
  consider (jwt) j where "src_Provider src = ProviderJWT" "pr_JWT (src_Providers src) = Some j"
      "openJWT env inp src j = (Some s, code, fs)"
    | (app) "src_Provider src = ProviderApp" "openApp env inp src ses = (Some s, code, fs)"
    | (own) "src_Provider src \<noteq> ProviderJWT" "src_Provider src \<noteq> ProviderApp"
      "openOwn env inp src ses = (Some s, code, fs)"
    using assms src by (auto simp: open_cred_def split: if_splits)
  then have "credential_valid env inp src ses s \<and> code = CodeOK \<and> fs = []"
  proof cases
    case jwt
    then obtain tok where tok: "jwt_raw env inp j \<noteq> []" "jwt_valid env inp j tok" "code = CodeOK" "fs = []"
      "s = jwt_session env src (jp_Claims j) tok
        (case Jwt_Int tok (jc_Expiry (jp_Claims j)) of None \<Rightarrow> 0 | Some e \<Rightarrow> e)"
      unfolding openJWT_Some by blast
    then show ?thesis
      using jwt jwt_session_sid by (auto simp: credential_valid_def jwt_session_def Let_def)
  next
    case app
    then show ?thesis by (intro openApp_Some)
  next
    case own
    then show ?thesis by (auto simp: openOwn_Some credential_valid_def)
  qed
  with src that show thesis by blast
qed

lemma open_cred_None:
  "open_cred env inp p ses = Some (None, code, fs) \<Longrightarrow> code \<noteq> CodeOK \<and> code \<noteq> []"
  by (auto simp: open_cred_def split: option.splits if_splits
      dest!: openJWT_None openApp_None openOwn_None)


text \<open>A valid credential is one that opens, and its groups are the ones that are looked at.\<close>

lemma credential_valid_opens:
  assumes "credential_valid env inp src ses s" "pf_Src p = Some src"
  obtains s' where "open_cred env inp p ses = Some (Some s', CodeOK, [])" "ts_Groups s' = ts_Groups s"
proof -
  consider (jwt) "src_Provider src = ProviderJWT" | (app) "src_Provider src = ProviderApp"
    | (own) "src_Provider src \<noteq> ProviderJWT" "src_Provider src \<noteq> ProviderApp" by blast
  then show thesis
  proof cases
    case jwt
    then obtain j tok where j: "pr_JWT (src_Providers src) = Some j" "jwt_raw env inp j \<noteq> []" "jwt_valid env inp j tok"
      "ts_Groups s = Jwt_Strings tok (jc_Groups (jp_Claims j))"
      using assms(1) by (auto simp: credential_valid_def)
    let ?s = "jwt_session env src (jp_Claims j) tok (case Jwt_Int tok (jc_Expiry (jp_Claims j)) of None \<Rightarrow> 0 | Some e \<Rightarrow> e)"
    have "openJWT env inp src j = (Some ?s, CodeOK, [])" using j(2,3) unfolding openJWT_Some by blast
    then show thesis
      using that [of ?s] jwt j(1,4) assms(2) by (simp add: open_cred_def jwt_session_def Let_def)
  next
    case app
    then show thesis
      using that assms by (auto simp: credential_valid_def open_cred_def openApp_def Let_def)
  next
    case own
    then have "openOwn env inp src ses = (Some s, CodeOK, [])"
      using assms(1) openOwn_Some by (simp add: credential_valid_def)
    then show thesis using that [of s] own assms(2) by (simp add: open_cred_def)
  qed
qed

text \<open>A client that shows no credential at all, or one of an application that nobody signed in with.\<close>

definition anonymous_client :: "decide_env \<Rightarrow> decide_input \<Rightarrow> source \<Rightarrow> session_api option \<Rightarrow> bool" where
  "anonymous_client env inp src ses \<longleftrightarrow>
     (if src_Provider src = ProviderJWT then \<exists>j. pr_JWT (src_Providers src) = Some j \<and> jwt_raw env inp j = []
      else if src_Provider src = ProviderApp then in_Cookie inp = [] \<or>
        (\<exists>api entry. ses = Some api \<and>
           sa_Lookup api (lc_Sessions (src_List src)) (Learn_Hash (de_sha256 env) (in_Cookie inp)) = (entry, False, True))
      else in_Cookie inp = [])"

lemma openJWT_anonymous:
  assumes "openJWT env inp src j = (None, code, fs)"
  shows "code = CodeNoSession \<longleftrightarrow> jwt_raw env inp j = []"
proof (cases "jwt_raw env inp j = []")
  case True
  then show ?thesis using assms by (auto simp: openJWT_def jwt_raw_def [symmetric] Let_def)
next
  case False
  consider "code = CodeSessionBad" | tok where "first_err (jwt_checks j tok (in_Now inp)) = Some (code, fs)"
    using assms False
    by (simp add: openJWT_def jwt_raw_def [symmetric] Let_def del: first_err_None
        split: if_split_asm sum.split_asm option.split_asm prod.split_asm)
  then show ?thesis
  proof cases
    case 2
    then show ?thesis using jwt_checks_code [OF 2] False by auto
  qed (use False in simp)
qed

lemma openOwn_anonymous:
  assumes "openOwn env inp src ses = (None, code, fs)"
  shows "code = CodeNoSession \<longleftrightarrow> in_Cookie inp = []"
  using assms
  by (auto simp: openOwn_def split: if_splits option.splits prod.splits token_error.splits)

lemma openApp_anonymous:
  assumes "openApp env inp src ses = (None, code, fs)"
  shows "code = CodeNoSession \<longleftrightarrow> in_Cookie inp = [] \<or>
    (\<exists>api entry. ses = Some api \<and>
       sa_Lookup api (lc_Sessions (src_List src)) (Learn_Hash (de_sha256 env) (in_Cookie inp)) = (entry, False, True))"
  using assms
  by (auto simp: openApp_def Let_def split: if_splits option.splits prod.splits)

lemma open_cred_anonymous:
  assumes "open_cred env inp p ses = Some (None, code, fs)" "pf_Src p = Some src"
  shows "code = CodeNoSession \<longleftrightarrow> anonymous_client env inp src ses"
  using assms
  by (auto simp: open_cred_def anonymous_client_def dest!: openApp_anonymous openOwn_anonymous openJWT_anonymous
      split: if_split_asm)


section \<open>Facts about the decision\<close>

lemma zero_result_simps [simp]:
  "rs_Verdict zero_result = []" "rs_Code zero_result = []" "rs_Headers zero_result = Map.empty"
  "rs_Session zero_result = None" "rs_Engine zero_result = Map.empty" "rs_Sessions zero_result = []"
  "rs_Event zero_result = []" "rs_Inline zero_result = False" "rs_Cookies zero_result = []"
  "rs_RedirectURL zero_result = []" "rs_Response zero_result = []"
  by (simp_all add: zero_result_def)

lemma sessionsOf_None [simp]: "sessionsOf src None = []"
  by (simp add: sessionsOf_def split: option.splits)

lemma setHeader_get: "setHeader n v m k = (if k = n \<and> n \<noteq> [] then Some v else m k)"
  by (simp add: setHeader_def)

lemma allow_simps [simp]:
  "rs_Verdict (allow p s code eng) = VerdictAllow" "rs_Code (allow p s code eng) = code"
  "rs_Session (allow p s code eng) = s" "rs_Event (allow p s code eng) = []" "rs_Inline (allow p s code eng) = False"
  "rs_Sessions (allow p s code eng) = sessionsOf (pf_Src p) s"
  "rs_Engine (allow p s code eng) k =
     (case s of None \<Rightarrow> eng k
      | Some s \<Rightarrow> if k = ''sid'' then Some (EStr (ts_SID s))
          else if k = ''sub'' then Some (EStr (ts_Sub s)) else eng k)"
  by (auto simp: allow_def Let_def split: option.splits)

lemma deny_simps [simp]:
  "rs_Verdict (deny p code eng) = VerdictDeny" "rs_Code (deny p code eng) = code"
  "rs_Session (deny p code eng) = None" "rs_Inline (deny p code eng) = False"
  "rs_Engine (deny p code eng) = eng" "rs_Sessions (deny p code eng) = []"
  by (simp_all add: deny_def)

lemma redirect_simps:
  "rs_Verdict (redirect env inp p src code eng) \<in> {VerdictRedirect, VerdictDeny}"
  "rs_Engine (redirect env inp p src code eng) = eng" "rs_Sessions (redirect env inp p src code eng) = []"
  "rs_Code (redirect env inp p src code eng) = code"
  "rs_Inline (redirect env inp p src code eng) = False"
  by (auto simp: redirect_def Let_def split: option.splits)

lemma gate_simps:
  "rs_Verdict (gate env inp p src code eng) \<in> {VerdictRedirect, VerdictDeny}"
  "rs_Engine (gate env inp p src code eng) ''forbidden'' = eng ''forbidden''"
  "rs_Sessions (gate env inp p src code eng) = []"
  "rs_Code (gate env inp p src code eng) = code"
  using redirect_simps [of env inp p src code eng] by (auto simp: gate_def Let_def)

lemma renew_simps [simp]:
  "rs_Verdict (renew_redirect inp p src eng) = VerdictRedirect"
  "rs_Engine (renew_redirect inp p src eng) = eng(''renew'' \<mapsto> EBool True)"
  "rs_Sessions (renew_redirect inp p src eng) = []" "rs_Code (renew_redirect inp p src eng) = CodeRenew"
  "rs_Inline (renew_redirect inp p src eng) = False"
  by (simp_all add: renew_redirect_def Let_def)

lemma check_engine_forbidden [simp]: "check_engine inp p ''forbidden'' = None"
  by (simp add: check_engine_def base_engine_def Let_def)

lemma Check_cases [consumes 2, case_names off self list_down forbidden signed_in anonymous]:
  assumes "in_Profile inp = Some p" "Check env inp ses = Some r"
  obtains
    "pf_Mode p = ModeOff" "r = allow p None CodeOff (base_engine inp p)"
  | "pf_Mode p \<noteq> ModeOff" "OwnPath p (in_URI inp)"
      "r = allow p None CodeSelf ((base_engine inp p)(''self'' \<mapsto> EBool True))"
  | src fs where "pf_Mode p \<noteq> ModeOff" "\<not> OwnPath p (in_URI inp)" "pf_Src p = Some src"
      "open_cred env inp p ses = Some (None, CodeListUnavailable, fs)"
      "r = zero_result\<lparr>rs_Verdict := VerdictError, rs_Code := CodeListUnavailable, rs_Findings := fs,
             rs_Engine := check_engine inp p\<rparr>"
  | src s where "pf_Mode p \<noteq> ModeOff" "\<not> OwnPath p (in_URI inp)" "pf_Src p = Some src"
      "open_cred env inp p ses = Some (Some s, CodeOK, [])" "credential_valid env inp src ses s"
      "\<not> Profile_Allows (de_ct env) p (ts_Groups s)"
      "r = (not_allowed p (check_engine inp p) s)\<lparr>rs_Event := OnForbidden\<rparr>"
  | src s where "pf_Mode p \<noteq> ModeOff" "\<not> OwnPath p (in_URI inp)" "pf_Src p = Some src"
      "open_cred env inp p ses = Some (Some s, CodeOK, [])" "credential_valid env inp src ses s"
      "Profile_Allows (de_ct env) p (ts_Groups s)"
      "r = (with_session env inp p src (priorAsk (in_Prior inp) p) (check_engine inp p) s [])
             \<lparr>rs_Event := OnAuthenticated\<rparr>"
  | src code fs where "pf_Mode p \<noteq> ModeOff" "\<not> OwnPath p (in_URI inp)" "pf_Src p = Some src"
      "open_cred env inp p ses = Some (None, code, fs)" "code \<noteq> CodeListUnavailable" "code \<noteq> CodeOK" "code \<noteq> []"
      "r = (without_session env inp p src (priorAsk (in_Prior inp) p) (check_engine inp p) code fs)
             \<lparr>rs_Event := (if code = CodeNoSession then OnAnonymous else OnInvalid)\<rparr>"
proof -
  have forb: "rs_Engine (not_allowed p eng s) ''forbidden'' \<noteq> None" for eng s
    by (simp add: not_allowed_def Let_def would_def)
  have signed: "rs_Engine (with_session env inp p src asked eng s fs) ''forbidden'' = eng ''forbidden''" for src asked eng s fs
    by (simp add: with_session_def Let_def would_def gate_simps)
  have anon: "rs_Engine (without_session env inp p src asked eng code fs) ''forbidden'' = eng ''forbidden''"
    for src asked eng code fs
    by (simp add: without_session_def would_def gate_simps)
  show thesis
  proof (cases "pf_Mode p = ModeOff \<or> OwnPath p (in_URI inp)")
    case True
    then show thesis
      using assms that(1,2) by (auto simp: Check_def Let_def split: if_splits)
  next
    case False
    then obtain src s code fs where src: "pf_Src p = Some src" and o: "open_cred env inp p ses = Some (s, code, fs)"
      using assms by (auto simp: Check_def Let_def split: option.splits)
    define res where "res = (if code = CodeListUnavailable then
        zero_result\<lparr>rs_Verdict := VerdictError, rs_Code := code, rs_Findings := fs, rs_Engine := check_engine inp p\<rparr>
      else (case s of
              Some s \<Rightarrow>
                (if \<not> Profile_Allows (de_ct env) p (ts_Groups s) then not_allowed p (check_engine inp p) s
                 else with_session env inp p src (priorAsk (in_Prior inp) p) (check_engine inp p) s fs)
            | None \<Rightarrow> without_session env inp p src (priorAsk (in_Prior inp) p) (check_engine inp p) code fs))"
    have r: "r = res\<lparr>rs_Event := eventOf s code res\<rparr>"
      using assms False src o by (simp add: Check_def res_def Let_def)
    show thesis
    proof (cases s)
      case (Some s')
      from open_cred_Some [OF o [unfolded Some]] src have ok: "credential_valid env inp src ses s'" "code = CodeOK" "fs = []"
        by auto
      show thesis
      proof (cases "Profile_Allows (de_ct env) p (ts_Groups s')")
        case True
        show thesis
          by (rule that(5) [of src s']) (use False src o Some ok True r in \<open>auto simp: res_def eventOf_def signed\<close>)
      next
        case no: False
        show thesis
          by (rule that(4) [of src s']) (use False src o Some ok no r forb in \<open>auto simp: res_def eventOf_def\<close>)
      qed
    next
      case None
      from open_cred_None [OF o [unfolded None]] have code: "code \<noteq> CodeOK" "code \<noteq> []" by auto
      show thesis
      proof (cases "code = CodeListUnavailable")
        case True
        show thesis
          by (rule that(3) [of src fs]) (use False src o None True r in \<open>auto simp: res_def eventOf_def\<close>)
      next
        case no: False
        show thesis
          by (rule that(6) [of src code fs]) (use False src o None no code r in \<open>simp_all add: res_def eventOf_def anon\<close>)
      qed
    qed
  qed
qed

lemma not_allowed_verdict:
  "rs_Verdict (not_allowed p eng s) = (if pf_Mode p = ModeObserve then VerdictAllow else VerdictDeny)"
  by (simp add: not_allowed_def Let_def)

lemma with_session_verdict:
  "pf_Mode p = ModeObserve \<Longrightarrow> rs_Verdict (with_session env inp p src asked eng s fs) = VerdictAllow"
  "rs_Verdict (with_session env inp p src asked eng s fs) = VerdictAllow \<Longrightarrow>
     rs_Session (with_session env inp p src asked eng s fs) = Some s"
  "rs_Verdict (with_session env inp p src asked eng s fs) = VerdictRedirect \<Longrightarrow> navigational inp p"
  using gate_simps(1) [of env inp p src CodeReauth "eng(''reauth'' \<mapsto> EBool True)"]
  by (auto simp: with_session_def Let_def split: if_splits)

lemma without_session_verdict:
  "pf_Mode p = ModeObserve \<Longrightarrow> rs_Verdict (without_session env inp p src asked eng code fs) = VerdictAllow"
  "rs_Verdict (without_session env inp p src asked eng code fs) = VerdictAllow \<Longrightarrow>
     pf_Mode p = ModeObserve \<or> (ask_skip asked \<and> rs_Code (without_session env inp p src asked eng code fs) = CodeSkipped)"
  "rs_Verdict (without_session env inp p src asked eng code fs) = VerdictRedirect \<Longrightarrow> navigational inp p"
  using gate_simps(1) [of env inp p src code eng]
  by (auto simp: without_session_def split: if_splits)


section \<open>Facts about asks\<close>

text \<open>What a rule of the profile hears, said without the functions of the rule: an action of the inspector
  it names, or of any; a verb it accepts; and, where it names scopes or codes, one of those. An
  action without a scope is about the request.\<close>

definition action_scope :: "action \<Rightarrow> string" where
  "action_scope act = (if act_Apply act \<noteq> [] then act_Apply act else ApplyRequest)"

definition takes :: "prior_rule \<Rightarrow> string \<Rightarrow> action \<Rightarrow> bool" where
  "takes r from act \<longleftrightarrow> pl_From r \<in> {AnyInspector, from} \<and> act_Do act \<in> set (pl_Accept r) \<and>
     (pl_Apply r \<noteq> [] \<longrightarrow> action_scope act \<in> set (pl_Apply r)) \<and>
     (pl_Codes r \<noteq> [] \<longrightarrow> act_Code act \<in> set (pl_Codes r))"

lemma rule_takes_iff: "rule_takes r from act \<longleftrightarrow> takes r from act"
  by (auto simp: rule_takes_def takes_def PriorRule_Accepts_def PriorRule_WantsAxis_def PriorRule_WantsCode_def
      Action_Scope_def action_scope_def)

definition taken :: "profile \<Rightarrow> string \<Rightarrow> action \<Rightarrow> bool" where
  "taken p from act \<longleftrightarrow> (\<exists>r \<in> set (tr_Prior (pf_Trigger p)). takes r from act)"

definition asks_for :: "profile \<Rightarrow> prior_verdict list \<Rightarrow> string \<Rightarrow> bool" where
  "asks_for p prior verb \<longleftrightarrow>
     (\<exists>v \<in> set prior. (pv_Phase v = [] \<or> pv_Phase v = PhaseRequest) \<and>
        (\<exists>act \<in> set (pv_Actions v). act_Do act = verb \<and>
           (\<exists>r \<in> set (tr_Prior (pf_Trigger p)). takes r (pv_Inspector v) act)))"

text \<open>How an action is reported.\<close>

definition heard :: "profile \<Rightarrow> string \<Rightarrow> action \<Rightarrow> action_outcome" where
  "heard p from act =
     \<lparr>ao_From = from, ao_Do = act_Do act, ao_Apply = action_scope act, ao_Code = act_Code act, ao_Value = act_Value act,
      ao_Delta = act_Delta act, ao_Outcome = (if taken p from act then OutcomeApplied else OutcomeNoRule)\<rparr>"

lemma deliver_rules_spec:
  "deliver_rules from act rs (a, out) =
     (if \<exists>r \<in> set rs. rule_takes r from act
      then ((if act_Do act = DoReauth then a\<lparr>ask_reauth := True\<rparr>
             else if act_Do act = DoSkip then a\<lparr>ask_skip := True\<rparr> else a), OutcomeApplied)
      else (a, out))"
  by (induction rs arbitrary: a out) (auto simp: Let_def)

lemma deliver_spec:
  "ask_skip (deliver p from act a) \<longleftrightarrow> ask_skip a \<or> (taken p from act \<and> act_Do act = DoSkip)"
  "ask_reauth (deliver p from act a) \<longleftrightarrow> ask_reauth a \<or> (taken p from act \<and> act_Do act = DoReauth)"
  "ask_outcomes (deliver p from act a) = ask_outcomes a @ [heard p from act]"
  by (auto simp: deliver_def deliver_rules_spec taken_def rule_takes_iff heard_def action_scope_def Action_Scope_def)

definition deliver_all :: "profile \<Rightarrow> string \<Rightarrow> action list \<Rightarrow> ask \<Rightarrow> ask" where
  "deliver_all p from acts a = foldl (\<lambda>a act. deliver p from act a) a acts"

lemma deliver_all_spec:
  "ask_skip (deliver_all p from acts a) \<longleftrightarrow> ask_skip a \<or> (\<exists>act \<in> set acts. taken p from act \<and> act_Do act = DoSkip)"
  "ask_reauth (deliver_all p from acts a) \<longleftrightarrow> ask_reauth a \<or> (\<exists>act \<in> set acts. taken p from act \<and> act_Do act = DoReauth)"
  "ask_outcomes (deliver_all p from acts a) = ask_outcomes a @ map (heard p from) acts"
  by (induction acts arbitrary: a) (auto simp: deliver_all_def deliver_spec)

definition in_request_phase :: "prior_verdict \<Rightarrow> bool" where
  "in_request_phase v \<longleftrightarrow> pv_Phase v = [] \<or> pv_Phase v = PhaseRequest"

lemma priorAsk_fold:
  "priorAsk prior p = foldl (\<lambda>a v. deliver_all p (pv_Inspector v) (pv_Actions v) a)
     \<lparr>ask_reauth = False, ask_skip = False, ask_outcomes = []\<rparr> (filter in_request_phase prior)"
proof -
  have "foldl (\<lambda>a v. if pv_Phase v \<noteq> [] \<and> pv_Phase v \<noteq> PhaseRequest then a
       else foldl (\<lambda>a act. deliver p (pv_Inspector v) act a) a (pv_Actions v)) a prior =
     foldl (\<lambda>a v. deliver_all p (pv_Inspector v) (pv_Actions v) a) a (filter in_request_phase prior)" for a
    by (induction prior arbitrary: a) (auto simp: in_request_phase_def deliver_all_def)
  then show ?thesis by (simp add: priorAsk_def)
qed

lemma priorAsk_spec_aux:
  fixes p :: profile
  defines "f \<equiv> \<lambda>a v. deliver_all p (pv_Inspector v) (pv_Actions v) a"
  shows "ask_skip (foldl f a vs) \<longleftrightarrow> ask_skip a \<or>
      (\<exists>v \<in> set vs. \<exists>act \<in> set (pv_Actions v). taken p (pv_Inspector v) act \<and> act_Do act = DoSkip)"
    and "ask_reauth (foldl f a vs) \<longleftrightarrow> ask_reauth a \<or>
      (\<exists>v \<in> set vs. \<exists>act \<in> set (pv_Actions v). taken p (pv_Inspector v) act \<and> act_Do act = DoReauth)"
    and "ask_outcomes (foldl f a vs) = ask_outcomes a @ concat (map (\<lambda>v. map (heard p (pv_Inspector v)) (pv_Actions v)) vs)"
  unfolding f_def by (induction vs arbitrary: a) (auto simp: deliver_all_spec)

lemma priorAsk_skip: "ask_skip (priorAsk prior p) \<longleftrightarrow> asks_for p prior DoSkip"
  unfolding priorAsk_fold priorAsk_spec_aux by (auto simp: asks_for_def taken_def in_request_phase_def)

lemma priorAsk_reauth: "ask_reauth (priorAsk prior p) \<longleftrightarrow> asks_for p prior DoReauth"
  unfolding priorAsk_fold priorAsk_spec_aux by (auto simp: asks_for_def taken_def in_request_phase_def)


section \<open>Examples\<close>

definition sample_source :: source where
  "sample_source =
     \<lparr>src_Name = ''main'', src_Login = \<lparr>lg_URI = ''/login'', lg_Title = [], lg_Note = []\<rparr>,
      src_Session = \<lparr>sc_Cookie = ''wafsess'', sc_TTL = 3600 * second, sc_RenewAfter = 1800 * second,
        sc_MaxTTL = 0, sc_Bind = [], sc_V4 = 24, sc_V6 = 64\<rparr>,
      src_Ticket = \<lparr>tc_Cookie = ''waftick'', tc_TTL = 300 * second\<rparr>,
      src_List = \<lparr>lc_Sessions = [], lc_Cookie = [], lc_TTL = 0, lc_Origin = [], lc_Grace = 0\<rparr>,
      src_Upstream = \<lparr>up_User = ''X-User'', up_Groups = ''X-Groups'', up_Method = ''X-Method'',
        up_Cookie = [], up_TTL = 0\<rparr>,
      src_Provider = ProviderLocal, src_IdentityFrom = [],
      src_Providers = \<lparr>pr_LocalUsers = Some ''users'', pr_Code = None, pr_LDAP = None, pr_NTLM = None,
        pr_JWT = None, pr_App = None\<rparr>,
      src_Lockout = \<lparr>lk_Attempts = 3, lk_Window = 60 * second, lk_Lock = 300 * second\<rparr>,
      src_Roster = \<lparr>rc_Store = RosterMemory, rc_Prefix = []\<rparr>, src_Users = Map.empty\<rparr>"

definition sample_profile :: "string \<Rightarrow> profile" where
  "sample_profile mode =
     \<lparr>pf_Name = ''site'', pf_Mode = mode, pf_Source = ''main'',
      pf_Gate = \<lparr>gt_RedirectMethods = [''GET''], gt_RedirectStatus = 302, gt_DenyResponse = ''auth'',
        gt_HTMLOnly = True, gt_Groups = [], gt_ForbiddenResponse = ''forbidden'', gt_Inline = False\<rparr>,
      pf_Trigger = \<lparr>tr_Prior = [\<lparr>pl_From = ''bot'', pl_Accept = [DoSkip], pl_Apply = [], pl_Codes = []\<rparr>],
        tr_ReauthAfter = 0\<rparr>,
      pf_Rules = [], pf_Src = Some sample_source\<rparr>"

definition sample_input :: "string \<Rightarrow> string \<Rightarrow> time \<Rightarrow> decide_input" where
  "sample_input mode cookie now =
     \<lparr>in_Profile = Some (sample_profile mode), in_Ask = ''site'', in_Method = ''GET'', in_URI = ''/a'',
      in_Args = ''x=1'', in_ClientIP = ''192.0.2.1'', in_Headers = [], in_Cookie = cookie,
      in_UserAgent = ''ua'', in_Accept = [], in_SecFetchDest = ''document'', in_UpgradeInsecure = False,
      in_Prior = [], in_StoreUnavailable = [], in_Now = now\<rparr>"

definition sample_crypto :: jwt_crypto where
  "sample_crypto =
     \<lparr>jx_HMAC = (\<lambda>h key msg. key @ rev msg), jx_Digest = (\<lambda>h msg. msg), jx_RSA = (\<lambda>k h d s. False),
      jx_ECDSA = (\<lambda>k d r s. False), jx_PEM = (\<lambda>raw. None), jx_PKIX = (\<lambda>der. None),
      jx_PKCS1 = (\<lambda>der. None), jx_Certificate = (\<lambda>der. None)\<rparr>"

definition sample_env :: decide_env where
  "sample_env =
     \<lparr>de_ct = ascii_tables, de_nt = \<lparr>it_ParseAddr = (\<lambda>_. None), it_ParsePrefix = (\<lambda>_. None),
        it_PrefixString = (\<lambda>_. [])\<rparr>,
      de_sha256 = id, de_key = sample_aead, de_session_json = sample_unmarshal,
      de_ticket_json = (\<lambda>t. Some (tk_Return t)), de_jwt_json = (\<lambda>b. Some [(''alg'', JStr ''HS256'')]),
      de_crypto = sample_crypto, de_id = replicate 16 (CHR ''i''), de_rand = Some sample_nonce\<rparr>"

lemma sample_own_valid:
  "own_valid sample_env (sample_input mode sample_cookie (1000 * second)) sample_source None sample_session"
  using sample_cookie_opens
  by (simp add: own_valid_def sample_env_def sample_input_def sample_source_def sample_session_def
      want_bind_def BindsNet_def BindsUA_def hasBind_def bound_to_def List_Enabled_def unix_def second_def)

lemma sample_not_own_path: "\<not> OwnPath (sample_profile mode) ''/a''"
  by (simp add: OwnPath_def sample_profile_def sample_source_def Learns_def under_login_def
      TrimRightBytes_def HasPrefix_def)

lemma sample_opens:
  "open_cred sample_env (sample_input mode sample_cookie (1000 * second)) (sample_profile mode) None =
     Some (Some sample_session, CodeOK, [])"
proof -
  have "openOwn sample_env (sample_input mode sample_cookie (1000 * second)) sample_source None =
      (Some sample_session, CodeOK, [])"
    unfolding openOwn_Some using sample_own_valid by (simp add: sample_input_def)
  then show ?thesis
    by (simp add: open_cred_def sample_profile_def sample_source_def)
qed

lemma sample_anonymous:
  "open_cred sample_env (sample_input mode [] now) (sample_profile mode) None = Some (None, CodeNoSession, [])"
  by (simp add: open_cred_def sample_profile_def sample_source_def openOwn_def sample_input_def absent_def)

lemma sample_checks:
  "Check sample_env (sample_input ModeEnforce sample_cookie (1000 * second)) None =
     Some ((allow (sample_profile ModeEnforce) (Some sample_session) CodeOK
       (check_engine (sample_input ModeEnforce sample_cookie (1000 * second)) (sample_profile ModeEnforce)))
       \<lparr>rs_Event := OnAuthenticated\<rparr>)"
  unfolding Check_def
  using sample_opens [of ModeEnforce] sample_not_own_path [of ModeEnforce]
  by (simp add: sample_input_def sample_profile_def Let_def with_session_def priorAsk_def
      Profile_Allows_def GroupsAllow_def NeedsRenew_def sample_session_def unix_def second_def eventOf_def)

end
