(* ===== verification/Otp.thy ===== *)
theory Otp
  imports Encoding
begin

text \<open>
  One-time codes (\<open>internal/otp/otp.go\<close>): the secret in base32, the time-step counter and the
  truncation of RFC 4226. HMAC-SHA-1 is the parameter \<open>hmac_sha1\<close>, key first. \<open>None\<close> is a
  panic in \<open>otp_counter\<close> and \<open>otp_At\<close>, and a decoding error in \<open>otp_Secret\<close>.
\<close>

section \<open>The secret\<close>

definition b32_val :: "char \<Rightarrow> nat option" where
  "b32_val c =
     (let n = byte_val c
      in if 65 \<le> n \<and> n \<le> 90 then Some (n - 65)
         else if 50 \<le> n \<and> n \<le> 55 then Some (n - 24) else None)"

text \<open>
  A last quantum of 2, 4, 5 or 7 characters gives 1, 2, 3 or 4 bytes. One of 1, 3 or 6
  characters gives none at all, and no error.
\<close>

fun b32_bytes :: "nat list \<Rightarrow> nat list" where
  "b32_bytes (a # b # c # d # e # f # g # h # xs) =
     [a * 8 + b div 4, b mod 4 * 64 + c * 2 + d div 16, d mod 16 * 16 + e div 2,
      e mod 2 * 128 + f * 4 + g div 8, g mod 8 * 32 + h] @ b32_bytes xs"
| "b32_bytes [a, b, c, d, e, f, g] =
     [a * 8 + b div 4, b mod 4 * 64 + c * 2 + d div 16, d mod 16 * 16 + e div 2,
      e mod 2 * 128 + f * 4 + g div 8]"
| "b32_bytes [a, b, c, d, e] =
     [a * 8 + b div 4, b mod 4 * 64 + c * 2 + d div 16, d mod 16 * 16 + e div 2]"
| "b32_bytes [a, b, c, d] = [a * 8 + b div 4, b mod 4 * 64 + c * 2 + d div 16]"
| "b32_bytes [a, b] = [a * 8 + b div 4]"
| "b32_bytes _ = []"

text \<open>
  \<open>StdEncoding\<close> without padding; line breaks are skipped. Go compares a byte with the padding
  character \<open>-1\<close> cut to 255, a byte that no text \<open>ToUpper\<close> returns has.
\<close>

definition b32_decode :: "string \<Rightarrow> bytes option" where
  "b32_decode s =
     map_option (\<lambda>vs. map char_of (b32_bytes vs))
       (all_some (map b32_val (filter (\<lambda>c. byte_val c \<noteq> 10 \<and> byte_val c \<noteq> 13) s)))"

definition otp_Secret :: "case_tables \<Rightarrow> string \<Rightarrow> bytes option" where
  "otp_Secret ct s =
     b32_decode (ct_upper ct (filter (\<lambda>c. c \<noteq> CHR '' '' \<and> c \<noteq> CHR ''-'') (TrimSpace s)))"


section \<open>The counter\<close>

definition DefaultStep :: duration where "DefaultStep = 30 * second"
definition DefaultDigits :: int where "DefaultDigits = 6"

definition otp_counter :: "time \<Rightarrow> duration \<Rightarrow> int option" where
  "otp_counter at step =
     (let step = (if step \<le> 0 then DefaultStep else step)
      in go_div (unix at) (step div second))"

definition otp_norm :: "int \<Rightarrow> int" where
  "otp_norm digits = (if digits \<le> 0 then DefaultDigits else digits)"


section \<open>The code\<close>

fun big_endian :: "nat \<Rightarrow> nat \<Rightarrow> bytes" where
  "big_endian 0 n = []"
| "big_endian (Suc k) n = big_endian k (n div 256) @ [char_of (n mod 256)]"

text \<open>The decimal digits, filled from the right.\<close>

fun otp_digits :: "nat \<Rightarrow> 32 word \<Rightarrow> string" where
  "otp_digits 0 rest = []"
| "otp_digits (Suc k) rest = otp_digits k (rest div 10) @ [char_of (48 + unat (rest mod 10))]"

text \<open>The 31 bits at the offset the last byte names.\<close>

definition otp_value :: "bytes \<Rightarrow> 32 word" where
  "otp_value mac =
     (let b = (\<lambda>i. of_nat (byte_val (mac ! i)) :: 32 word);
          offset = byte_val (mac ! (length mac - 1)) mod 16
      in or (or (or (push_bit 24 (and (b offset) 0x7f)) (push_bit 16 (b (offset + 1))))
           (push_bit 8 (b (offset + 2)))) (b (offset + 3)))"

fun otp_mod :: "nat \<Rightarrow> 32 word" where
  "otp_mod 0 = 1"
| "otp_mod (Suc k) = otp_mod k * 10"

text \<open>The remainder by zero and a negative length panic.\<close>

definition otp_At :: "(bytes \<Rightarrow> bytes \<Rightarrow> bytes) \<Rightarrow> bytes \<Rightarrow> int \<Rightarrow> int \<Rightarrow> string option" where
  "otp_At hmac_sha1 key counter digits =
     (let mac = hmac_sha1 key (big_endian 8 (nat (counter mod 2 ^ 64)));
          value = otp_value mac;
          m = otp_mod (nat digits)
      in if digits < 0 \<or> m = 0 then None
         else Some (otp_digits (nat digits) (value mod m)))"

definition otp_Code :: "case_tables \<Rightarrow> (bytes \<Rightarrow> bytes \<Rightarrow> bytes) \<Rightarrow> string \<Rightarrow> time \<Rightarrow> duration \<Rightarrow> int
    \<Rightarrow> string option option" where
  "otp_Code ct hmac_sha1 secret at step digits =
     (case otp_Secret ct secret of
        None \<Rightarrow> Some None
      | Some key \<Rightarrow>
          (case otp_counter at step of
             None \<Rightarrow> None
           | Some c \<Rightarrow> map_option Some (otp_At hmac_sha1 key c (otp_norm digits))))"


section \<open>The value of RFC 4226\<close>

definition rfc_value :: "bytes \<Rightarrow> nat" where
  "rfc_value mac =
     (let b = (\<lambda>i. byte_val (mac ! i)); offset = byte_val (mac ! (length mac - 1)) mod 16
      in b offset mod 128 * 2 ^ 24 + b (offset + 1) * 2 ^ 16 + b (offset + 2) * 2 ^ 8 + b (offset + 3))"

text \<open>\<open>n\<close> in \<open>k\<close> decimal digits, the most significant first.\<close>

fun decimal :: "nat \<Rightarrow> nat \<Rightarrow> string" where
  "decimal 0 n = []"
| "decimal (Suc k) n = decimal k (n div 10) @ [char_of (48 + n mod 10)]"

lemma length_decimal [simp]: "length (decimal k n) = k"
  by (induction k arbitrary: n) auto

lemma length_otp_digits [simp]: "length (otp_digits k n) = k"
  by (induction k arbitrary: n) auto

lemma or_low:
  fixes x :: nat
  assumes "y < 2 ^ n"
  shows "or (push_bit n (of_nat x :: 32 word)) (of_nat y) = of_nat (x * 2 ^ n + y)"
proof -
  have y: "take_bit n y = y"
    using assms by (simp add: take_bit_nat_eq_self)
  have "or (push_bit n (of_nat x :: 32 word)) (of_nat y) = push_bit n (of_nat x) + of_nat y"
  proof (rule disjunctive_add [symmetric])
    fix i
    show "\<not> bit (push_bit n (of_nat x :: 32 word)) i \<or> \<not> bit (of_nat y :: 32 word) i"
      by (subst y [symmetric]) (auto simp: bit_push_bit_iff bit_of_nat_iff bit_take_bit_iff)
  qed
  then show ?thesis
    by (simp add: push_bit_eq_mult)
qed

lemma or_byte:
  fixes x :: nat
  assumes "y < 256"
  shows "or (push_bit (n + 8) (of_nat x :: 32 word)) (push_bit n (of_nat y)) = push_bit n (of_nat (x * 256 + y))"
proof -
  have "push_bit (n + 8) (of_nat x :: 32 word) = push_bit n (push_bit 8 (of_nat x))"
    by (simp add: push_bit_push_bit add.commute)
  then have "or (push_bit (n + 8) (of_nat x :: 32 word)) (push_bit n (of_nat y)) =
      push_bit n (or (push_bit 8 (of_nat x)) (of_nat y))"
    by (simp only: push_bit_or)
  then show ?thesis
    using or_low [of y 8 x] assms by simp
qed

lemma rfc_value_less: "rfc_value mac < 2 ^ 31"
proof -
  have small: "a mod 128 * 2 ^ 24 + b * 2 ^ 16 + c * 2 ^ 8 + d < 2 ^ 31"
    if "b < 256" "c < 256" "d < 256" for a b c d :: nat
  proof -
    have "a mod 128 \<le> 127" by simp
    with that show ?thesis by simp
  qed
  show ?thesis
    unfolding rfc_value_def Let_def by (rule small) auto
qed

lemma unat_otp_value: "unat (otp_value mac) = rfc_value mac"
proof -
  define o' where "o' = byte_val (mac ! (length mac - 1)) mod 16"
  define b where "b = (\<lambda>i. byte_val (mac ! i))"
  have b: "b i < 256" for i by (simp add: b_def)
  have "and (of_nat (b o')) (0x7f :: 32 word) = of_nat (b o' mod 128)"
  proof -
    have "and (of_nat (b o')) (0x7f :: 32 word) = take_bit 7 (of_nat (b o'))"
      by (simp add: take_bit_eq_mask mask_eq_exp_minus_1)
    then show ?thesis by (simp add: take_bit_of_nat take_bit_eq_mod [where 'a = nat])
  qed
  then have "otp_value mac = or (or (or (push_bit 24 (of_nat (b o' mod 128)))
      (push_bit 16 (of_nat (b (o' + 1))))) (push_bit 8 (of_nat (b (o' + 2))))) (of_nat (b (o' + 3)))"
    by (simp only: otp_value_def Let_def o'_def b_def)
  also have "\<dots> = of_nat (((b o' mod 128 * 256 + b (o' + 1)) * 256 + b (o' + 2)) * 256 + b (o' + 3))"
    using or_byte [of "b (o' + 1)" 16 "b o' mod 128"] or_byte [of "b (o' + 2)" 8 "b o' mod 128 * 256 + b (o' + 1)"]
      or_byte [of "b (o' + 3)" 0 "(b o' mod 128 * 256 + b (o' + 1)) * 256 + b (o' + 2)"] b
    by simp
  also have "\<dots> = of_nat (rfc_value mac)"
    by (rule arg_cong [of _ _ of_nat]) (simp add: rfc_value_def Let_def o'_def b_def)
  finally have v: "otp_value mac = of_nat (rfc_value mac)" .
  have "rfc_value mac < 2 ^ 31" by (rule rfc_value_less)
  then show ?thesis by (simp add: v unat_of_nat)
qed


lemma otp_mod_nat: "k \<le> 9 \<Longrightarrow> otp_mod k = of_nat (10 ^ k) \<and> unat (otp_mod k) = 10 ^ k"
proof (induction k)
  case (Suc k)
  then have m: "otp_mod (Suc k) = of_nat (10 ^ Suc k)"
    by (simp add: mult.commute)
  have "(10 :: nat) ^ Suc k \<le> 10 ^ 9"
    using Suc.prems by (intro power_increasing) auto
  then have "(10 :: nat) ^ Suc k < 2 ^ 32" by simp
  then have "unat (of_nat (10 ^ Suc k) :: 32 word) = 10 ^ Suc k"
    by (simp only: unat_of_nat) simp
  with m show ?case by simp
qed simp

lemma otp_digits_decimal: "otp_digits k w = decimal k (unat w)"
  by (induction k arbitrary: w) (auto simp: unat_div unat_mod)

text \<open>Up to nine digits the code is the one of RFC 4226.\<close>

lemma otp_At_rfc:
  assumes "0 \<le> digits" "digits \<le> 9"
  shows "otp_At hmac_sha1 key counter digits =
    Some (decimal (nat digits) (rfc_value (hmac_sha1 key (big_endian 8 (nat (counter mod 2 ^ 64)))) mod 10 ^ nat digits))"
proof -
  from assms have k: "nat digits \<le> 9" by simp
  have u: "unat (otp_mod (nat digits)) = 10 ^ nat digits"
    by (rule conjunct2 [OF otp_mod_nat [OF k]])
  then have "otp_mod (nat digits) \<noteq> 0"
    by (metis power_not_zero unat_0 zero_neq_numeral)
  with assms show ?thesis
    by (simp add: otp_At_def Let_def otp_digits_decimal unat_mod unat_otp_value u)
qed

lemma decimal_inject: "m < 10 ^ k \<Longrightarrow> n < 10 ^ k \<Longrightarrow> decimal k m = decimal k n \<Longrightarrow> m = n"
proof (induction k arbitrary: m n)
  case (Suc k)
  from Suc.prems have "m div 10 < 10 ^ k" "n div 10 < 10 ^ k"
    by (simp_all add: less_mult_imp_div_less mult.commute)
  moreover from Suc.prems have "decimal k (m div 10) = decimal k (n div 10)" by simp
  ultimately have "m div 10 = n div 10" by (rule Suc.IH)
  moreover have "m mod 10 = n mod 10"
    using Suc.prems by (intro digit_char_inject) auto
  ultimately show ?case by (metis div_mult_mod_eq)
qed simp


text \<open>With ten digits the power of ten wraps, and the code is the value modulo the rest.\<close>

lemma otp_mod_ten: "unat (otp_mod 10) = 1410065408"
proof -
  have "otp_mod 9 = of_nat (10 ^ 9)"
    by (rule conjunct1 [OF otp_mod_nat]) simp
  then have "otp_mod (Suc 9) = 10000000000"
    unfolding otp_mod.simps(2) by simp
  then show ?thesis by simp
qed

lemma otp_At_ten:
  "otp_At hmac_sha1 key counter 10 =
     Some (decimal 10 (rfc_value (hmac_sha1 key (big_endian 8 (nat (counter mod 2 ^ 64)))) mod 1410065408))"
proof -
  have "otp_mod 10 \<noteq> 0"
    using otp_mod_ten by (metis unat_0 zero_neq_numeral)
  then show ?thesis
    by (simp add: otp_At_def Let_def otp_digits_decimal unat_mod unat_otp_value otp_mod_ten)
qed

lemma otp_counter_panics: "otp_counter at step = None \<longleftrightarrow> 0 < step \<and> step < second"
proof -
  have "step div second = 0 \<longleftrightarrow> step < second" if "0 < step"
    using that by (auto simp: second_def zdiv_eq_0_iff)
  then show ?thesis
    by (auto simp: otp_counter_def go_div_def Let_def DefaultStep_def second_def)
qed

lemma otp_counter_seconds:
  assumes "0 < s" "0 \<le> at"
  shows "otp_counter at (s * second) = Some (unix at div s)"
proof -
  have "\<not> s * second \<le> 0"
    using assms(1) by (simp add: second_def)
  moreover have "s * second div second = s"
    by (simp add: second_def)
  moreover have "0 \<le> unix at"
    using assms(2) by (simp add: unix_def second_def pos_imp_zdiv_nonneg_iff)
  ultimately show ?thesis
    using assms(1) by (cases "unix at = 0") (simp_all add: otp_counter_def go_div_def Let_def)
qed



section \<open>Properties\<close>

text \<open>A code of at most nine digits is the value of RFC 4226: the 31 bits that the last byte of
  the HMAC points at, read without overflow, modulo a power of ten, written in decimal with
  leading zeros, and so of exactly the length asked for.\<close>

theorem otp_is_rfc4226:
  assumes "0 \<le> digits" "digits \<le> 9"
  shows "otp_At hmac_sha1 key counter digits = Some (decimal (nat digits)
      (rfc_value (hmac_sha1 key (big_endian 8 (nat (counter mod 2 ^ 64)))) mod 10 ^ nat digits)) \<and>
    rfc_value (hmac_sha1 key (big_endian 8 (nat (counter mod 2 ^ 64)))) < 2 ^ 31 \<and>
    (\<forall>code. otp_At hmac_sha1 key counter digits = Some code \<longrightarrow> int (length code) = digits)"
  using otp_At_rfc [OF assms] rfc_value_less assms by simp

theorem otp_is_rfc4226_witness:
  "\<exists>code. otp_At (\<lambda>k m. replicate 20 (CHR 0x01)) ''key'' 7 6 = Some code \<and> length code = 6"
  using otp_is_rfc4226 [of 6 "\<lambda>k m. replicate 20 (CHR 0x01)" "''key''" 7] by simp

text \<open>A code of ten digits, which the configuration accepts, is not the one of RFC 4226: the
  power of ten has wrapped around in 32 bits, so the code is the value modulo 1410065408, and it
  differs from the standard's whenever the value reaches that number.\<close>

theorem ten_digits_wrap:
  "otp_At hmac_sha1 key counter 10 = Some (decimal 10
      (rfc_value (hmac_sha1 key (big_endian 8 (nat (counter mod 2 ^ 64)))) mod 1410065408)) \<and>
   (otp_At hmac_sha1 key counter 10 = Some (decimal 10
      (rfc_value (hmac_sha1 key (big_endian 8 (nat (counter mod 2 ^ 64)))))) \<longleftrightarrow>
      rfc_value (hmac_sha1 key (big_endian 8 (nat (counter mod 2 ^ 64)))) < 1410065408)"
proof -
  let ?v = "rfc_value (hmac_sha1 key (big_endian 8 (nat (counter mod 2 ^ 64))))"
  have big: "?v < 10 ^ 10"
    using rfc_value_less [of "hmac_sha1 key (big_endian 8 (nat (counter mod 2 ^ 64)))"] by simp
  have "?v mod 1410065408 < 10 ^ 10"
    by (rule less_trans [of _ 1410065408]) simp_all
  then have "decimal 10 (?v mod 1410065408) = decimal 10 ?v \<longleftrightarrow> ?v mod 1410065408 = ?v"
    using decimal_inject [OF _ big] by auto
  moreover have "?v mod 1410065408 = ?v \<longleftrightarrow> ?v < 1410065408"
    using mod_less_divisor [of 1410065408 ?v] by (metis mod_less zero_less_numeral)
  ultimately show ?thesis
    using otp_At_ten [of hmac_sha1 key counter] by (simp del: power_numeral)
qed

end
