(* ===== verification/Provider.thy ===== *)
theory Provider
  imports Config Token Otp
begin

text \<open>
  Who a client is (\<open>internal/provider\<close>): the local users, the one-time or static code, LDAP and
  NTLM, behind the interface of the locale \<open>provider\<close>. Each \<open>Verify\<close> gets the identity of an
  earlier gate and extends it.

  A \<open>Verify\<close> threads the state \<open>'w\<close> of the directory servers. Its result is \<open>None\<close> when it
  panics, else an error or the identity. bcrypt, HMAC-SHA-1, SHA-256, the secret store, the
  environment and the LDAP client are the records below.
\<close>

section \<open>Data\<close>

datatype perr = ErrInvalid | ErrNotAllowed | ErrUnavailable | ErrUnknownProvider

record credentials =
  cr_Login :: string
  cr_Password :: string
  cr_Code :: string
  cr_ClientIP :: string

record identity =
  id_Subject :: string
  id_Display :: string
  id_Groups :: "string list"
  id_AMR :: "string list"
  id_Cred :: string

definition zero_identity :: identity where
  "zero_identity = \<lparr>id_Subject = [], id_Display = [], id_Groups = [], id_AMR = [], id_Cred = []\<rparr>"

definition id_with :: "string \<Rightarrow> identity \<Rightarrow> identity" where
  "id_with amr i = (if member_loop (id_AMR i) amr then i else i\<lparr>id_AMR := id_AMR i @ [amr]\<rparr>)"

text \<open>The identity a \<open>Verify\<close> starts from: the earlier gate's, or a new one.\<close>

definition identity_or_new :: "identity option \<Rightarrow> identity" where
  "identity_or_new i = (case i of None \<Rightarrow> zero_identity | Some i \<Rightarrow> i)"

abbreviation "FieldLogin \<equiv> ''login''"
abbreviation "FieldPassword \<equiv> ''password''"
abbreviation "FieldCode \<equiv> ''code''"

text \<open>\<open>pe_Secrets\<close> is the \<open>Secrets\<close> interface: \<open>None\<close> when it is nil; a failing \<open>Get\<close> gives \<open>None\<close>.\<close>

record provider_env =
  pe_ct :: case_tables
  pe_sha256 :: "bytes \<Rightarrow> bytes"
  pe_hmac_sha1 :: "bytes \<Rightarrow> bytes \<Rightarrow> bytes"
  pe_bcrypt :: "bytes \<Rightarrow> bytes \<Rightarrow> bool"
  pe_Secrets :: "(string \<Rightarrow> string option) option"
  pe_Getenv :: "string \<Rightarrow> string"
  pe_Now :: time


section \<open>Local users\<close>

definition decoyHash :: string where
  "decoyHash = ''$2a$12$C6UzMDM.H6dfI/f/IKcEe.7BQmv1oPUC4NUnfr5xNgUEy6Z1sKNIu''"

definition user_key :: "case_tables \<Rightarrow> string \<Rightarrow> string" where
  "user_key ct login = ct_lower ct (TrimSpace login)"

definition Local_Verify :: "provider_env \<Rightarrow> (string \<rightharpoonup> user) \<Rightarrow> credentials \<Rightarrow> identity option
    \<Rightarrow> perr + identity" where
  "Local_Verify env users c i =
     (let user = users (user_key (pe_ct env) (cr_Login c));
          hash = (case user of
                    Some u \<Rightarrow> (if us_Password u \<noteq> [] then us_Password u else decoyHash)
                  | None \<Rightarrow> decoyHash);
          match = pe_bcrypt env hash (cr_Password c)
      in case user of
           None \<Rightarrow> Inl ErrInvalid
         | Some u \<Rightarrow>
             (if \<not> match \<or> cr_Password c = [] then Inl ErrInvalid
              else if \<not> User_Active u then Inl ErrNotAllowed
              else (let i = identity_or_new i;
                        i = i\<lparr>id_Subject := us_Login u,
                              id_Cred := Credential (pe_sha256 env) (us_Password u),
                              id_Groups := id_Groups i @ us_Groups u\<rparr>;
                        i = (if us_Display u \<noteq> [] then i\<lparr>id_Display := us_Display u\<rparr> else i)
                    in Inr (id_with ''pwd'' i))))"


section \<open>Codes\<close>

definition secretOf :: "provider_env \<Rightarrow> (string \<rightharpoonup> user) \<Rightarrow> string \<Rightarrow> perr + string" where
  "secretOf env users login =
     (case users (user_key (pe_ct env) login) of
        None \<Rightarrow> Inl ErrNotAllowed
      | Some u \<Rightarrow>
          (if \<not> User_Active u then Inl ErrNotAllowed
           else if us_TOTPStore u \<noteq> [] then
             (case pe_Secrets env of
                None \<Rightarrow> Inl ErrUnavailable
              | Some get \<Rightarrow>
                  (case get (us_TOTPStore u) of None \<Rightarrow> Inl ErrUnavailable | Some secret \<Rightarrow> Inr secret))
           else Inr (us_TOTP u)))"

text \<open>The loop over the skew: the first code that matches. \<open>None\<close> is a panic of \<open>At\<close>.\<close>

fun totp_scan :: "(bytes \<Rightarrow> bytes \<Rightarrow> bytes) \<Rightarrow> bytes \<Rightarrow> int \<Rightarrow> int \<Rightarrow> string \<Rightarrow> int list \<Rightarrow> bool option" where
  "totp_scan hmac secret counter digits entered [] = Some False"
| "totp_scan hmac secret counter digits entered (d # ds) =
     (case otp_At hmac secret (i64 (counter + d)) digits of
        None \<Rightarrow> None
      | Some want \<Rightarrow> (if want = entered then Some True else totp_scan hmac secret counter digits entered ds))"

definition Code_totp :: "provider_env \<Rightarrow> code_provider \<Rightarrow> (string \<rightharpoonup> user) \<Rightarrow> string \<Rightarrow> identity option
    \<Rightarrow> (perr + identity) option" where
  "Code_totp env cfg users entered i =
     (case i of
        None \<Rightarrow> Some (Inl ErrNotAllowed)
      | Some i \<Rightarrow>
          (if id_Subject i = [] then Some (Inl ErrNotAllowed)
           else (case secretOf env users (id_Subject i) of
                   Inl e \<Rightarrow> Some (Inl e)
                 | Inr raw \<Rightarrow>
                     (if raw = [] then Some (Inl ErrNotAllowed)
                      else (case otp_Secret (pe_ct env) raw of
                              None \<Rightarrow> Some (Inl ErrNotAllowed)
                            | Some secret \<Rightarrow>
                                (case otp_counter (pe_Now env) (cp_Period cfg) of
                                   None \<Rightarrow> None
                                 | Some counter \<Rightarrow>
                                     (case totp_scan (pe_hmac_sha1 env) secret counter (cp_Digits cfg) entered
                                            [- cp_Skew cfg .. cp_Skew cfg] of
                                        None \<Rightarrow> None
                                      | Some True \<Rightarrow> Some (Inr (id_with ''totp'' i))
                                      | Some False \<Rightarrow> Some (Inl ErrInvalid))))))))"

definition Code_static :: "provider_env \<Rightarrow> code_provider \<Rightarrow> string \<Rightarrow> credentials \<Rightarrow> identity option
    \<Rightarrow> perr + identity" where
  "Code_static env cfg entered c i =
     (let matched = foldl (\<lambda>m hash. if pe_bcrypt env hash entered then True else m) False (cp_Codes cfg)
      in if \<not> matched then Inl ErrInvalid
         else (let i = identity_or_new i;
                   login = TrimSpace (cr_Login c);
                   i = (if id_Subject i = []
                        then i\<lparr>id_Subject := (if login = [] then ''code'' else login)\<rparr> else i)
               in Inr (id_with ''code'' i)))"

definition Code_Verify :: "provider_env \<Rightarrow> code_provider option \<Rightarrow> (string \<rightharpoonup> user) \<Rightarrow> credentials
    \<Rightarrow> identity option \<Rightarrow> (perr + identity) option" where
  "Code_Verify env cfg users c i =
     (case cfg of
        None \<Rightarrow> Some (Inl ErrUnavailable)
      | Some cfg \<Rightarrow>
          (let entered = TrimSpace (cr_Code c)
           in if entered = [] then Some (Inl ErrInvalid)
              else if cp_Kind cfg = CodeStatic then Some (Code_static env cfg entered c i)
              else Code_totp env cfg users entered i))"


section \<open>Steps on the directory\<close>

type_synonym ('w, 'a) step = "'w \<Rightarrow> (perr + 'a) \<times> 'w"

definition done_with :: "perr + 'a \<Rightarrow> ('w, 'a) step" where
  "done_with r w = (r, w)"

definition and_then :: "('w, 'a) step \<Rightarrow> ('a \<Rightarrow> ('w, 'b) step) \<Rightarrow> ('w, 'b) step" where
  "and_then m f w = (case m w of (Inl e, w) \<Rightarrow> (Inl e, w) | (Inr a, w) \<Rightarrow> f a w)"

text \<open>\<open>defer conn.Close()\<close>.\<close>

definition closing :: "('w \<Rightarrow> 'w) \<Rightarrow> ('w, 'a) step \<Rightarrow> ('w, 'a) step" where
  "closing close m w = (case m w of (r, w) \<Rightarrow> (r, close w))"

lemma and_then_Inr:
  "and_then m f w = (Inr b, w'') \<longleftrightarrow> (\<exists>a w'. m w = (Inr a, w') \<and> f a w' = (Inr b, w''))"
  by (auto simp: and_then_def split: prod.splits sum.splits)

lemma closing_Inr: "closing close m w = (Inr b, w'') \<longleftrightarrow> (\<exists>w'. m w = (Inr b, w') \<and> w'' = close w')"
  by (auto simp: closing_def split: prod.splits)

lemma done_with_Inr: "done_with r w = (Inr b, w') \<longleftrightarrow> r = Inr b \<and> w' = w"
  by (auto simp: done_with_def)

lemmas step_Inr = and_then_Inr closing_Inr done_with_Inr


section \<open>The LDAP client\<close>

record ldap_entry =
  le_DN :: string
  le_values :: "string \<Rightarrow> string list"

definition GetAttributeValue :: "ldap_entry \<Rightarrow> string \<Rightarrow> string" where
  "GetAttributeValue e name = (case le_values e name of [] \<Rightarrow> [] | v # vs \<Rightarrow> v)"

record tls_config =
  tls_InsecureSkipVerify :: bool
  tls_ServerName :: string
  tls_RootCAs :: "bytes option"

record search_request =
  sq_Base :: string
  sq_SizeLimit :: int
  sq_Filter :: string
  sq_Attributes :: "string list"

text \<open>
  The package \<open>go-ldap\<close> and the files it is configured from. \<open>'c\<close> is a connection, \<open>'e\<close> an
  error, \<open>None\<close> in a result no error. \<open>la_IsCode\<close> is \<open>IsErrorWithCode\<close>, \<open>la_AsCode\<close> the
  result code of the \<open>ldap.Error\<close> that \<open>errors.As\<close> finds, \<open>la_Deadline\<close> the time left until
  the context's deadline.
\<close>

record ('w, 'c, 'e) ldap_api =
  la_ReadFile :: "string \<Rightarrow> bytes option"
  la_AppendCerts :: "bytes \<Rightarrow> bool"
  la_DialURL :: "string \<Rightarrow> duration \<Rightarrow> tls_config \<Rightarrow> 'w \<Rightarrow> 'c option \<times> 'w"
  la_SetTimeout :: "'c \<Rightarrow> duration \<Rightarrow> 'w \<Rightarrow> 'w"
  la_StartTLS :: "'c \<Rightarrow> tls_config \<Rightarrow> 'w \<Rightarrow> 'e option \<times> 'w"
  la_Bind :: "'c \<Rightarrow> string \<Rightarrow> string \<Rightarrow> 'w \<Rightarrow> 'e option \<times> 'w"
  la_NTLMBind :: "'c \<Rightarrow> string \<Rightarrow> string \<Rightarrow> string \<Rightarrow> 'w \<Rightarrow> 'e option \<times> 'w"
  la_Search :: "'c \<Rightarrow> search_request \<Rightarrow> 'w \<Rightarrow> ('e + ldap_entry list) \<times> 'w"
  la_Close :: "'c \<Rightarrow> 'w \<Rightarrow> 'w"
  la_IsCode :: "'e \<Rightarrow> nat \<Rightarrow> bool"
  la_AsCode :: "'e \<Rightarrow> nat option"
  la_EscapeDN :: "string \<Rightarrow> string"
  la_EscapeFilter :: "string \<Rightarrow> string"
  la_Deadline :: "duration option"

abbreviation "LDAPResultNoSuchObject \<equiv> 32 :: nat"
abbreviation "LDAPResultInvalidDNSyntax \<equiv> 34 :: nat"
abbreviation "LDAPResultInvalidCredentials \<equiv> 49 :: nat"
abbreviation "LDAPResultInsufficientAccessRights \<equiv> 50 :: nat"
abbreviation "LDAPResultUnwillingToPerform \<equiv> 53 :: nat"

definition defaultLDAPTimeout :: duration where
  "defaultLDAPTimeout = 3 * second"

text \<open>
  \<open>fmt.Sprintf\<close> with one string argument, for formats whose verbs carry no flags and are not
  \<open>q\<close>, \<open>x\<close> or \<open>X\<close>; \<open>arg\<close> is \<open>None\<close> once it is used up.
\<close>

fun sprintf_scan :: "string \<Rightarrow> string \<Rightarrow> bool \<Rightarrow> string" where
  "sprintf_scan arg [] used = (if used then [] else ''%!(EXTRA string='' @ arg @ '')'')"
| "sprintf_scan arg [c] used =
     (if c = CHR ''%'' then ''%!(NOVERB)'' @ sprintf_scan arg [] used else c # sprintf_scan arg [] used)"
| "sprintf_scan arg (c # v # s) used =
     (if c \<noteq> CHR ''%'' then c # sprintf_scan arg (v # s) used
      else if v = CHR ''%'' then CHR ''%'' # sprintf_scan arg s used
      else if used then ''%!'' @ [v] @ ''(MISSING)'' @ sprintf_scan arg s True
      else if v = CHR ''s'' \<or> v = CHR ''v'' then arg @ sprintf_scan arg s True
      else ''%!'' @ [v] @ ''(string='' @ arg @ '')'' @ sprintf_scan arg s True)"

definition Sprintf1 :: "string \<Rightarrow> string \<Rightarrow> string" where
  "Sprintf1 fmt arg = sprintf_scan arg fmt False"

definition ldapErr :: "('w, 'c, 'e) ldap_api \<Rightarrow> 'e option \<Rightarrow> perr option" where
  "ldapErr api err =
     (case err of
        None \<Rightarrow> None
      | Some e \<Rightarrow>
          (if la_IsCode api e LDAPResultInvalidCredentials \<or> la_IsCode api e LDAPResultNoSuchObject
              \<or> la_IsCode api e LDAPResultInvalidDNSyntax then Some ErrInvalid
           else if la_IsCode api e LDAPResultInsufficientAccessRights
              \<or> la_IsCode api e LDAPResultUnwillingToPerform then Some ErrNotAllowed
           else if la_AsCode api e = Some LDAPResultInvalidCredentials then Some ErrInvalid
           else Some ErrUnavailable))"

definition err_step :: "('w \<Rightarrow> perr option \<times> 'w) \<Rightarrow> ('w, unit) step" where
  "err_step m w = (case m w of (None, w) \<Rightarrow> (Inr (), w) | (Some e, w) \<Rightarrow> (Inl e, w))"

definition hostOf :: "string \<Rightarrow> string" where
  "hostOf url =
     (let cut3 = (\<lambda>s. case Cut (CHR ''/'') s of Some (a, _) \<Rightarrow> a | None \<Rightarrow> s);
          rest = (case find (\<lambda>i. HasPrefix (drop i url) ''://'') [0..<length url] of
                    Some i \<Rightarrow> drop (i + 3) url | None \<Rightarrow> url);
          rest = cut3 rest
      in case SplitHostPort rest of Some (host, _) \<Rightarrow> host | None \<Rightarrow> rest)"

definition tlsConfig :: "('w, 'c, 'e) ldap_api \<Rightarrow> string \<Rightarrow> ldap_tls \<Rightarrow> tls_config option" where
  "tlsConfig api url cfg =
     (let out = \<lparr>tls_InsecureSkipVerify = lt_InsecureSkipVerify cfg, tls_ServerName = hostOf url,
                tls_RootCAs = None\<rparr>
      in if lt_CAFile cfg = [] then Some out
         else (case la_ReadFile api (lt_CAFile cfg) of
                 None \<Rightarrow> None
               | Some pem \<Rightarrow> (if la_AppendCerts api pem then Some (out\<lparr>tls_RootCAs := Some pem\<rparr>) else None)))"

definition dial_timeout :: "duration option \<Rightarrow> duration \<Rightarrow> duration" where
  "dial_timeout left timeout =
     (let timeout = (if timeout \<le> 0 then defaultLDAPTimeout else timeout)
      in case left of
           None \<Rightarrow> timeout
         | Some left \<Rightarrow> (if left > 0 \<and> left < timeout then left else timeout))"

definition dial :: "('w, 'c, 'e) ldap_api \<Rightarrow> string \<Rightarrow> bool \<Rightarrow> ldap_tls \<Rightarrow> duration \<Rightarrow> ('w, 'c) step" where
  "dial api url startTLS tls timeout w =
     (let timeout = dial_timeout (la_Deadline api) timeout
      in case tlsConfig api url tls of
           None \<Rightarrow> (Inl ErrUnavailable, w)
         | Some cfg \<Rightarrow>
             (case la_DialURL api url timeout cfg w of
                (None, w) \<Rightarrow> (Inl ErrUnavailable, w)
              | (Some conn, w) \<Rightarrow>
                  (let w = la_SetTimeout api conn timeout w
                   in if startTLS then
                        (case la_StartTLS api conn cfg w of
                           (None, w) \<Rightarrow> (Inr conn, w)
                         | (Some _, w) \<Rightarrow> (Inl ErrUnavailable, la_Close api conn w))
                      else (Inr conn, w))))"


definition servicePassword :: "provider_env \<Rightarrow> ldap_search \<Rightarrow> perr + string" where
  "servicePassword env s =
     (if sr_BindDN s = [] then Inr []
      else if sr_PasswordStore s \<noteq> [] then
        (case pe_Secrets env of
           None \<Rightarrow> Inl ErrUnavailable
         | Some get \<Rightarrow>
             (case get (sr_PasswordStore s) of None \<Rightarrow> Inl ErrUnavailable | Some v \<Rightarrow> Inr v))
      else (let v = pe_Getenv env (sr_PasswordEnv s)
            in if v = [] then Inl ErrUnavailable else Inr v))"

definition serviceBind :: "('w, 'c, 'e) ldap_api \<Rightarrow> 'c \<Rightarrow> ldap_search \<Rightarrow> string \<Rightarrow> ('w, unit) step" where
  "serviceBind api conn s password =
     (if sr_BindDN s = [] then done_with (Inr ())
      else if password = [] then done_with (Inl ErrUnavailable)
      else err_step (\<lambda>w. case la_Bind api conn (sr_BindDN s) password w of
             (e, w) \<Rightarrow> (case ldapErr api e of None \<Rightarrow> (None, w) | Some _ \<Rightarrow> (Some ErrUnavailable, w))))"

definition ldap_search_step :: "('w, 'c, 'e) ldap_api \<Rightarrow> 'c \<Rightarrow> search_request \<Rightarrow> ('w, ldap_entry list) step" where
  "ldap_search_step api conn req w =
     (case la_Search api conn req w of
        (Inl e, w) \<Rightarrow> (case ldapErr api (Some e) of Some p \<Rightarrow> (Inl p, w) | None \<Rightarrow> (Inl ErrUnavailable, w))
      | (Inr es, w) \<Rightarrow> (Inr es, w))"

definition ldap_lookup :: "('w, 'c, 'e) ldap_api \<Rightarrow> 'c \<Rightarrow> ldap_search \<Rightarrow> string \<Rightarrow> string \<Rightarrow> ('w, ldap_entry) step" where
  "ldap_lookup api conn s login password =
     and_then (serviceBind api conn s password) (\<lambda>_.
     and_then (ldap_search_step api conn
        \<lparr>sq_Base = sr_Base s, sq_SizeLimit = 2,
         sq_Filter = Sprintf1 (sr_Filter s) (la_EscapeFilter api login),
         sq_Attributes = [''dn'', ''displayName'', ''memberOf'', ''sAMAccountName'']\<rparr>) (\<lambda>es.
     case es of [e] \<Rightarrow> done_with (Inr e) | _ \<Rightarrow> done_with (Inl ErrInvalid)))"

text \<open>\<open>ldapErr(conn.Bind(...))\<close>.\<close>

definition bind_step :: "('w, 'c, 'e) ldap_api \<Rightarrow> ('w \<Rightarrow> 'e option \<times> 'w) \<Rightarrow> ('w, unit) step" where
  "bind_step api m = err_step (\<lambda>w. case m w of (e, w) \<Rightarrow> (ldapErr api e, w))"

definition ldap_bind :: "('w, 'c, 'e) ldap_api \<Rightarrow> 'c \<Rightarrow> string \<Rightarrow> string \<Rightarrow> ('w, unit) step" where
  "ldap_bind api conn dn password =
     (if dn = [] then done_with (Inl ErrInvalid)
      else bind_step api (la_Bind api conn dn password))"

definition memberOf :: "ldap_entry option \<Rightarrow> string list" where
  "memberOf e = (case e of None \<Rightarrow> [] | Some e \<Rightarrow> le_values e ''memberOf'')"

definition reverseGroups :: "('w, 'c, 'e) ldap_api \<Rightarrow> 'c \<Rightarrow> ldap_search \<Rightarrow> string \<Rightarrow> string
    \<Rightarrow> ('w, string list) step" where
  "reverseGroups api conn s dn password =
     (if sr_Base s = [] \<or> dn = [] then done_with (Inr [])
      else and_then (serviceBind api conn s password) (\<lambda>_.
           and_then (ldap_search_step api conn
             \<lparr>sq_Base = sr_Base s, sq_SizeLimit = 0,
              sq_Filter = ''(&(|(objectClass=groupOfNames)(objectClass=groupOfUniqueNames))(|(member='' @
                la_EscapeFilter api dn @ '')(uniqueMember='' @ la_EscapeFilter api dn @ '')))'',
              sq_Attributes = [''dn'', ''cn'']\<rparr>) (\<lambda>es.
           done_with (Inr (map le_DN es)))))"

definition shortNames :: "string list \<Rightarrow> string list" where
  "shortNames dns =
     map (\<lambda>dn. let first = (case Cut (CHR '','') dn of Some (a, _) \<Rightarrow> a | None \<Rightarrow> dn)
               in case Cut (CHR ''='') first of Some (_, cn) \<Rightarrow> cn | None \<Rightarrow> first) dns"

definition ldap_finish :: "case_tables \<Rightarrow> identity option \<Rightarrow> string \<Rightarrow> ldap_entry option \<Rightarrow> string list
    \<Rightarrow> string list \<Rightarrow> string \<Rightarrow> perr + identity" where
  "ldap_finish ct i login entry groups want amr =
     (let i = identity_or_new i;
          subject = (case entry of
                       None \<Rightarrow> login
                     | Some e \<Rightarrow> (if GetAttributeValue e ''sAMAccountName'' \<noteq> []
                                 then GetAttributeValue e ''sAMAccountName'' else login));
          i = (case entry of
                 None \<Rightarrow> i
               | Some e \<Rightarrow> (if GetAttributeValue e ''displayName'' \<noteq> []
                           then i\<lparr>id_Display := GetAttributeValue e ''displayName''\<rparr> else i))
      in if \<not> GroupsAllow ct groups want then Inl ErrNotAllowed
         else Inr (id_with amr (i\<lparr>id_Subject := subject, id_Groups := id_Groups i @ shortNames groups\<rparr>)))"


section \<open>LDAP\<close>

definition ldap_reverse :: "provider_env \<Rightarrow> ('w, 'c, 'e) ldap_api \<Rightarrow> ldap_provider \<Rightarrow> string \<Rightarrow> ('w, string list) step" where
  "ldap_reverse env api cfg dn =
     and_then (done_with (servicePassword env (lp_Search cfg))) (\<lambda>password.
     and_then (dial api (lp_URL cfg) (lp_StartTLS cfg) (lp_TLS cfg) (lp_Timeout cfg)) (\<lambda>conn.
     closing (la_Close api conn) (reverseGroups api conn (lp_Search cfg) dn password)))"

text \<open>The name to bind with and, for \<open>bind: search\<close>, the entry found.\<close>

definition ldap_target :: "provider_env \<Rightarrow> ('w, 'c, 'e) ldap_api \<Rightarrow> ldap_provider \<Rightarrow> 'c \<Rightarrow> string
    \<Rightarrow> ('w, string \<times> ldap_entry option) step" where
  "ldap_target env api cfg conn login =
     (if lp_Bind cfg = BindUPN then done_with (Inr (login @ lp_UPNSuffix cfg, None))
      else if lp_Bind cfg = BindDNTemplate
        then done_with (Inr (Sprintf1 (lp_DNTemplate cfg) (la_EscapeDN api login), None))
      else if lp_Bind cfg = BindSearch then
        and_then (done_with (servicePassword env (lp_Search cfg))) (\<lambda>password.
        and_then (ldap_lookup api conn (lp_Search cfg) login password) (\<lambda>e.
        done_with (Inr (le_DN e, Some e))))
      else done_with (Inr ([], None)))"

definition LDAP_Verify :: "provider_env \<Rightarrow> ('w, 'c, 'e) ldap_api \<Rightarrow> ldap_provider option \<Rightarrow> credentials
    \<Rightarrow> identity option \<Rightarrow> ('w, identity) step" where
  "LDAP_Verify env api cfg c i =
     (case cfg of
        None \<Rightarrow> done_with (Inl ErrUnavailable)
      | Some cfg \<Rightarrow>
          (let login = TrimSpace (cr_Login c)
           in if login = [] \<or> cr_Password c = [] then done_with (Inl ErrInvalid)
              else and_then (dial api (lp_URL cfg) (lp_StartTLS cfg) (lp_TLS cfg) (lp_Timeout cfg)) (\<lambda>conn.
                   closing (la_Close api conn) (
                     and_then (ldap_target env api cfg conn login) (\<lambda>(dn, entry).
                     and_then (ldap_bind api conn dn (cr_Password c)) (\<lambda>_.
                     and_then
                       (if lp_Bind cfg = BindSearch \<and> memberOf entry = [] \<and> entry \<noteq> None
                        then ldap_reverse env api cfg (case entry of Some e \<Rightarrow> le_DN e | None \<Rightarrow> [])
                        else done_with (Inr (memberOf entry))) (\<lambda>groups.
                     done_with (ldap_finish (pe_ct env) i login entry groups (lp_Groups cfg) ''ldap''))))))))"


section \<open>NTLM\<close>

definition NTLM_Verify :: "provider_env \<Rightarrow> ('w, 'c, 'e) ldap_api \<Rightarrow> ntlm_provider option \<Rightarrow> credentials
    \<Rightarrow> identity option \<Rightarrow> ('w, identity) step" where
  "NTLM_Verify env api cfg c i =
     (case cfg of
        None \<Rightarrow> done_with (Inl ErrUnavailable)
      | Some cfg \<Rightarrow>
          (let trimmed = TrimSpace (cr_Login c);
               (domain, login) = (case Cut (CHR 0x5C) trimmed of
                  Some (d, user) \<Rightarrow> (d, user) | None \<Rightarrow> (np_Domain cfg, trimmed));
               dialed = dial api (np_URL cfg) (np_StartTLS cfg) (np_TLS cfg) (np_Timeout cfg)
           in if login = [] \<or> cr_Password c = [] then done_with (Inl ErrInvalid)
              else and_then dialed (\<lambda>conn. closing (la_Close api conn) (
                   and_then (bind_step api (la_NTLMBind api conn domain login (cr_Password c))) (\<lambda>_.
                   if np_Groups cfg = [] \<and> sr_Base (np_Search cfg) = []
                   then done_with (ldap_finish (pe_ct env) i login None [] (np_Groups cfg) ''ntlm'')
                   else and_then dialed (\<lambda>conn2. closing (la_Close api conn2) (
                     and_then (done_with (servicePassword env (np_Search cfg))) (\<lambda>password.
                     and_then (ldap_lookup api conn2 (np_Search cfg) login password) (\<lambda>e.
                     and_then
                       (if memberOf (Some e) = []
                        then reverseGroups api conn2 (np_Search cfg) (le_DN e) password
                        else done_with (Inr (memberOf (Some e)))) (\<lambda>groups.
                     done_with (ldap_finish (pe_ct env) i login (Some e) groups (np_Groups cfg) ''ntlm'')))))))))))"


section \<open>Build and Run\<close>

datatype provider =
    LocalP "string \<rightharpoonup> user"
  | CodeP "code_provider option" "string \<rightharpoonup> user"
  | LDAPP "ldap_provider option"
  | NTLMP "ntlm_provider option"

definition Provider_Build :: "source \<Rightarrow> perr + provider" where
  "Provider_Build src =
     (if src_Provider src = ProviderLocal then Inr (LocalP (src_Users src))
      else if src_Provider src = ProviderCode then Inr (CodeP (pr_Code (src_Providers src)) (src_Users src))
      else if src_Provider src = ProviderLDAP then Inr (LDAPP (pr_LDAP (src_Providers src)))
      else if src_Provider src = ProviderNTLM then Inr (NTLMP (pr_NTLM (src_Providers src)))
      else Inl ErrUnknownProvider)"

fun Provider_Fields :: "provider \<Rightarrow> string list" where
  "Provider_Fields (LocalP _) = [FieldLogin, FieldPassword]"
| "Provider_Fields (CodeP _ _) = [FieldCode]"
| "Provider_Fields (LDAPP _) = [FieldLogin, FieldPassword]"
| "Provider_Fields (NTLMP _) = [FieldLogin, FieldPassword]"

fun Provider_Verify :: "provider_env \<Rightarrow> ('w, 'c, 'e) ldap_api \<Rightarrow> provider \<Rightarrow> credentials \<Rightarrow> identity option
    \<Rightarrow> 'w \<Rightarrow> (perr + identity) option \<times> 'w" where
  "Provider_Verify env api (LocalP users) c i w = (Some (Local_Verify env users c i), w)"
| "Provider_Verify env api (CodeP cfg users) c i w = (Code_Verify env cfg users c i, w)"
| "Provider_Verify env api (LDAPP cfg) c i w = (case LDAP_Verify env api cfg c i w of (r, w) \<Rightarrow> (Some r, w))"
| "Provider_Verify env api (NTLMP cfg) c i w = (case NTLM_Verify env api cfg c i w of (r, w) \<Rightarrow> (Some r, w))"

text \<open>An identity without a subject is no identity.\<close>

definition checked :: "(perr + identity) option \<times> 'w \<Rightarrow> (perr + identity) option \<times> 'w" where
  "checked r =
     (case r of
        (Some (Inr i), w) \<Rightarrow> (if id_Subject i = [] then (Some (Inl ErrInvalid), w) else (Some (Inr i), w))
      | r \<Rightarrow> r)"

definition Provider_Run :: "provider_env \<Rightarrow> ('w, 'c, 'e) ldap_api \<Rightarrow> provider \<Rightarrow> credentials \<Rightarrow> identity option
    \<Rightarrow> 'w \<Rightarrow> (perr + identity) option \<times> 'w" where
  "Provider_Run env api p c prior w = checked (Provider_Verify env api p c prior w)"


section \<open>What a login has proved\<close>

text \<open>
  What has to be true of a client that a provider accepts, and of the identity \<open>j\<close> it becomes,
  per kind of provider, said without the \<open>Verify\<close>s. \<open>i\<close> is the identity of the earlier gate.

  The local users: an active account of this name, whose password, not empty, is the client's
  (an account without a hash is compared with the decoy).
\<close>

definition local_proof :: "provider_env \<Rightarrow> (string \<rightharpoonup> user) \<Rightarrow> credentials \<Rightarrow> identity option \<Rightarrow> identity \<Rightarrow> bool" where
  "local_proof env users c i j \<longleftrightarrow> (\<exists>u. users (ct_lower (pe_ct env) (TrimSpace (cr_Login c))) = Some u \<and> User_Active u \<and>
     cr_Password c \<noteq> [] \<and> pe_bcrypt env (if us_Password u = [] then decoyHash else us_Password u) (cr_Password c) \<and>
     id_Subject j = us_Login u \<and> id_Groups j = id_Groups (identity_or_new i) @ us_Groups u)"

text \<open>A static code: it is, without the white space around it, one of those configured; it says who
  the client is only where no earlier gate did.\<close>

definition static_proof :: "provider_env \<Rightarrow> code_provider \<Rightarrow> credentials \<Rightarrow> identity option \<Rightarrow> identity \<Rightarrow> bool" where
  "static_proof env k c i j \<longleftrightarrow> TrimSpace (cr_Code c) \<noteq> [] \<and>
     (\<exists>hash \<in> set (cp_Codes k). pe_bcrypt env hash (TrimSpace (cr_Code c))) \<and>
     id_Groups j = id_Groups (identity_or_new i) \<and>
     id_Subject j = (if id_Subject (identity_or_new i) \<noteq> [] then id_Subject (identity_or_new i)
       else if TrimSpace (cr_Login c) \<noteq> [] then TrimSpace (cr_Login c) else ''code'')"

text \<open>The secret of an active account, from the configuration or from the secret store.\<close>

definition holds_secret :: "provider_env \<Rightarrow> (string \<rightharpoonup> user) \<Rightarrow> string \<Rightarrow> string \<Rightarrow> bool" where
  "holds_secret env users login raw \<longleftrightarrow> (\<exists>u. users (ct_lower (pe_ct env) (TrimSpace login)) = Some u \<and> User_Active u \<and>
     (if us_TOTPStore u = [] then raw = us_TOTP u
      else \<exists>get. pe_Secrets env = Some get \<and> get (us_TOTPStore u) = Some raw))"

text \<open>A one-time code: the earlier gate has said who the client is, and the code is the one of that
  account's secret at a time step within the skew. It stays the same client.\<close>

definition totp_proof :: "provider_env \<Rightarrow> code_provider \<Rightarrow> (string \<rightharpoonup> user) \<Rightarrow> credentials \<Rightarrow> identity option \<Rightarrow> identity \<Rightarrow> bool" where
  "totp_proof env k users c i j \<longleftrightarrow> TrimSpace (cr_Code c) \<noteq> [] \<and>
     (\<exists>q raw secret n d. i = Some q \<and> id_Subject q \<noteq> [] \<and> id_Subject j = id_Subject q \<and> id_Groups j = id_Groups q \<and>
        holds_secret env users (id_Subject q) raw \<and> raw \<noteq> [] \<and> otp_Secret (pe_ct env) raw = Some secret \<and>
        otp_counter (pe_Now env) (cp_Period k) = Some n \<and> \<bar>d\<bar> \<le> cp_Skew k \<and>
        otp_At (pe_hmac_sha1 env) secret (i64 (n + d)) (cp_Digits k) = Some (TrimSpace (cr_Code c)))"

lemma totp_proof_subject:
  "totp_proof env k users c (Some q) j \<Longrightarrow> id_Subject j = id_Subject q \<and> TrimSpace (cr_Code c) \<noteq> []"
  by (auto simp: totp_proof_def)

definition code_proof :: "provider_env \<Rightarrow> code_provider option \<Rightarrow> (string \<rightharpoonup> user) \<Rightarrow> credentials \<Rightarrow> identity option \<Rightarrow> identity \<Rightarrow> bool" where
  "code_proof env cfg users c i j \<longleftrightarrow> (\<exists>k. cfg = Some k \<and>
     (if cp_Kind k = CodeStatic then static_proof env k c i j else totp_proof env k users c i j))"

text \<open>The user of a directory: the account name of the entry, or the name that was given.\<close>

definition directory_user :: "string \<Rightarrow> ldap_entry option \<Rightarrow> string" where
  "directory_user login entry = (case entry of
     Some e \<Rightarrow> (case le_values e ''sAMAccountName'' of [] \<Rightarrow> login | v # _ \<Rightarrow> if v = [] then login else v) | None \<Rightarrow> login)"

text \<open>LDAP: the server took a bind with the client's password, not empty, under the name that the
  configuration prescribes for it.\<close>

definition ldap_proof :: "provider_env \<Rightarrow> ('w, 'c, 'e) ldap_api \<Rightarrow> ldap_provider option \<Rightarrow> credentials \<Rightarrow> identity option \<Rightarrow> identity \<Rightarrow> bool" where
  "ldap_proof env api cfg c i j \<longleftrightarrow> cr_Password c \<noteq> [] \<and> TrimSpace (cr_Login c) \<noteq> [] \<and>
     (\<exists>k conn dn entry groups w0 w1 w2. cfg = Some k \<and> dn \<noteq> [] \<and>
        ldap_target env api k conn (TrimSpace (cr_Login c)) w0 = (Inr (dn, entry), w1) \<and>
        la_Bind api conn dn (cr_Password c) w1 = (None, w2) \<and> GroupsAllow (pe_ct env) groups (lp_Groups k) \<and>
        id_Subject j = directory_user (TrimSpace (cr_Login c)) entry \<and>
        id_Groups j = id_Groups (identity_or_new i) @ shortNames groups)"

text \<open>NTLM: the server took the bind of the domain's user with the client's password; the user's
  entry is asked for where there are groups to check or a place to look.\<close>

definition ntlm_proof :: "provider_env \<Rightarrow> ('w, 'c, 'e) ldap_api \<Rightarrow> ntlm_provider option \<Rightarrow> credentials \<Rightarrow> identity option \<Rightarrow> identity \<Rightarrow> bool" where
  "ntlm_proof env api cfg c i j \<longleftrightarrow> cr_Password c \<noteq> [] \<and>
     (\<exists>k conn domain login entry groups w0 w1. cfg = Some k \<and> login \<noteq> [] \<and>
        (domain, login) = (case Cut (CHR 0x5C) (TrimSpace (cr_Login c)) of
           Some (d, user) \<Rightarrow> (d, user) | None \<Rightarrow> (np_Domain k, TrimSpace (cr_Login c))) \<and>
        la_NTLMBind api conn domain login (cr_Password c) w0 = (None, w1) \<and>
        (case entry of None \<Rightarrow> np_Groups k = [] \<and> sr_Base (np_Search k) = [] \<and> groups = []
         | Some e \<Rightarrow> \<exists>conn' password v v'. servicePassword env (np_Search k) = Inr password \<and>
             ldap_lookup api conn' (np_Search k) login password v = (Inr e, v')) \<and>
        GroupsAllow (pe_ct env) groups (np_Groups k) \<and> id_Subject j = directory_user login entry \<and>
        id_Groups j = id_Groups (identity_or_new i) @ shortNames groups)"

section \<open>The interface\<close>

text \<open>
  What every provider promises of a successful \<open>Verify\<close>: the client has \<open>proved\<close> what this kind
  of provider asks for, its factor, and no other, is new among the identity's methods, and the
  groups the earlier gate has put there are still at their front.
\<close>

locale identity_provider =
  fixes verify :: "credentials \<Rightarrow> identity option \<Rightarrow> 'w \<Rightarrow> (perr + identity) option \<times> 'w"
    and amr :: string
    and proved :: "credentials \<Rightarrow> identity option \<Rightarrow> identity \<Rightarrow> bool"
  assumes proves: "verify c i w = (Some (Inr j), w') \<Longrightarrow> proved c i j"
    and adds_method: "verify c i w = (Some (Inr j), w') \<Longrightarrow> set (id_AMR j) = insert amr (set (id_AMR (identity_or_new i)))"
    and keeps_groups: "verify c i w = (Some (Inr j), w') \<Longrightarrow>
      take (length (id_Groups (identity_or_new i))) (id_Groups j) = id_Groups (identity_or_new i)"
begin

lemma run_ok:
  assumes "checked (verify c i w) = (Some (Inr j), w')"
  shows "id_Subject j \<noteq> [] \<and> proved c i j \<and> set (id_AMR j) = insert amr (set (id_AMR (identity_or_new i))) \<and>
    take (length (id_Groups (identity_or_new i))) (id_Groups j) = id_Groups (identity_or_new i)"
proof -
  from assms have "verify c i w = (Some (Inr j), w')" "id_Subject j \<noteq> []"
    by (auto simp: checked_def split: prod.splits option.splits sum.splits if_splits)
  then show ?thesis using proves adds_method keeps_groups by blast
qed

text \<open>A chain of gates: what the first one proved is among the methods after the last.\<close>

lemma after_gate:
  assumes "checked (verify c (Some i) w) = (Some (Inr j), w')" "m \<in> set (id_AMR i)"
  shows "m \<in> set (id_AMR j)"
  using run_ok [OF assms(1)] assms(2) by (simp add: identity_or_new_def)

end

lemma id_with_simps [simp]:
  "set (id_AMR (id_with a i)) = insert a (set (id_AMR i))"
  "id_Subject (id_with a i) = id_Subject i" "id_Groups (id_with a i) = id_Groups i"
  "id_Display (id_with a i) = id_Display i" "id_Cred (id_with a i) = id_Cred i"
  by (auto simp: id_with_def member_loop_iff)

lemma TrimSpace_not_Nil: "TrimSpace s \<noteq> [] \<Longrightarrow> s \<noteq> []"
  by auto

text \<open>A local user passes exactly with the right password, not empty, of an active account.\<close>

lemma Local_Verify_Inr:
  "Local_Verify env users c i = Inr j \<longleftrightarrow>
     (\<exists>u. users (user_key (pe_ct env) (cr_Login c)) = Some u \<and> cr_Password c \<noteq> [] \<and> User_Active u \<and>
        pe_bcrypt env (if us_Password u \<noteq> [] then us_Password u else decoyHash) (cr_Password c) \<and>
        j = id_with ''pwd'' (identity_or_new i\<lparr>id_Subject := us_Login u,
          id_Cred := Credential (pe_sha256 env) (us_Password u),
          id_Groups := id_Groups (identity_or_new i) @ us_Groups u,
          id_Display := (if us_Display u \<noteq> [] then us_Display u else id_Display (identity_or_new i))\<rparr>))"
proof (cases "users (user_key (pe_ct env) (cr_Login c))")
  case (Some u)
  show ?thesis
    by (cases "pe_bcrypt env (if us_Password u \<noteq> [] then us_Password u else decoyHash) (cr_Password c)")
      (simp_all add: Local_Verify_def Some eq_commute [of j] Let_def del: if_not_P)
qed (simp add: Local_Verify_def)

interpretation locals: identity_provider "\<lambda>c i w. (Some (Local_Verify env users c i), w)" "''pwd''" "local_proof env users"
  for env users
  by unfold_locales (auto simp: Local_Verify_Inr local_proof_def user_key_def)

lemma totp_scan_True:
  "totp_scan hmac secret n digits entered ds = Some True \<Longrightarrow>
     \<exists>d \<in> set ds. otp_At hmac secret (i64 (n + d)) digits = Some entered"
  by (induction ds) (auto split: option.splits if_splits)

lemma secretOf_Inr: "secretOf env users login = Inr raw \<Longrightarrow> holds_secret env users login raw"
  by (auto simp: secretOf_def holds_secret_def user_key_def split: option.splits if_splits)

lemma Code_totp_Inr:
  assumes "Code_totp env k users entered i = Some (Inr j)"
  obtains p raw secret n d where "i = Some p" "id_Subject p \<noteq> []" "j = id_with ''totp'' p"
    "holds_secret env users (id_Subject p) raw" "raw \<noteq> []" "otp_Secret (pe_ct env) raw = Some secret"
    "otp_counter (pe_Now env) (cp_Period k) = Some n" "\<bar>d\<bar> \<le> cp_Skew k"
    "otp_At (pe_hmac_sha1 env) secret (i64 (n + d)) (cp_Digits k) = Some entered"
proof -
  from assms obtain p raw secret n where p: "i = Some p" "id_Subject p \<noteq> []" "j = id_with ''totp'' p"
    "secretOf env users (id_Subject p) = Inr raw" "raw \<noteq> []" "otp_Secret (pe_ct env) raw = Some secret"
    "otp_counter (pe_Now env) (cp_Period k) = Some n"
    and scan: "totp_scan (pe_hmac_sha1 env) secret n (cp_Digits k) entered [- cp_Skew k .. cp_Skew k] = Some True"
    by (auto simp: Code_totp_def split: option.splits sum.splits if_splits bool.splits)
  from totp_scan_True [OF scan] obtain d where "- cp_Skew k \<le> d" "d \<le> cp_Skew k"
    "otp_At (pe_hmac_sha1 env) secret (i64 (n + d)) (cp_Digits k) = Some entered" by auto
  then show ?thesis using p secretOf_Inr [OF p(4)] by (intro that) (auto simp: abs_le_iff)
qed

lemma code_matched:
  "foldl (\<lambda>m hash. if pe_bcrypt env hash entered then True else m) m codes \<longleftrightarrow> m \<or> (\<exists>hash \<in> set codes. pe_bcrypt env hash entered)"
  by (induction codes arbitrary: m) auto

lemma Code_static_Inr:
  "Code_static env cfg (TrimSpace (cr_Code c)) c i = Inr j \<Longrightarrow> TrimSpace (cr_Code c) \<noteq> [] \<Longrightarrow>
     set (id_AMR j) = insert ''code'' (set (id_AMR (identity_or_new i))) \<and> static_proof env cfg c i j"
  by (auto simp: Code_static_def static_proof_def code_matched Let_def split: if_splits)

definition code_amr :: "code_provider option \<Rightarrow> string" where
  "code_amr cfg = (case cfg of None \<Rightarrow> [] | Some c \<Rightarrow> if cp_Kind c = CodeStatic then ''code'' else ''totp'')"

lemma Code_Verify_Inr:
  assumes "Code_Verify env cfg users c i = Some (Inr j)"
  shows "code_proof env cfg users c i j \<and> set (id_AMR j) = insert (code_amr cfg) (set (id_AMR (identity_or_new i))) \<and>
    id_Groups j = id_Groups (identity_or_new i)"
proof -
  from assms obtain k where cfg: "cfg = Some k" and t: "TrimSpace (cr_Code c) \<noteq> []"
    and ok: "if cp_Kind k = CodeStatic then Code_static env k (TrimSpace (cr_Code c)) c i = Inr j
       else Code_totp env k users (TrimSpace (cr_Code c)) i = Some (Inr j)"
    by (auto simp: Code_Verify_def Let_def split: option.splits if_splits)
  show ?thesis
  proof (cases "cp_Kind k = CodeStatic")
    case True
    with ok have "Code_static env k (TrimSpace (cr_Code c)) c i = Inr j" by simp
    from Code_static_Inr [OF this t] True cfg show ?thesis by (simp add: code_amr_def code_proof_def static_proof_def)
  next
    case False
    with ok have "Code_totp env k users (TrimSpace (cr_Code c)) i = Some (Inr j)" by simp
    then obtain p raw secret n d where p: "i = Some p" "id_Subject p \<noteq> []" "j = id_with ''totp'' p"
      "holds_secret env users (id_Subject p) raw" "raw \<noteq> []" "otp_Secret (pe_ct env) raw = Some secret"
      "otp_counter (pe_Now env) (cp_Period k) = Some n" "\<bar>d\<bar> \<le> cp_Skew k"
      "otp_At (pe_hmac_sha1 env) secret (i64 (n + d)) (cp_Digits k) = Some (TrimSpace (cr_Code c))"
      by (rule Code_totp_Inr)
    then have "totp_proof env k users c i j"
      using t unfolding totp_proof_def by (intro conjI exI [of _ p] exI [of _ raw] exI [of _ secret] exI [of _ n] exI [of _ d]) simp_all
    with p(1,3) False cfg show ?thesis by (simp add: code_amr_def code_proof_def identity_or_new_def)
  qed
qed

interpretation codes: identity_provider "\<lambda>c i w. (Code_Verify env cfg users c i, w)" "code_amr cfg" "code_proof env cfg users"
  for env cfg users
  by unfold_locales (auto dest: Code_Verify_Inr)

lemma ldap_finish_Inr:
  "ldap_finish ct i login entry groups want amr = Inr j \<Longrightarrow>
     GroupsAllow ct groups want \<and> set (id_AMR j) = insert amr (set (id_AMR (identity_or_new i))) \<and>
     id_Groups j = id_Groups (identity_or_new i) @ shortNames groups \<and> id_Subject j = directory_user login entry"
  by (auto simp: ldap_finish_def directory_user_def GetAttributeValue_def Let_def split: if_splits option.splits list.splits)

text \<open>What a successful LDAP check has done: a bind with the password given, under a name.\<close>

lemma err_step_Inr: "err_step m w = (Inr (), w') \<longleftrightarrow> m w = (None, w')"
  by (auto simp: err_step_def split: prod.splits option.splits)

lemma ldapErr_None: "ldapErr api e = None \<longleftrightarrow> e = None"
  by (auto simp: ldapErr_def split: option.splits)

lemma bind_step_Inr: "bind_step api m w = (Inr (), w') \<longleftrightarrow> m w = (None, w')"
  by (auto simp: bind_step_def err_step_Inr ldapErr_None split: prod.splits)

lemma ldap_bind_Inr:
  "ldap_bind api conn dn password w = (Inr (), w') \<longleftrightarrow> dn \<noteq> [] \<and> la_Bind api conn dn password w = (None, w')"
  by (auto simp: ldap_bind_def step_Inr bind_step_Inr)

lemma LDAP_Verify_Inr:
  assumes "LDAP_Verify env api cfg c i w = (Inr j, w')"
  obtains conn k dn entry groups w0 w1 w2 where
    "cfg = Some k" "TrimSpace (cr_Login c) \<noteq> []" "cr_Password c \<noteq> []" "dn \<noteq> []"
    "ldap_target env api k conn (TrimSpace (cr_Login c)) w0 = (Inr (dn, entry), w1)"
    "la_Bind api conn dn (cr_Password c) w1 = (None, w2)"
    "ldap_finish (pe_ct env) i (TrimSpace (cr_Login c)) entry groups (lp_Groups k) ''ldap'' = Inr j"
  using assms
  by (auto simp: LDAP_Verify_def Let_def step_Inr ldap_bind_Inr split: option.splits if_splits prod.splits)

lemma LDAP_proved:
  assumes "LDAP_Verify env api cfg c i w = (Inr j, w')"
  shows "ldap_proof env api cfg c i j \<and> set (id_AMR j) = insert ''ldap'' (set (id_AMR (identity_or_new i)))"
  using assms
proof (rule LDAP_Verify_Inr)
  fix conn k dn entry groups w0 w1 w2
  assume b: "cfg = Some k" "TrimSpace (cr_Login c) \<noteq> []" "cr_Password c \<noteq> []" "dn \<noteq> []"
    "ldap_target env api k conn (TrimSpace (cr_Login c)) w0 = (Inr (dn, entry), w1)"
    "la_Bind api conn dn (cr_Password c) w1 = (None, w2)"
    and f: "ldap_finish (pe_ct env) i (TrimSpace (cr_Login c)) entry groups (lp_Groups k) ''ldap'' = Inr j"
  from ldap_finish_Inr [OF f] b show ?thesis unfolding ldap_proof_def by blast
qed

lemma NTLM_Verify_Inr:
  assumes "NTLM_Verify env api cfg c i w = (Inr j, w')"
  obtains conn k domain login entry groups w0 w1 where
    "cfg = Some k" "login \<noteq> []" "cr_Password c \<noteq> []"
    "(domain, login) = (case Cut (CHR 0x5C) (TrimSpace (cr_Login c)) of
        Some (d, user) \<Rightarrow> (d, user) | None \<Rightarrow> (np_Domain k, TrimSpace (cr_Login c)))"
    "la_NTLMBind api conn domain login (cr_Password c) w0 = (None, w1)"
    "case entry of None \<Rightarrow> np_Groups k = [] \<and> sr_Base (np_Search k) = [] \<and> groups = []
      | Some e \<Rightarrow> \<exists>conn' password v v'. servicePassword env (np_Search k) = Inr password \<and>
          ldap_lookup api conn' (np_Search k) login password v = (Inr e, v')"
    "ldap_finish (pe_ct env) i login entry groups (np_Groups k) ''ntlm'' = Inr j"
proof -
  from assms obtain k where cfg: "cfg = Some k" by (auto simp: NTLM_Verify_def done_with_def split: option.splits)
  obtain domain login where dl: "(domain, login) = (case Cut (CHR 0x5C) (TrimSpace (cr_Login c)) of
      Some (d, user) \<Rightarrow> (d, user) | None \<Rightarrow> (np_Domain k, TrimSpace (cr_Login c)))"
    by (metis surj_pair)
  let ?plain = "np_Groups k = [] \<and> sr_Base (np_Search k) = []"
  from assms have ne: "login \<noteq> []" "cr_Password c \<noteq> []"
    unfolding NTLM_Verify_def cfg option.case Let_def dl [symmetric] prod.case
    by (auto simp: done_with_def split: if_splits)
  show ?thesis
  proof (cases ?plain)
    case True
    with assms ne show ?thesis
      unfolding NTLM_Verify_def cfg option.case Let_def dl [symmetric] prod.case
      by (auto simp: step_Inr bind_step_Inr intro: that [OF cfg _ _ dl, where entry = None and groups = "[]"])
  next
    case False
    with assms ne have "\<exists>conn e groups w0 w1 conn' password v v'.
        la_NTLMBind api conn domain login (cr_Password c) w0 = (None, w1) \<and>
        servicePassword env (np_Search k) = Inr password \<and> ldap_lookup api conn' (np_Search k) login password v = (Inr e, v') \<and>
        ldap_finish (pe_ct env) i login (Some e) groups (np_Groups k) ''ntlm'' = Inr j"
      unfolding NTLM_Verify_def cfg option.case Let_def dl [symmetric] prod.case
      by (simp add: step_Inr bind_step_Inr split: if_splits) blast+
    then obtain conn e groups w0 w1 conn' password v v' where
      "la_NTLMBind api conn domain login (cr_Password c) w0 = (None, w1)" "servicePassword env (np_Search k) = Inr password"
      "ldap_lookup api conn' (np_Search k) login password v = (Inr e, v')"
      "ldap_finish (pe_ct env) i login (Some e) groups (np_Groups k) ''ntlm'' = Inr j" by blast
    then show ?thesis using ne by (intro that [OF cfg ne dl, where entry = "Some e"]) auto
  qed
qed

lemma NTLM_proved:
  assumes "NTLM_Verify env api cfg c i w = (Inr j, w')"
  shows "ntlm_proof env api cfg c i j \<and> set (id_AMR j) = insert ''ntlm'' (set (id_AMR (identity_or_new i)))"
  using assms
proof (rule NTLM_Verify_Inr)
  fix conn k domain login entry groups w0 w1
  assume b: "cfg = Some k" "login \<noteq> []" "cr_Password c \<noteq> []"
    "(domain, login) = (case Cut (CHR 0x5C) (TrimSpace (cr_Login c)) of
        Some (d, user) \<Rightarrow> (d, user) | None \<Rightarrow> (np_Domain k, TrimSpace (cr_Login c)))"
    "la_NTLMBind api conn domain login (cr_Password c) w0 = (None, w1)"
    "case entry of None \<Rightarrow> np_Groups k = [] \<and> sr_Base (np_Search k) = [] \<and> groups = []
      | Some e \<Rightarrow> \<exists>conn' password v v'. servicePassword env (np_Search k) = Inr password \<and>
          ldap_lookup api conn' (np_Search k) login password v = (Inr e, v')"
    and f: "ldap_finish (pe_ct env) i login entry groups (np_Groups k) ''ntlm'' = Inr j"
  from ldap_finish_Inr [OF f] b show ?thesis unfolding ntlm_proof_def by blast
qed

interpretation ldap: identity_provider
  "\<lambda>c i w. case LDAP_Verify env api cfg c i w of (r, w) \<Rightarrow> (Some r, w)" "''ldap''" "ldap_proof env api cfg"
  for env api cfg
  by unfold_locales (auto split: prod.splits dest!: LDAP_proved simp: ldap_proof_def)

interpretation ntlm: identity_provider
  "\<lambda>c i w. case NTLM_Verify env api cfg c i w of (r, w) \<Rightarrow> (Some r, w)" "''ntlm''" "ntlm_proof env api cfg"
  for env api cfg
  by unfold_locales (auto split: prod.splits dest!: NTLM_proved simp: ntlm_proof_def)


section \<open>Facts on codes\<close>

lemma i64_mod: "i64 x mod 2 ^ 64 = x mod 2 ^ 64"
  by (simp add: i64_def mod_diff_left_eq)

text \<open>The code of RFC 6238 at a time step.\<close>

definition rfc6238 :: "(bytes \<Rightarrow> bytes \<Rightarrow> bytes) \<Rightarrow> bytes \<Rightarrow> int \<Rightarrow> int \<Rightarrow> string" where
  "rfc6238 hmac secret step digits =
     decimal (nat digits) (rfc_value (hmac secret (big_endian 8 (nat (step mod 2 ^ 64)))) mod 10 ^ nat digits)"

lemma totp_scan_rfc:
  assumes "0 \<le> digits" "digits \<le> 9"
  shows "totp_scan hmac secret counter digits entered ds =
    Some (\<exists>d \<in> set ds. entered = rfc6238 hmac secret (counter + d) digits)"
proof -
  have at: "otp_At hmac secret (i64 x) digits = Some (rfc6238 hmac secret x digits)" for x
    using assms by (simp add: otp_At_rfc rfc6238_def i64_mod del: power_numeral)
  show ?thesis
    by (induction ds) (auto simp: at)
qed

lemma Code_totp_accepts:
  assumes "0 \<le> cp_Digits cfg" "cp_Digits cfg \<le> 9" "cp_Period cfg = s * second" "0 < s" "0 \<le> pe_Now env"
  shows "Code_totp env cfg users entered i = Some (Inr j) \<longleftrightarrow>
    (\<exists>p raw secret. i = Some p \<and> id_Subject p \<noteq> [] \<and> secretOf env users (id_Subject p) = Inr raw \<and> raw \<noteq> [] \<and>
       otp_Secret (pe_ct env) raw = Some secret \<and> j = id_with ''totp'' p \<and>
       (\<exists>d. \<bar>d\<bar> \<le> cp_Skew cfg \<and>
          entered = rfc6238 (pe_hmac_sha1 env) secret (unix (pe_Now env) div s + d) (cp_Digits cfg)))"
proof -
  have range: "(\<exists>d \<in> set [- cp_Skew cfg .. cp_Skew cfg]. P d) \<longleftrightarrow> (\<exists>d. \<bar>d\<bar> \<le> cp_Skew cfg \<and> P d)" for P
    by (auto simp: abs_le_iff)
  have c: "otp_counter (pe_Now env) (cp_Period cfg) = Some (unix (pe_Now env) div s)"
    using assms by (simp add: otp_counter_seconds)
  show ?thesis
    unfolding Code_totp_def c
    by (auto simp: totp_scan_rfc [OF assms(1,2)] range simp del: set_upto
        split: option.splits sum.splits bool.splits)
qed


section \<open>Examples\<close>

definition sample_user :: user where
  "sample_user = \<lparr>us_Login = ''alice'', us_Password = ''pw'', us_TOTP = ''MFRGG'', us_TOTPStore = [],
     us_Groups = [''ops''], us_Enabled = None, us_Display = ''Alice''\<rparr>"

definition sample_users :: "string \<rightharpoonup> user" where
  "sample_users = [''alice'' \<mapsto> sample_user]"

definition sample_penv :: provider_env where
  "sample_penv = \<lparr>pe_ct = ascii_tables, pe_sha256 = id, pe_hmac_sha1 = (\<lambda>k m. replicate 20 (CHR 0x01)),
     pe_bcrypt = (\<lambda>hash pw. hash = pw), pe_Secrets = None, pe_Getenv = (\<lambda>_. []), pe_Now = 1000 * second\<rparr>"

definition sample_ldap :: "(unit, unit, nat) ldap_api" where
  "sample_ldap = \<lparr>la_ReadFile = (\<lambda>_. None), la_AppendCerts = (\<lambda>_. False), la_DialURL = (\<lambda>_ _ _ w. (Some (), w)),
     la_SetTimeout = (\<lambda>_ _ w. w), la_StartTLS = (\<lambda>_ _ w. (None, w)),
     la_Bind = (\<lambda>_ dn pw w. (if pw = ''pw'' then None else Some 49, w)), la_NTLMBind = (\<lambda>_ _ _ _ w. (Some 49, w)),
     la_Search = (\<lambda>_ _ w. (Inr [], w)), la_Close = (\<lambda>_ w. w), la_IsCode = (=), la_AsCode = Some,
     la_EscapeDN = id, la_EscapeFilter = id, la_Deadline = None\<rparr>"

definition sample_ldap_cfg :: ldap_provider where
  "sample_ldap_cfg = \<lparr>lp_URL = ''ldap://dc'', lp_StartTLS = False, lp_Bind = BindUPN, lp_UPNSuffix = ''@corp'',
     lp_DNTemplate = [], lp_Timeout = 0, lp_Groups = [],
     lp_Search = \<lparr>sr_Base = [], sr_Filter = [], sr_BindDN = [], sr_PasswordEnv = [], sr_PasswordStore = []\<rparr>,
     lp_TLS = \<lparr>lt_CAFile = [], lt_InsecureSkipVerify = False\<rparr>\<rparr>"

definition sample_creds :: credentials where
  "sample_creds = \<lparr>cr_Login = ''alice'', cr_Password = ''pw'', cr_Code = [], cr_ClientIP = ''192.0.2.1''\<rparr>"

definition sample_code_cfg :: code_provider where
  "sample_code_cfg = \<lparr>cp_Kind = CodeTOTP, cp_Digits = 6, cp_Period = 30 * second, cp_Skew = 1,
     cp_Users = ''users'', cp_Codes = []\<rparr>"

definition sample_prior :: identity where
  "sample_prior = \<lparr>id_Subject = ''alice'', id_Display = [], id_Groups = [''ops''], id_AMR = [''pwd''], id_Cred = []\<rparr>"

lemma visible_alice: "TrimSpace ''alice'' = ''alice''" "TrimSpace ''MFRGG'' = ''MFRGG''"
  by (simp_all add: tidy_visible visible_def)

lemma sample_user_key: "user_key ascii_tables ''alice'' = ''alice''"
  by (simp add: user_key_def visible_alice ascii_tables_def ascii_lower_char_def)

lemma sample_local:
  "Local_Verify sample_penv sample_users sample_creds None = Inr \<lparr>id_Subject = ''alice'', id_Display = ''Alice'',
     id_Groups = [''ops''], id_AMR = [''pwd''], id_Cred = Credential id ''pw''\<rparr>"
  by (simp add: Local_Verify_def sample_penv_def sample_users_def sample_creds_def sample_user_key
      sample_user_def User_Active_def identity_or_new_def zero_identity_def id_with_def)

lemma sample_secret: "otp_Secret ascii_tables ''MFRGG'' = Some ''abc''"
  by (simp add: otp_Secret_def visible_alice b32_decode_def ascii_tables_def ascii_upper_char_def b32_val_def char_of_def bit_Suc_0_iff)

lemma sample_hmac: "rfc_value (replicate 20 (CHR 0x01)) mod 10 ^ 6 = 843009"
  by (simp add: rfc_value_def nth_replicate)

lemma decimal_six: "decimal 6 843009 = ''843009''"
proof -
  have "decimal (Suc (Suc (Suc (Suc (Suc (Suc 0)))))) 843009 = ''843009''"
    by (simp add: char_of_def bit_Suc_0_iff)
  moreover have "Suc (Suc (Suc (Suc (Suc (Suc 0))))) = 6" by simp
  ultimately show ?thesis by (simp only:)
qed

lemma sample_code: "rfc6238 (pe_hmac_sha1 sample_penv) key c 6 = ''843009''"
  using sample_hmac decimal_six by (simp add: rfc6238_def sample_penv_def)



section \<open>Properties\<close>

definition provider_amr :: "provider \<Rightarrow> string" where
  "provider_amr p = (case p of LocalP _ \<Rightarrow> ''pwd'' | CodeP cfg _ \<Rightarrow> code_amr cfg | LDAPP _ \<Rightarrow> ''ldap'' | NTLMP _ \<Rightarrow> ''ntlm'')"

fun gave_secret :: "provider_env \<Rightarrow> ('w, 'c, 'e) ldap_api \<Rightarrow> provider \<Rightarrow> credentials \<Rightarrow> identity option \<Rightarrow> identity \<Rightarrow> bool" where
  "gave_secret env api (LocalP users) = local_proof env users"
| "gave_secret env api (CodeP cfg users) = code_proof env cfg users"
| "gave_secret env api (LDAPP cfg) = ldap_proof env api cfg"
| "gave_secret env api (NTLMP cfg) = ntlm_proof env api cfg"

text \<open>C5: A client that a provider of any kind accepts has proved what that provider asks for, and is who
  it proved to be: the password of the active local account with the name it gave, compared by
  bcrypt; one of the configured codes; the one-time code of the account of the earlier gate's
  subject at a time step within the skew; or a bind that the LDAP server, or the domain, took with
  its own password. The identity has a subject, its methods are the earlier gate's and this
  provider's own and no other, and its groups start with the earlier gate's: no later gate can
  drop what an earlier one proved.\<close>

theorem login_adds_its_factor:
  assumes "Provider_Run env api p c prior w = (Some (Inr j), w')"
  shows "id_Subject j \<noteq> [] \<and> gave_secret env api p c prior j \<and>
    set (id_AMR j) = insert (provider_amr p) (set (id_AMR (identity_or_new prior))) \<and>
    take (length (id_Groups (identity_or_new prior))) (id_Groups j) = id_Groups (identity_or_new prior)"
proof (cases p)
  case (LocalP users)
  then show ?thesis
    using locals.run_ok [of env users c prior w j w'] assms by (simp add: provider_amr_def Provider_Run_def)
next
  case (CodeP cfg users)
  then show ?thesis
    using codes.run_ok [of env cfg users c prior w j w'] assms by (simp add: provider_amr_def Provider_Run_def)
next
  case (LDAPP cfg)
  then show ?thesis
    using ldap.run_ok [of env api cfg c prior w j w'] assms by (simp add: provider_amr_def Provider_Run_def)
next
  case (NTLMP cfg)
  then show ?thesis
    using ntlm.run_ok [of env api cfg c prior w j w'] assms by (simp add: provider_amr_def Provider_Run_def)
qed

theorem login_adds_its_factor_witness:
  "\<exists>j. Provider_Run sample_penv sample_ldap (LocalP sample_users) sample_creds None () = (Some (Inr j), ()) \<and>
     id_Subject j = ''alice'' \<and> set (id_AMR j) = {''pwd''}"
proof -
  obtain j where run: "Provider_Run sample_penv sample_ldap (LocalP sample_users) sample_creds None () = (Some (Inr j), ())"
    by (simp add: Provider_Run_def checked_def sample_local)
  from login_adds_its_factor [OF run] have "local_proof sample_penv sample_users sample_creds None j" "set (id_AMR j) = {''pwd''}"
    by (simp_all add: provider_amr_def identity_or_new_def zero_identity_def)
  then show ?thesis
    using run by (auto simp: local_proof_def sample_users_def sample_user_def split: if_splits)
qed

text \<open>The local provider lets in exactly the client that names an active account and gives its
  password, not empty. It says that an account is disabled only to a client that has its
  password; a client without it gets the same error for an account that is there, one that is
  disabled and one that is not.\<close>

theorem local_login_exact:
  "((\<exists>j. Local_Verify env users c i = Inr j) \<longleftrightarrow>
      (\<exists>u. users (user_key (pe_ct env) (cr_Login c)) = Some u \<and> User_Active u \<and> cr_Password c \<noteq> [] \<and>
         pe_bcrypt env (if us_Password u \<noteq> [] then us_Password u else decoyHash) (cr_Password c))) \<and>
   (Local_Verify env users c i = Inl ErrNotAllowed \<longleftrightarrow>
      (\<exists>u. users (user_key (pe_ct env) (cr_Login c)) = Some u \<and> \<not> User_Active u \<and> cr_Password c \<noteq> [] \<and>
         pe_bcrypt env (if us_Password u \<noteq> [] then us_Password u else decoyHash) (cr_Password c))) \<and>
   Local_Verify env users c i \<noteq> Inl ErrUnavailable \<and> Local_Verify env users c i \<noteq> Inl ErrUnknownProvider"
  by (auto simp: Local_Verify_def Let_def split: option.splits)

text \<open>C28: With up to nine digits and a period of whole seconds, the TOTP step passes exactly for
  the code that RFC 6238 gives for the account's secret at one of the time steps within the
  skew, for the account of the earlier gate's subject, which must be active; and then it keeps
  that subject.\<close>

theorem totp_window:
  assumes "0 \<le> cp_Digits cfg" "cp_Digits cfg \<le> 9" "cp_Period cfg = s * second" "0 < s" "0 \<le> pe_Now env"
  shows "Code_totp env cfg users entered i = Some (Inr j) \<longleftrightarrow>
    (\<exists>p raw secret. i = Some p \<and> id_Subject p \<noteq> [] \<and> secretOf env users (id_Subject p) = Inr raw \<and> raw \<noteq> [] \<and>
       otp_Secret (pe_ct env) raw = Some secret \<and> j = id_with ''totp'' p \<and>
       (\<exists>d. \<bar>d\<bar> \<le> cp_Skew cfg \<and>
          entered = rfc6238 (pe_hmac_sha1 env) secret (unix (pe_Now env) div s + d) (cp_Digits cfg)))"
  using assms by (rule Code_totp_accepts)

theorem totp_window_witness:
  "Code_totp sample_penv sample_code_cfg sample_users ''843009'' (Some sample_prior) = Some (Inr (id_with ''totp'' sample_prior))"
proof -
  have "secretOf sample_penv sample_users (id_Subject sample_prior) = Inr ''MFRGG''"
    by (simp add: secretOf_def sample_prior_def sample_penv_def sample_user_key sample_users_def sample_user_def User_Active_def)
  moreover have "id_Subject sample_prior \<noteq> []" by (simp add: sample_prior_def)
  ultimately show ?thesis
    using sample_secret sample_code [of "''abc''" "unix (pe_Now sample_penv) div 30 + 0"]
    by (subst totp_window [of _ 30])
      (auto simp: sample_code_cfg_def sample_penv_def second_def intro!: exI [of _ 0])
qed

text \<open>C27: An LDAP login succeeds only after a bind, under a name that is not empty and with the
  client's own password, not empty, that the server has accepted; the name is the one the
  configuration prescribes (the login with the suffix, the filled-in template, or the name of
  the single entry the search found), and the account is in an allowed group.\<close>

theorem ldap_login_binds:
  assumes "LDAP_Verify env api (Some cfg) c i w = (Inr j, w')"
  shows "\<exists>conn dn entry groups w0 w1 w2.
    cr_Password c \<noteq> [] \<and> TrimSpace (cr_Login c) \<noteq> [] \<and> dn \<noteq> [] \<and>
    ldap_target env api cfg conn (TrimSpace (cr_Login c)) w0 = (Inr (dn, entry), w1) \<and>
    la_Bind api conn dn (cr_Password c) w1 = (None, w2) \<and>
    GroupsAllow (pe_ct env) groups (lp_Groups cfg) \<and>
    id_Groups j = id_Groups (identity_or_new i) @ shortNames groups"
  using assms
proof (rule LDAP_Verify_Inr)
  fix conn k dn entry groups w0 w1 w2
  assume k: "Some cfg = Some k" and b: "TrimSpace (cr_Login c) \<noteq> []" "cr_Password c \<noteq> []" "dn \<noteq> []"
    "ldap_target env api k conn (TrimSpace (cr_Login c)) w0 = (Inr (dn, entry), w1)"
    "la_Bind api conn dn (cr_Password c) w1 = (None, w2)"
    and f: "ldap_finish (pe_ct env) i (TrimSpace (cr_Login c)) entry groups (lp_Groups k) ''ldap'' = Inr j"
  from ldap_finish_Inr [OF f] k b show ?thesis by blast
qed

theorem ldap_login_binds_witness:
  "\<exists>conn dn entry w0 w1 w2.
    ldap_target sample_penv sample_ldap sample_ldap_cfg conn ''alice'' w0 = (Inr (dn, entry), w1) \<and>
    la_Bind sample_ldap conn dn ''pw'' w1 = (None, w2)"
proof -
  have "\<exists>j. LDAP_Verify sample_penv sample_ldap (Some sample_ldap_cfg) sample_creds None () = (Inr j, ())"
    by (auto simp: LDAP_Verify_def sample_creds_def visible_alice sample_ldap_cfg_def sample_ldap_def
        and_then_def closing_def dial_def tlsConfig_def Let_def ldap_target_def done_with_def ldap_bind_def
        bind_step_def err_step_def ldapErr_def memberOf_def ldap_finish_def GroupsAllow_def)
  then show ?thesis
    using ldap_login_binds [of sample_penv sample_ldap sample_ldap_cfg sample_creds None "()"]
    by (fastforce simp: sample_creds_def visible_alice)
qed

end
