(* ===== verification/Validate.thy ===== *)
theory Validate
  imports Config
begin

text \<open>
  What a configuration must satisfy before it is used: \<open>Validate\<close> of a source and of a profile
  (\<open>internal/config/source.go\<close>, \<open>internal/config/profile.go\<close>) with the defaults both start
  from. A validator is the row of its checks in the order of the code, and its error is the
  constant part of the message. \<open>Source.Validate\<close> also fills in settings left empty, so it
  returns the source.
\<close>

type_synonym verr = string

fun first_some :: "'e option list \<Rightarrow> 'e option" where
  "first_some [] = None"
| "first_some (Some e # xs) = Some e"
| "first_some (None # xs) = first_some xs"

definition refuse :: "bool \<Rightarrow> verr \<Rightarrow> verr option" where
  "refuse bad msg = (if bad then Some msg else None)"

lemma first_some_None [simp]: "first_some xs = None \<longleftrightarrow> (\<forall>x \<in> set xs. x = None)"
  by (induction xs rule: first_some.induct) auto

lemma refuse_None [simp]: "refuse bad msg = None \<longleftrightarrow> \<not> bad"
  by (simp add: refuse_def)


section \<open>Names\<close>

definition upper_char :: "char \<Rightarrow> bool" where
  "upper_char c \<longleftrightarrow> (let n = (of_char c :: nat) in 65 \<le> n \<and> n \<le> 90)"

definition digit_char :: "char \<Rightarrow> bool" where
  "digit_char c \<longleftrightarrow> (let n = (of_char c :: nat) in 48 \<le> n \<and> n \<le> 57)"

definition alnum_char :: "char \<Rightarrow> bool" where
  "alnum_char c \<longleftrightarrow> upper_char c \<or> digit_char c \<or> (let n = (of_char c :: nat) in 97 \<le> n \<and> n \<le> 122)"

text \<open>\<open>^[A-Z][A-Z0-9_]{0,63}$\<close> and \<open>^[A-Za-z0-9][A-Za-z0-9._-]{0,63}$\<close>.\<close>

definition eventCodeRe :: "string \<Rightarrow> bool" where
  "eventCodeRe s \<longleftrightarrow>
     (case s of [] \<Rightarrow> False
      | c # t \<Rightarrow> upper_char c \<and> length t \<le> 63 \<and>
          list_all (\<lambda>d. upper_char d \<or> digit_char d \<or> d = CHR ''_'') t)"

definition eventNameRe :: "string \<Rightarrow> bool" where
  "eventNameRe s \<longleftrightarrow>
     (case s of [] \<Rightarrow> False
      | c # t \<Rightarrow> alnum_char c \<and> length t \<le> 63 \<and>
          list_all (\<lambda>d. alnum_char d \<or> d = CHR ''.'' \<or> d = CHR ''_'' \<or> d = CHR ''-'') t)"


section \<open>Event rules\<close>

definition askTravels :: "string \<Rightarrow> bool" where
  "askTravels on \<longleftrightarrow> on = OnAuthenticated \<or> on = OnOverload"

definition auditVerb :: "string \<Rightarrow> bool" where
  "auditVerb d \<longleftrightarrow> d = DoAudit \<or> d = DoArchive"

definition recordVerb :: "string \<Rightarrow> bool" where
  "recordVerb d \<longleftrightarrow> auditVerb d \<or> d = DoMark \<or> d = DoScore"

definition controlVerb :: "string \<Rightarrow> bool" where
  "controlVerb d \<longleftrightarrow> d = DoActive \<or> d = DoPassive \<or> d = DoVote \<or> d = DoOff"

definition checkPhaseAsk :: "string \<Rightarrow> string \<Rightarrow> string \<Rightarrow> verr option" where
  "checkPhaseAsk d phase apply =
     (if phase = [] then None
      else first_some
        [refuse (\<not> controlVerb d) ''phase is only for active, passive, vote and off'',
         refuse (phase \<noteq> PhaseRequest \<and> phase \<noteq> PhaseResponse \<and> phase \<noteq> PhaseFrame)
           ''phase must be request, response or frame'',
         refuse (apply = ApplyConn \<and> phase \<noteq> PhaseFrame) ''apply conn needs phase frame''])"

text \<open>The axes of a verb in \<open>validateAsk\<close>; \<open>None\<close> is an unknown verb.\<close>

definition ask_axes :: "string \<Rightarrow> string list option" where
  "ask_axes d =
     (if d \<in> set [DoChallenge, DoThreshold, DoSkip, DoMutate] then Some [ApplyRequest]
      else if d = DoReauth then Some [ApplySession]
      else if d = DoNote then Some [ApplyRequest, ApplyIP, ApplyASN, ApplySession]
      else if d \<in> set [DoActive, DoPassive, DoVote, DoOff, DoAudit, DoArchive, DoMark, DoScore]
        then Some [ApplyRequest]
      else None)"

definition out_of :: "int option \<Rightarrow> int \<Rightarrow> int \<Rightarrow> bool" where
  "out_of v lo hi \<longleftrightarrow> (case v of None \<Rightarrow> False | Some x \<Rightarrow> x < lo \<or> x > hi)"

definition value_checks :: "event_rule \<Rightarrow> verr option list" where
  "value_checks r =
     (if er_Do r = DoNote then
        [refuse (er_Value r = None \<or> er_Value r = Some 0) ''note needs a non-zero value'',
         refuse (out_of (er_Value r) (-100) 100) ''value is out of -100..100 percent'',
         refuse (er_Counter r \<noteq> [] \<and> \<not> eventNameRe (er_Counter r)) ''bad counter name'']
      else if er_Do r = DoScore then
        [refuse (er_Value r = None \<or> er_Value r = Some 0) ''score needs a non-zero value'',
         refuse (out_of (er_Value r) (-100) 100) ''value is out of -100..100'',
         refuse (er_Counter r \<noteq> []) ''counter is only for note'']
      else
        [refuse (er_Value r \<noteq> None) ''value is only for note and score'',
         refuse (er_Counter r \<noteq> []) ''counter is only for note''])"

definition has_objects :: "event_rule \<Rightarrow> bool" where
  "has_objects r \<longleftrightarrow> er_Headers r \<noteq> None \<or> er_Args r \<noteq> None \<or> er_Body r \<noteq> None"

definition mutate_checks :: "event_rule \<Rightarrow> verr option list" where
  "mutate_checks r =
     (if er_Do r = DoMutate then
        [refuse (er_Group r = []) ''mutate needs a group'',
         refuse (\<not> eventNameRe (er_Group r)) ''bad group name'',
         refuse (er_Set r \<noteq> ''on'' \<and> er_Set r \<noteq> ''off'') ''mutate needs set: on or off'']
      else [refuse (er_Group r \<noteq> [] \<or> (er_Set r \<noteq> [] \<and> \<not> auditVerb (er_Do r)))
        ''group and set are only for mutate, audit and archive''])"

definition mark_checks :: "event_rule \<Rightarrow> verr option list" where
  "mark_checks r =
     (if er_Do r = DoMark then [refuse (CheckMarker (er_Marker r) \<noteq> None) ''marker'']
      else [refuse (er_Marker r \<noteq> []) ''marker is only for mark''])"

definition object_checks :: "case_tables \<Rightarrow> event_rule \<Rightarrow> verr option list" where
  "object_checks ct r =
     (if auditVerb (er_Do r) then
        [refuse (er_Set r \<noteq> ''on'' \<and> er_Set r \<noteq> ''off'') ''needs set: on or off'',
         refuse (er_Set r = ''off'' \<and> (er_TTL r \<noteq> 0 \<or> er_When r \<noteq> [] \<or> has_objects r))
           ''ttl, when and objects are only for set on'',
         refuse (er_Do r = DoAudit \<and> (er_TTL r \<noteq> 0 \<or> er_When r \<noteq> [])) ''ttl and when are only for archive'',
         refuse (case CheckArchiveWhen ct (er_When r) of Inl _ \<Rightarrow> True | Inr _ \<Rightarrow> False) ''when'',
         refuse (CheckObjectSpec (er_Headers r) \<noteq> None) ''headers'',
         refuse (CheckObjectSpec (er_Args r) \<noteq> None) ''args'',
         refuse (CheckObjectSpec (er_Body r) \<noteq> None) ''body'']
      else
        [refuse (er_When r \<noteq> [] \<or> has_objects r) ''when, headers, args and body are only for audit and archive'',
         refuse (er_TTL r \<noteq> 0) ''ttl is only for a list write or do: archive''])"

definition validateAsk :: "case_tables \<Rightarrow> event_rule \<Rightarrow> verr option" where
  "validateAsk ct r =
     (case ask_axes (er_Do r) of
        None \<Rightarrow> Some ''unknown do''
      | Some axes \<Rightarrow>
          (let apply = (if er_Apply r = [] \<and> length axes = 1 then axes ! 0 else er_Apply r)
           in first_some (
             [refuse (\<not> askTravels (er_On r) \<and> \<not> recordVerb (er_Do r)) ''an ask has nowhere to go'',
              refuse (\<not> list_ex (\<lambda>a. a = apply) axes) ''apply is not allowed'',
              refuse (controlVerb (er_Do r) \<and> er_To r = []) ''needs to: the module switches one call'',
              checkPhaseAsk (er_Do r) (er_Phase r) (EventRule_Axis r),
              refuse (recordVerb (er_Do r) \<and> er_To r \<noteq> []) ''takes no to''] @
             (if er_Do r = DoThreshold then
                [refuse (er_Delta r = None \<or> er_Delta r = Some 0) ''threshold needs a non-zero delta'',
                 refuse (out_of (er_Delta r) (-100) 900) ''delta is out of -100..900 percent'']
              else [refuse (er_Delta r \<noteq> None) ''delta is only for threshold'']) @
             value_checks r @ mutate_checks r @ mark_checks r @ object_checks ct r)))"

definition validateEventRule :: "case_tables \<Rightarrow> event_rule \<Rightarrow> verr option" where
  "validateEventRule ct r = first_some
     [(if er_On r \<in> set [OnAuthenticated, OnAnonymous, OnInvalid, OnForbidden]
       then refuse (er_At r \<noteq> None) ''at is only for on: overload''
       else if er_On r = OnOverload then refuse (\<not> overload_Check (er_At r)) ''at is out of percent of the queue''
       else Some ''on must be authenticated, anonymous, invalid, forbidden or overload''),
      refuse ((er_Do r = []) = (er_List r = [])) ''exactly one of do or list'',
      (if er_Do r \<noteq> [] then
         first_some [refuse (er_Write r \<noteq> []) ''write is only for a list write'', validateAsk ct r]
       else first_some
         [refuse (er_TTL r = 0) ''ttl is required for a list write'',
          refuse (\<not> eventNameRe (er_List r)) ''bad list name'',
          refuse (er_Write r \<notin> set [[], ''addr'', ''net'', ''net_all'', ''asn'']) ''write must be addr, net, net_all or asn'']),
      refuse (er_Code r \<noteq> [] \<and> \<not> eventCodeRe (er_Code r)) ''code is not [A-Z][A-Z0-9_]{0,63}'']"


section \<open>Rules on earlier verdicts\<close>

definition axesOf :: "string \<Rightarrow> string list" where
  "axesOf verb =
     (if verb = DoReauth then [ApplySession]
      else if verb = DoNote then [ApplyRequest, ApplyIP, ApplyASN, ApplySession]
      else if verb \<in> set [DoActive, DoPassive, DoOff, DoVote] then [ApplyRequest, ApplyConn]
      else if verb = DoAudit \<or> verb = DoArchive then [ApplyRequest, ApplyResponse]
      else [ApplyRequest])"

definition axisFits :: "string list \<Rightarrow> string \<Rightarrow> bool" where
  "axisFits verbs axis = list_ex (\<lambda>v. list_ex (\<lambda>a. a = axis) (axesOf v)) verbs"

definition accept_error :: "string \<Rightarrow> verr option" where
  "accept_error verb =
     (if verb = DoReauth \<or> verb = DoSkip then None
      else if verb = DoChallenge \<or> verb = DoThreshold \<or> verb = DoNote then Some ''is not ours to apply''
      else Some ''unknown verb'')"

definition validatePrior :: "prior_rule \<Rightarrow> verr option" where
  "validatePrior r = first_some (
     [refuse (pl_From r = []) ''from is empty'',
      refuse (pl_Accept r = []) ''accept is required''] @
     map accept_error (pl_Accept r) @
     map (\<lambda>axis. first_some
       [refuse (axis \<notin> set [ApplyRequest, ApplyIP, ApplyASN, ApplySession]) ''unknown axis'',
        refuse (\<not> axisFits (pl_Accept r) axis) ''axis never occurs'']) (pl_Apply r) @
     [if pl_From r \<noteq> AnyInspector then None
      else refuse (PriorRule_Accepts r DoSkip) ''skip needs a named sender''])"


section \<open>Profiles\<close>

definition profileDefaults :: "string \<Rightarrow> profile" where
  "profileDefaults name =
     \<lparr>pf_Name = name, pf_Mode = ModeEnforce, pf_Source = [],
      pf_Gate = \<lparr>gt_RedirectMethods = [''GET'', ''HEAD''], gt_RedirectStatus = 303,
        gt_DenyResponse = ''auth_required'', gt_HTMLOnly = True, gt_Groups = [],
        gt_ForbiddenResponse = ''auth_forbidden'', gt_Inline = False\<rparr>,
      pf_Trigger = \<lparr>tr_Prior = [], tr_ReauthAfter = 5 * minute\<rparr>, pf_Rules = [], pf_Src = None\<rparr>"

definition Profile_Validate :: "case_tables \<Rightarrow> profile \<Rightarrow> verr option" where
  "Profile_Validate ct p = first_some (
     [refuse (pf_Mode p \<noteq> ModeEnforce \<and> pf_Mode p \<noteq> ModeObserve \<and> pf_Mode p \<noteq> ModeOff)
        ''mode must be enforce, observe or off'',
      refuse (pf_Mode p \<noteq> ModeOff \<and> pf_Source p = []) ''source is empty''] @
     map validatePrior (tr_Prior (pf_Trigger p)) @
     map (validateEventRule ct) (pf_Rules p) @
     [refuse (gt_RedirectStatus (pf_Gate p) \<notin> set [302, 303, 307]) ''gate.redirect_status must be 302, 303 or 307'',
      refuse (gt_DenyResponse (pf_Gate p) = []) ''gate.deny_response is empty''] @
     map (\<lambda>g. refuse (TrimSpace g = []) ''gate.groups is empty'') (gt_Groups (pf_Gate p)) @
     [refuse (gt_Groups (pf_Gate p) \<noteq> [] \<and> gt_ForbiddenResponse (pf_Gate p) = []) ''gate.forbidden_response is empty''] @
     map (\<lambda>m. refuse (m \<noteq> ct_upper ct m) ''method must be upper case'') (gt_RedirectMethods (pf_Gate p)))"



section \<open>Sources\<close>

definition hour :: duration where
  "hour = 60 * minute"

definition sourceDefaults :: "string \<Rightarrow> source" where
  "sourceDefaults name =
     \<lparr>src_Name = name, src_Login = \<lparr>lg_URI = [], lg_Title = [], lg_Note = []\<rparr>,
      src_Session = \<lparr>sc_Cookie = ''waf_sid_'' @ name, sc_TTL = 8 * hour, sc_RenewAfter = 0, sc_MaxTTL = 0,
        sc_Bind = [BindNet, BindUA], sc_V4 = 24, sc_V6 = 64\<rparr>,
      src_Ticket = \<lparr>tc_Cookie = ''waf_lgn_'' @ name, tc_TTL = 10 * minute\<rparr>,
      src_List = \<lparr>lc_Sessions = [], lc_Cookie = ''waf_sess'', lc_TTL = 0, lc_Origin = [], lc_Grace = 0\<rparr>,
      src_Upstream = \<lparr>up_User = ''X-WAF-User'', up_Groups = ''X-WAF-Groups'', up_Method = ''X-WAF-Auth'',
        up_Cookie = [], up_TTL = 0\<rparr>,
      src_Provider = [], src_IdentityFrom = [],
      src_Providers = \<lparr>pr_LocalUsers = None, pr_Code = None, pr_LDAP = None, pr_NTLM = None,
        pr_JWT = None, pr_App = None\<rparr>,
      src_Lockout = \<lparr>lk_Attempts = 5, lk_Window = 10 * minute, lk_Lock = 15 * minute\<rparr>,
      src_Roster = \<lparr>rc_Store = RosterRedis, rc_Prefix = ''auth:''\<rparr>, src_Users = Map.empty\<rparr>"

definition isBcrypt :: "string \<Rightarrow> bool" where
  "isBcrypt s \<longleftrightarrow> HasPrefix s ''$2a$'' \<or> HasPrefix s ''$2b$'' \<or> HasPrefix s ''$2y$''"

text \<open>The decoded users, a null entry being \<open>None\<close>, become the map the logins are looked up in.\<close>

fun parse_users :: "case_tables \<Rightarrow> user option list \<Rightarrow> (string \<rightharpoonup> user) \<Rightarrow> verr + (string \<rightharpoonup> user)" where
  "parse_users ct [] out = Inr out"
| "parse_users ct (None # us) out = Inl ''login is empty''"
| "parse_users ct (Some u # us) out =
     (if TrimSpace (us_Login u) = [] then Inl ''login is empty''
      else (let key = ct_lower ct (TrimSpace (us_Login u))
            in if out key \<noteq> None then Inl ''login is declared twice''
               else if \<not> isBcrypt (us_Password u) then Inl ''password is not a bcrypt hash''
               else if us_TOTP u \<noteq> [] \<and> us_TOTPStore u \<noteq> [] then Inl ''totp and totp_store are mutually exclusive''
               else parse_users ct us (out(key \<mapsto> u))))"

definition ParseUsers :: "case_tables \<Rightarrow> user option list \<Rightarrow> verr + (string \<rightharpoonup> user)" where
  "ParseUsers ct us = parse_users ct us Map.empty"

definition validateSearchSecret :: "ldap_search \<Rightarrow> verr option" where
  "validateSearchSecret s =
     (if sr_BindDN s = [] then None
      else first_some
        [refuse (sr_PasswordEnv s \<noteq> [] \<and> sr_PasswordStore s \<noteq> []) ''password_env and password_store are mutually exclusive'',
         refuse (sr_PasswordEnv s = [] \<and> sr_PasswordStore s = []) ''bind_dn needs password_env or password_store''])"

definition validateCode :: "source \<Rightarrow> verr option" where
  "validateCode s =
     (case pr_Code (src_Providers s) of
        None \<Rightarrow> Some ''providers.code is not set''
      | Some c \<Rightarrow>
          (if cp_Kind c = CodeTOTP then first_some
             [refuse (cp_Digits c < 6 \<or> cp_Digits c > 10) ''digits must be within 6..10'',
              refuse (cp_Period c \<le> 0) ''period must be positive'',
              refuse (cp_Skew c < 0 \<or> cp_Skew c > 5) ''skew must be within 0..5'',
              refuse (src_IdentityFrom s = []) ''kind totp needs identity.from'',
              refuse (cp_Users c = []) ''users is not set'']
           else if cp_Kind c = CodeStatic then first_some (
              refuse (cp_Codes c = []) ''codes is empty'' #
              map (\<lambda>h. refuse (\<not> isBcrypt h) ''is not a bcrypt hash'') (cp_Codes c))
           else Some ''kind must be totp or static''))"

definition validateLDAP :: "source \<Rightarrow> verr option" where
  "validateLDAP s =
     (case pr_LDAP (src_Providers s) of
        None \<Rightarrow> Some ''providers.ldap.url is not set''
      | Some l \<Rightarrow> first_some
          [refuse (lp_URL l = []) ''providers.ldap.url is not set'',
           (if lp_Bind l = BindUPN then refuse (lp_UPNSuffix l = []) ''upn_suffix is required''
            else if lp_Bind l = BindDNTemplate then refuse (\<not> ContainsStr (lp_DNTemplate l) ''%s'') ''dn_template must contain %s''
            else if lp_Bind l = BindSearch then
              refuse (sr_Base (lp_Search l) = [] \<or> \<not> ContainsStr (sr_Filter (lp_Search l)) ''%s'') ''search needs base and a filter with %s''
            else Some ''bind must be upn, dn_template or search''),
           refuse (lp_Groups l \<noteq> [] \<and> lp_Bind l \<noteq> BindSearch) ''groups requires bind: search'',
           validateSearchSecret (lp_Search l)])"

definition validateNTLM :: "source \<Rightarrow> verr option" where
  "validateNTLM s =
     (case pr_NTLM (src_Providers s) of
        None \<Rightarrow> Some ''providers.ntlm.url is not set''
      | Some n \<Rightarrow> first_some
          [refuse (np_URL n = []) ''providers.ntlm.url is not set'',
           refuse (np_Domain n = []) ''providers.ntlm.domain is not set'',
           validateSearchSecret (np_Search n)])"

definition jwtAlgs :: "string list" where
  "jwtAlgs = [''HS256'', ''HS384'', ''HS512'', ''RS256'', ''RS384'', ''RS512'', ''ES256'', ''ES384'', JWTAlgNone]"

definition or_default :: "string \<Rightarrow> string \<Rightarrow> string" where
  "or_default v d = (if v = [] then d else v)"

definition jwt_defaults :: "jwt_provider \<Rightarrow> jwt_provider" where
  "jwt_defaults j = j\<lparr>jp_Claims := (jp_Claims j)
     \<lparr>jc_User := or_default (jc_User (jp_Claims j)) ''sub'', jc_Session := or_default (jc_Session (jp_Claims j)) ''sid'',
      jc_Issued := or_default (jc_Issued (jp_Claims j)) ''iat'', jc_Expiry := or_default (jc_Expiry (jp_Claims j)) ''exp''\<rparr>\<rparr>"

definition jwt_checks_cfg :: "source \<Rightarrow> jwt_provider \<Rightarrow> verr option list" where
  "jwt_checks_cfg s j =
     (let v = jp_Verify j; file = jv_KeyFile v \<noteq> []; env = jv_SecretEnv v \<noteq> []
      in [refuse ((jp_Cookie j = []) = (jp_Header j = [])) ''exactly one of cookie or header'',
          refuse (jp_Cookie j \<noteq> [] \<and> (jp_Cookie j = sc_Cookie (src_Session s) \<or> jp_Cookie j = tc_Cookie (src_Ticket s)))
            ''providers.jwt.cookie must differ from the gate cookies'',
          refuse (jv_Alg v = []) ''alg is empty'',
          refuse (\<not> member_loop jwtAlgs (jv_Alg v)) ''unsupported alg'',
          (if jv_Alg v = JWTAlgNone then refuse (file \<or> env) ''alg none does not take a key''
           else if file \<and> env then Some ''key_file and secret_env are mutually exclusive''
           else if \<not> file \<and> \<not> env then Some ''alg needs key_file or secret_env''
           else refuse (env \<and> \<not> HasPrefix (jv_Alg v) ''HS'') ''secret_env is for HMAC algorithms''),
          refuse (jv_Leeway v < 0) ''leeway must not be negative''])"

definition set_JWT :: "source \<Rightarrow> jwt_provider \<Rightarrow> source" where
  "set_JWT s j = s\<lparr>src_Providers := (src_Providers s)\<lparr>pr_JWT := Some j\<rparr>\<rparr>"

definition set_App :: "source \<Rightarrow> app_provider \<Rightarrow> source" where
  "set_App s a = s\<lparr>src_Providers := (src_Providers s)\<lparr>pr_App := Some a\<rparr>\<rparr>"

definition validateJWT :: "source \<Rightarrow> verr + source" where
  "validateJWT s =
     (case pr_JWT (src_Providers s) of
        None \<Rightarrow> Inl ''providers.jwt is not set''
      | Some j \<Rightarrow> (case first_some (jwt_checks_cfg s j) of Some e \<Rightarrow> Inl e | None \<Rightarrow> Inr (set_JWT s (jwt_defaults j))))"

text \<open>An empty route is skipped; one with a path gets the method \<open>POST\<close> by default.\<close>

definition route_default :: "app_route \<Rightarrow> app_route" where
  "route_default r = (if ar_URI r \<noteq> [] \<and> ar_Method r = [] then r\<lparr>ar_Method := ''POST''\<rparr> else r)"

definition route_checks :: "case_tables \<Rightarrow> app_route \<Rightarrow> verr option" where
  "route_checks ct r =
     (if ar_URI r = [] then None
      else first_some
        [refuse (\<not> HasPrefix (ar_URI r) ''/'' \<or> CHR ''?'' \<in> set (ar_URI r) \<or> CHR ''#'' \<in> set (ar_URI r))
           ''uri must be an absolute path without query'',
         refuse (ar_Method (route_default r) \<noteq> ct_upper ct (ar_Method (route_default r))) ''method must be upper case''])"

definition app_defaults :: "app_provider \<Rightarrow> app_provider" where
  "app_defaults a = a\<lparr>ap_Learn := (ap_Learn a)
     \<lparr>al_Login := route_default (al_Login (ap_Learn a)), al_Logout := route_default (al_Logout (ap_Learn a)),
      al_Success := (al_Success (ap_Learn a))
        \<lparr>as_Status := (if as_Status (al_Success (ap_Learn a)) = [] then [200, 302, 303]
                        else as_Status (al_Success (ap_Learn a)))\<rparr>\<rparr>\<rparr>"

definition app_checks :: "case_tables \<Rightarrow> source \<Rightarrow> app_provider \<Rightarrow> verr option list" where
  "app_checks ct s a =
     (let l = ap_Learn a
      in [refuse (ap_Cookie a = []) ''providers.app.cookie is empty'',
          refuse (ap_Cookie a = sc_Cookie (src_Session s) \<or> ap_Cookie a = tc_Cookie (src_Ticket s)
            \<or> ap_Cookie a = lc_Cookie (src_List s)) ''providers.app.cookie must differ from the gate cookies'',
          refuse (\<not> List_Enabled (src_List s)) ''provider app needs list.sessions'',
          refuse (ar_URI (al_Login l) = []) ''learn.login.uri is empty'',
          route_checks ct (al_Login l), route_checks ct (al_Logout l),
          refuse (af_From (al_User l) \<notin> set [FieldBodyForm, FieldBodyJSON, FieldArgs, FieldHeader]) ''learn.user.from'',
          refuse (af_Field (al_User l) = []) ''learn.user.field is empty''] @
         map (\<lambda>c. refuse (c < 100 \<or> c > 599) ''is not an HTTP status'')
           (as_Status (al_Success (ap_Learn (app_defaults a)))) @
         [refuse (case as_JSON (al_Success l) of None \<Rightarrow> False | Some j \<Rightarrow> aj_Path j = []) ''json.path is empty''])"

definition validateApp :: "case_tables \<Rightarrow> source \<Rightarrow> verr + source" where
  "validateApp ct s =
     (case pr_App (src_Providers s) of
        None \<Rightarrow> Inl ''providers.app is not set''
      | Some a \<Rightarrow> (case first_some (app_checks ct s a) of Some e \<Rightarrow> Inl e | None \<Rightarrow> Inr (set_App s (app_defaults a))))"

definition with_source :: "verr option \<Rightarrow> source \<Rightarrow> verr + source" where
  "with_source e s = (case e of Some e \<Rightarrow> Inl e | None \<Rightarrow> Inr s)"

definition provider_checked :: "case_tables \<Rightarrow> source \<Rightarrow> verr + source" where
  "provider_checked ct s =
     (if src_Provider s = ProviderLocal then
        with_source (refuse (case pr_LocalUsers (src_Providers s) of None \<Rightarrow> True | Some f \<Rightarrow> f = [])
          ''providers.local.users is not set'') s
      else if src_Provider s = ProviderCode then with_source (validateCode s) s
      else if src_Provider s = ProviderLDAP then with_source (validateLDAP s) s
      else if src_Provider s = ProviderNTLM then with_source (validateNTLM s) s
      else if src_Provider s = ProviderJWT then validateJWT s
      else if src_Provider s = ProviderApp then validateApp ct s
      else Inl ''unknown provider'')"

definition validateProvider :: "case_tables \<Rightarrow> source \<Rightarrow> verr + source" where
  "validateProvider ct s =
     (if src_IdentityFrom s = src_Name s \<and> src_IdentityFrom s \<noteq> [] then Inl ''identity.from must name another source''
      else if src_Provider s = [] then Inl ''provider is empty''
      else (case provider_checked ct s of
              Inl e \<Rightarrow> Inl e
            | Inr s \<Rightarrow> with_source (refuse (src_IdentityFrom s \<noteq> [] \<and>
                \<not> (src_Provider s = ProviderCode \<and>
                   (case pr_Code (src_Providers s) of None \<Rightarrow> False | Some c \<Rightarrow> cp_Kind c = CodeTOTP)))
                ''identity.from is only for provider code with kind totp'') s))"

definition gate_checks :: "source \<Rightarrow> verr option list" where
  "gate_checks s =
     (let ses = src_Session s; uri = lg_URI (src_Login s); up = src_Upstream s; tick = src_Ticket s
      in [refuse (uri = [] \<and> \<not> External s) ''login.uri is empty'',
          refuse (uri \<noteq> [] \<and> \<not> HasPrefix uri ''/'') ''login.uri must be an absolute path'',
          refuse (uri \<noteq> [] \<and> (CHR ''?'' \<in> set uri \<or> CHR ''#'' \<in> set uri)) ''login.uri must not carry a query or fragment'',
          refuse (sc_Cookie ses = [] \<or> tc_Cookie tick = []) ''session.cookie and ticket.cookie must not be empty'',
          refuse (sc_Cookie ses = tc_Cookie tick) ''session.cookie and ticket.cookie must differ'',
          refuse (up_Cookie up \<noteq> [] \<and> (up_Cookie up = sc_Cookie ses \<or> up_Cookie up = tc_Cookie tick))
            ''upstream.cookie must differ from the gate cookies'',
          refuse (up_Cookie up \<noteq> [] \<and> up_TTL up < 0) ''upstream.ttl must not be negative'',
          refuse (sc_TTL ses \<le> 0) ''session.ttl must be positive'',
          refuse (sc_RenewAfter ses \<noteq> 0 \<and> sc_RenewAfter ses \<ge> sc_TTL ses) ''session.renew_after must be shorter than session.ttl'',
          refuse (sc_MaxTTL ses \<noteq> 0 \<and> sc_MaxTTL ses < sc_TTL ses) ''session.max_ttl must not be shorter than session.ttl''] @
         map (\<lambda>b. refuse (b \<noteq> BindNet \<and> b \<noteq> BindUA) ''session.bind: expected subnet or ua'') (sc_Bind ses) @
         [refuse (sc_V4 ses < 0 \<or> sc_V4 ses > 32) ''session.subnet.v4 must be within 0..32'',
          refuse (sc_V6 ses < 0 \<or> sc_V6 ses > 128) ''session.subnet.v6 must be within 0..128'',
          refuse (tc_TTL tick \<le> 0) ''ticket.ttl must be positive''])"

definition list_defaults :: "source \<Rightarrow> source" where
  "list_defaults s =
     (if \<not> List_Enabled (src_List s) then s
      else s\<lparr>src_List := (src_List s)
        \<lparr>lc_TTL := (if lc_TTL (src_List s) \<le> 0 then sc_TTL (src_Session s) else lc_TTL (src_List s)),
         lc_Grace := (if lc_Grace (src_List s) \<le> 0 then 2 * second else lc_Grace (src_List s))\<rparr>\<rparr>)"

definition list_checks :: "source \<Rightarrow> verr option list" where
  "list_checks s =
     (let l = src_List s
      in if \<not> List_Enabled l then []
         else [refuse (lc_TTL l > sc_TTL (src_Session s)) ''list.ttl must not outlive session.ttl'',
               refuse (lc_Grace l > 5 * minute) ''list.grace must not exceed 5m'',
               refuse (list_ex (\<lambda>c. c \<in> set '' .>*'') (lc_Sessions l)) ''list.sessions must be a plain dataset name'',
               refuse (lc_Cookie l = []) ''list.cookie is empty'',
               refuse (lc_Cookie l = sc_Cookie (src_Session s) \<or> lc_Cookie l = tc_Cookie (src_Ticket s))
                 ''list.cookie must differ from session.cookie and ticket.cookie''])"

definition shared_checks :: "source \<Rightarrow> verr option list" where
  "shared_checks s =
     [refuse (rc_Store (src_Roster s) \<noteq> RosterRedis \<and> rc_Store (src_Roster s) \<noteq> RosterMemory)
        ''roster.store must be redis or memory'',
      refuse (lk_Attempts (src_Lockout s) < 0) ''lockout.attempts must not be negative'']"

definition Source_Validate :: "case_tables \<Rightarrow> source \<Rightarrow> verr + source" where
  "Source_Validate ct s =
     (case first_some (gate_checks s) of
        Some e \<Rightarrow> Inl e
      | None \<Rightarrow>
          (let s = list_defaults s
           in case first_some (list_checks s @ shared_checks s) of
                Some e \<Rightarrow> Inl e
              | None \<Rightarrow> validateProvider ct s))"



section \<open>What validation gives\<close>

text \<open>What the code may rely on of a provider's section.\<close>

definition code_ok :: "source \<Rightarrow> code_provider \<Rightarrow> bool" where
  "code_ok s c \<longleftrightarrow>
     (cp_Kind c = CodeTOTP \<and> 6 \<le> cp_Digits c \<and> cp_Digits c \<le> 10 \<and> 0 < cp_Period c \<and> 0 \<le> cp_Skew c \<and>
        cp_Skew c \<le> 5 \<and> src_IdentityFrom s \<noteq> [] \<and> cp_Users c \<noteq> []) \<or>
     (cp_Kind c = CodeStatic \<and> cp_Codes c \<noteq> [] \<and> (\<forall>h \<in> set (cp_Codes c). isBcrypt h))"

text \<open>A directory search binds anonymously, or with a password from one place.\<close>

definition search_ok :: "ldap_search \<Rightarrow> bool" where
  "search_ok sr \<longleftrightarrow> (sr_BindDN sr \<noteq> [] \<longrightarrow> (sr_PasswordEnv sr \<noteq> []) \<noteq> (sr_PasswordStore sr \<noteq> []))"

text \<open>Each way of binding has what it fills in.\<close>

definition ldap_ok :: "ldap_provider \<Rightarrow> bool" where
  "ldap_ok l \<longleftrightarrow> lp_URL l \<noteq> [] \<and> search_ok (lp_Search l) \<and> (lp_Groups l \<noteq> [] \<longrightarrow> lp_Bind l = BindSearch) \<and>
     ((lp_Bind l = BindUPN \<and> lp_UPNSuffix l \<noteq> []) \<or>
      (lp_Bind l = BindDNTemplate \<and> ContainsStr (lp_DNTemplate l) ''%s'') \<or>
      (lp_Bind l = BindSearch \<and> sr_Base (lp_Search l) \<noteq> [] \<and> ContainsStr (sr_Filter (lp_Search l)) ''%s''))"

definition ntlm_ok :: "ntlm_provider \<Rightarrow> bool" where
  "ntlm_ok n \<longleftrightarrow> np_URL n \<noteq> [] \<and> np_Domain n \<noteq> [] \<and> search_ok (np_Search n)"

definition jwt_ok :: "source \<Rightarrow> jwt_provider \<Rightarrow> bool" where
  "jwt_ok s j \<longleftrightarrow>
     (jp_Cookie j = []) \<noteq> (jp_Header j = []) \<and>
     (jp_Cookie j \<noteq> [] \<longrightarrow> jp_Cookie j \<notin> {sc_Cookie (src_Session s), tc_Cookie (src_Ticket s)}) \<and>
     jv_Alg (jp_Verify j) \<in> set jwtAlgs \<and>
     (if jv_Alg (jp_Verify j) = JWTAlgNone then jv_KeyFile (jp_Verify j) = [] \<and> jv_SecretEnv (jp_Verify j) = []
      else (jv_KeyFile (jp_Verify j) = []) \<noteq> (jv_SecretEnv (jp_Verify j) = [])) \<and>
     (jv_SecretEnv (jp_Verify j) \<noteq> [] \<longrightarrow> HasPrefix (jv_Alg (jp_Verify j)) ''HS'') \<and>
     0 \<le> jv_Leeway (jp_Verify j) \<and>
     jc_User (jp_Claims j) \<noteq> [] \<and> jc_Session (jp_Claims j) \<noteq> [] \<and> jc_Issued (jp_Claims j) \<noteq> [] \<and> jc_Expiry (jp_Claims j) \<noteq> []"

definition route_ok :: "app_route \<Rightarrow> bool" where
  "route_ok r \<longleftrightarrow> HasPrefix (ar_URI r) ''/'' \<and> CHR ''?'' \<notin> set (ar_URI r) \<and> CHR ''#'' \<notin> set (ar_URI r) \<and> ar_Method r \<noteq> []"

definition app_ok :: "source \<Rightarrow> app_provider \<Rightarrow> bool" where
  "app_ok s a \<longleftrightarrow>
     ap_Cookie a \<notin> {[], sc_Cookie (src_Session s), tc_Cookie (src_Ticket s), lc_Cookie (src_List s)} \<and>
     List_Enabled (src_List s) \<and> route_ok (al_Login (ap_Learn a)) \<and>
     (ar_URI (al_Logout (ap_Learn a)) \<noteq> [] \<longrightarrow> route_ok (al_Logout (ap_Learn a))) \<and>
     af_From (al_User (ap_Learn a)) \<in> {FieldBodyForm, FieldBodyJSON, FieldArgs, FieldHeader} \<and>
     af_Field (al_User (ap_Learn a)) \<noteq> [] \<and>
     as_Status (al_Success (ap_Learn a)) \<noteq> [] \<and>
     (\<forall>c \<in> set (as_Status (al_Success (ap_Learn a))). 100 \<le> c \<and> c \<le> 599) \<and>
     (\<forall>j. as_JSON (al_Success (ap_Learn a)) = Some j \<longrightarrow> aj_Path j \<noteq> [])"

text \<open>The routes of an application are compared with methods in upper case.\<close>

definition methods_upper :: "case_tables \<Rightarrow> source \<Rightarrow> bool" where
  "methods_upper ct s \<longleftrightarrow> (\<forall>a r. src_Provider s = ProviderApp \<and> pr_App (src_Providers s) = Some a \<and>
     r \<in> {al_Login (ap_Learn a), al_Logout (ap_Learn a)} \<and> ar_URI r \<noteq> [] \<longrightarrow> ct_upper ct (ar_Method r) = ar_Method r)"

definition provider_ok :: "source \<Rightarrow> bool" where
  "provider_ok s \<longleftrightarrow>
     (src_Provider s = ProviderLocal \<and> (\<exists>f. pr_LocalUsers (src_Providers s) = Some f \<and> f \<noteq> [])) \<or>
     (src_Provider s = ProviderCode \<and> (\<exists>c. pr_Code (src_Providers s) = Some c \<and> code_ok s c)) \<or>
     (src_Provider s = ProviderLDAP \<and> (\<exists>l. pr_LDAP (src_Providers s) = Some l \<and> ldap_ok l)) \<or>
     (src_Provider s = ProviderNTLM \<and> (\<exists>n. pr_NTLM (src_Providers s) = Some n \<and> ntlm_ok n)) \<or>
     (src_Provider s = ProviderJWT \<and> (\<exists>j. pr_JWT (src_Providers s) = Some j \<and> jwt_ok s j)) \<or>
     (src_Provider s = ProviderApp \<and> (\<exists>a. pr_App (src_Providers s) = Some a \<and> app_ok s a))"

definition list_ok :: "source \<Rightarrow> bool" where
  "list_ok s \<longleftrightarrow>
     List_Enabled (src_List s) \<longrightarrow>
       set (lc_Sessions (src_List s)) \<inter> set '' .>*'' = {} \<and>
       0 < lc_TTL (src_List s) \<and> lc_TTL (src_List s) \<le> sc_TTL (src_Session s) \<and>
       0 < lc_Grace (src_List s) \<and> lc_Grace (src_List s) \<le> 5 * minute \<and>
       lc_Cookie (src_List s) \<notin> {[], sc_Cookie (src_Session s), tc_Cookie (src_Ticket s)}"

definition gate_ok :: "source \<Rightarrow> bool" where
  "gate_ok s \<longleftrightarrow>
     (lg_URI (src_Login s) = [] \<longrightarrow> External s) \<and>
     (lg_URI (src_Login s) \<noteq> [] \<longrightarrow> HasPrefix (lg_URI (src_Login s)) ''/'' \<and>
        CHR ''?'' \<notin> set (lg_URI (src_Login s)) \<and> CHR ''#'' \<notin> set (lg_URI (src_Login s))) \<and>
     sc_Cookie (src_Session s) \<noteq> [] \<and> tc_Cookie (src_Ticket s) \<noteq> [] \<and>
     sc_Cookie (src_Session s) \<noteq> tc_Cookie (src_Ticket s) \<and>
     (up_Cookie (src_Upstream s) \<noteq> [] \<longrightarrow> 0 \<le> up_TTL (src_Upstream s) \<and>
        up_Cookie (src_Upstream s) \<notin> {sc_Cookie (src_Session s), tc_Cookie (src_Ticket s)}) \<and>
     0 < sc_TTL (src_Session s) \<and> 0 < tc_TTL (src_Ticket s) \<and>
     (sc_RenewAfter (src_Session s) = 0 \<or> sc_RenewAfter (src_Session s) < sc_TTL (src_Session s)) \<and>
     (sc_MaxTTL (src_Session s) = 0 \<or> sc_TTL (src_Session s) \<le> sc_MaxTTL (src_Session s)) \<and>
     set (sc_Bind (src_Session s)) \<subseteq> {BindNet, BindUA} \<and>
     0 \<le> sc_V4 (src_Session s) \<and> sc_V4 (src_Session s) \<le> 32 \<and> 0 \<le> sc_V6 (src_Session s) \<and> sc_V6 (src_Session s) \<le> 128"

definition source_ok :: "source \<Rightarrow> bool" where
  "source_ok s \<longleftrightarrow> gate_ok s \<and> list_ok s \<and> provider_ok s \<and> 0 \<le> lk_Attempts (src_Lockout s) \<and>
     rc_Store (src_Roster s) \<in> {RosterRedis, RosterMemory} \<and>
     (src_IdentityFrom s \<noteq> [] \<longrightarrow> src_IdentityFrom s \<noteq> src_Name s \<and> src_Provider s = ProviderCode \<and>
        (\<exists>c. pr_Code (src_Providers s) = Some c \<and> cp_Kind c = CodeTOTP))"

lemma gate_checks_iff: "first_some (gate_checks s) = None \<longleftrightarrow> gate_ok s"
  unfolding gate_checks_def gate_ok_def Let_def by (simp add: not_le not_less) blast

lemmas gate_checks_ok = gate_checks_iff [THEN iffD1]

lemma list_defaults_simps [simp]:
  "src_Name (list_defaults s) = src_Name s" "src_Login (list_defaults s) = src_Login s"
  "src_Session (list_defaults s) = src_Session s" "src_Ticket (list_defaults s) = src_Ticket s"
  "src_Upstream (list_defaults s) = src_Upstream s" "src_Provider (list_defaults s) = src_Provider s"
  "src_Providers (list_defaults s) = src_Providers s" "src_Lockout (list_defaults s) = src_Lockout s"
  "src_Roster (list_defaults s) = src_Roster s" "src_IdentityFrom (list_defaults s) = src_IdentityFrom s"
  "src_Users (list_defaults s) = src_Users s"
  "List_Enabled (src_List (list_defaults s)) = List_Enabled (src_List s)"
  "External (list_defaults s) = External s"
  by (auto simp: list_defaults_def List_Enabled_def External_def)

lemma list_defaults_positive:
  "List_Enabled (src_List s) \<Longrightarrow> 0 < sc_TTL (src_Session s) \<Longrightarrow>
     0 < lc_TTL (src_List (list_defaults s)) \<and> 0 < lc_Grace (src_List (list_defaults s))"
  by (auto simp: list_defaults_def second_def not_le)

lemma list_defaults_idem: "0 < sc_TTL (src_Session s) \<Longrightarrow> list_defaults (list_defaults s) = list_defaults s"
  using list_defaults_positive [of s] by (auto simp: list_defaults_def [of "list_defaults s"])

lemma list_checks_ok:
  "first_some (list_checks (list_defaults s)) = None \<Longrightarrow> 0 < sc_TTL (src_Session s) \<Longrightarrow> list_ok (list_defaults s)"
  using list_defaults_positive [of s] by (auto simp: list_checks_def list_ok_def list_ex_iff Let_def)

text \<open>The two providers whose section is completed change nothing else of the source.\<close>

lemma set_JWT_simps [simp]:
  "gate_ok (set_JWT s j) = gate_ok s" "list_ok (set_JWT s j) = list_ok s"
  "src_Lockout (set_JWT s j) = src_Lockout s" "src_Roster (set_JWT s j) = src_Roster s"
  "src_IdentityFrom (set_JWT s j) = src_IdentityFrom s" "src_Name (set_JWT s j) = src_Name s"
  "src_Provider (set_JWT s j) = src_Provider s" "pr_JWT (src_Providers (set_JWT s j)) = Some j"
  "src_Session (set_JWT s j) = src_Session s" "src_Ticket (set_JWT s j) = src_Ticket s"
  "src_List (set_JWT s j) = src_List s" "src_Login (set_JWT s j) = src_Login s"
  "gate_checks (set_JWT s j) = gate_checks s" "list_checks (set_JWT s j) = list_checks s"
  "External (set_JWT s j) = External s"
  by (simp_all add: set_JWT_def gate_ok_def list_ok_def External_def gate_checks_def list_checks_def Let_def)

lemma set_App_simps [simp]:
  "gate_ok (set_App s a) = gate_ok s" "list_ok (set_App s a) = list_ok s"
  "src_Lockout (set_App s a) = src_Lockout s" "src_Roster (set_App s a) = src_Roster s"
  "src_IdentityFrom (set_App s a) = src_IdentityFrom s" "src_Name (set_App s a) = src_Name s"
  "src_Provider (set_App s a) = src_Provider s" "pr_App (src_Providers (set_App s a)) = Some a"
  "src_Session (set_App s a) = src_Session s" "src_Ticket (set_App s a) = src_Ticket s"
  "src_List (set_App s a) = src_List s" "src_Login (set_App s a) = src_Login s"
  "gate_checks (set_App s a) = gate_checks s" "list_checks (set_App s a) = list_checks s"
  "External (set_App s a) = External s"
  by (simp_all add: set_App_def gate_ok_def list_ok_def External_def gate_checks_def list_checks_def Let_def)

lemma or_default_not_Nil: "d \<noteq> [] \<Longrightarrow> or_default v d \<noteq> []"
  by (simp add: or_default_def)

lemma validateJWT_ok:
  assumes "validateJWT s = Inr s'"
  obtains j where "pr_JWT (src_Providers s) = Some j" "s' = set_JWT s (jwt_defaults j)" "jwt_ok s' (jwt_defaults j)"
    "first_some (jwt_checks_cfg s j) = None"
proof -
  from assms obtain j where j: "pr_JWT (src_Providers s) = Some j" "first_some (jwt_checks_cfg s j) = None"
    "s' = set_JWT s (jwt_defaults j)"
    by (auto simp: validateJWT_def split: option.splits)
  have "jwt_ok s' (jwt_defaults j)"
    using j(2) by (auto simp: j(3) jwt_ok_def jwt_defaults_def or_default_def jwt_checks_cfg_def Let_def
        member_loop_iff split: if_splits)
  with j that show thesis by blast
qed

lemma app_defaults_simps [simp]:
  "ap_Cookie (app_defaults a) = ap_Cookie a" "al_User (ap_Learn (app_defaults a)) = al_User (ap_Learn a)"
  "al_Login (ap_Learn (app_defaults a)) = route_default (al_Login (ap_Learn a))"
  "al_Logout (ap_Learn (app_defaults a)) = route_default (al_Logout (ap_Learn a))"
  "as_JSON (al_Success (ap_Learn (app_defaults a))) = as_JSON (al_Success (ap_Learn a))"
  "as_Status (al_Success (ap_Learn (app_defaults a))) \<noteq> []"
  by (simp_all add: app_defaults_def)

lemma route_default_simps [simp]:
  "ar_URI (route_default r) = ar_URI r" "ar_URI r \<noteq> [] \<Longrightarrow> ar_Method (route_default r) \<noteq> []"
  "route_default (route_default r) = route_default r"
  by (simp_all add: route_default_def)

lemma validateApp_ok:
  assumes "validateApp ct s = Inr s'"
  obtains a where "pr_App (src_Providers s) = Some a" "s' = set_App s (app_defaults a)" "app_ok s' (app_defaults a)"
    "first_some (app_checks ct s a) = None"
proof -
  from assms obtain a where a: "pr_App (src_Providers s) = Some a" "first_some (app_checks ct s a) = None"
    "s' = set_App s (app_defaults a)"
    by (auto simp: validateApp_def split: option.splits)
  have "app_ok s' (app_defaults a)"
    using a(2) by (auto simp: a(3) app_ok_def app_checks_def Let_def route_checks_def route_ok_def not_less)
  with a that show thesis by blast
qed

lemma with_source_Inr [simp]: "with_source e s = Inr s' \<longleftrightarrow> e = None \<and> s' = s"
  by (auto simp: with_source_def split: option.splits)

lemma validateSearchSecret_iff: "validateSearchSecret sr = None \<longleftrightarrow> search_ok sr"
  by (auto simp: validateSearchSecret_def search_ok_def)

lemma validateLDAP_iff: "validateLDAP s = None \<longleftrightarrow> (\<exists>l. pr_LDAP (src_Providers s) = Some l \<and> ldap_ok l)"
proof (cases "pr_LDAP (src_Providers s)")
  case (Some l)
  then show ?thesis by (auto simp: validateLDAP_def ldap_ok_def validateSearchSecret_iff)
qed (simp add: validateLDAP_def)

lemma validateNTLM_iff: "validateNTLM s = None \<longleftrightarrow> (\<exists>n. pr_NTLM (src_Providers s) = Some n \<and> ntlm_ok n)"
  by (auto simp: validateNTLM_def ntlm_ok_def validateSearchSecret_iff split: option.splits)

lemma validateCode_iff: "validateCode s = None \<longleftrightarrow> (\<exists>c. pr_Code (src_Providers s) = Some c \<and> code_ok s c)"
proof (cases "pr_Code (src_Providers s)")
  case (Some c)
  then show ?thesis by (auto simp: validateCode_def code_ok_def not_less not_le)
qed (simp add: validateCode_def)

lemma validateJWT_complete:
  assumes "pr_JWT (src_Providers s) = Some j" "jwt_ok s j"
  shows "validateJWT s = Inr s"
proof -
  have "first_some (jwt_checks_cfg s j) = None"
    using assms(2) by (auto simp: jwt_checks_cfg_def jwt_ok_def Let_def member_loop_iff jwtAlgs_def split: if_split_asm)
  moreover have "jwt_defaults j = j"
    using assms(2) by (simp add: jwt_ok_def jwt_defaults_def or_default_def)
  moreover have "set_JWT s j = s"
    using assms(1) by (simp add: set_JWT_def)
  ultimately show ?thesis using assms(1) by (simp add: validateJWT_def del: first_some_None)
qed

lemma validateApp_complete:
  assumes "pr_App (src_Providers s) = Some a" "app_ok s a" "methods_upper ct s" "src_Provider s = ProviderApp"
  shows "validateApp ct s = Inr s"
proof -
  have d: "app_defaults a = a"
    using assms(2) by (auto simp: app_ok_def app_defaults_def route_default_def route_ok_def)
  have up: "ct_upper ct (ar_Method r) = ar_Method r" if "r \<in> {al_Login (ap_Learn a), al_Logout (ap_Learn a)}" "ar_URI r \<noteq> []" for r
    using assms(1,3,4) that by (auto simp: methods_upper_def)
  have "route_checks ct (al_Login (ap_Learn a)) = None"
    using assms(2) up [of "al_Login (ap_Learn a)"] by (auto simp: app_ok_def route_checks_def route_ok_def route_default_def)
  moreover have "route_checks ct (al_Logout (ap_Learn a)) = None"
    using assms(2) up [of "al_Logout (ap_Learn a)"] by (auto simp: app_ok_def route_checks_def route_ok_def route_default_def)
  ultimately have "first_some (app_checks ct s a) = None"
    using assms(2) by (auto simp: app_checks_def d app_ok_def route_ok_def Let_def not_less split: option.split)
  moreover have "set_App s a = s"
    using assms(1) by (simp add: set_App_def)
  ultimately show ?thesis using assms(1) by (simp add: validateApp_def d del: first_some_None)
qed

lemma validateApp_upper:
  assumes "validateApp ct s = Inr s'"
  shows "methods_upper ct s'"
  using assms
proof (rule validateApp_ok)
  fix a
  assume a: "s' = set_App s (app_defaults a)" "first_some (app_checks ct s a) = None"
  have "route_checks ct (al_Login (ap_Learn a)) = None" "route_checks ct (al_Logout (ap_Learn a)) = None"
    using a(2) by (simp_all add: app_checks_def Let_def)
  then show ?thesis
    by (auto simp: a(1) methods_upper_def route_checks_def split: if_split_asm)
qed

lemma provider_checked_ok:
  assumes "provider_checked ct s = Inr s'"
  shows "provider_ok s' \<and> gate_ok s' = gate_ok s \<and> list_ok s' = list_ok s \<and> src_Lockout s' = src_Lockout s \<and>
    src_Roster s' = src_Roster s \<and> src_IdentityFrom s' = src_IdentityFrom s \<and> src_Name s' = src_Name s \<and>
    src_Provider s' = src_Provider s"
proof -
  consider "src_Provider s = ProviderLocal" | "src_Provider s = ProviderCode" | "src_Provider s = ProviderLDAP"
    | "src_Provider s = ProviderNTLM" | "src_Provider s = ProviderJWT" | "src_Provider s = ProviderApp"
    using assms by (auto simp: provider_checked_def split: if_splits)
  then show ?thesis
  proof cases
    case 1 with assms show ?thesis by (auto simp: provider_checked_def provider_ok_def split: option.splits)
  next
    case 2 with assms validateCode_iff [of s] show ?thesis by (auto simp: provider_checked_def provider_ok_def)
  next
    case 3 with assms validateLDAP_iff [of s] show ?thesis by (auto simp: provider_checked_def provider_ok_def)
  next
    case 4 with assms validateNTLM_iff [of s] show ?thesis by (auto simp: provider_checked_def provider_ok_def)
  next
    case 5
    with assms have "validateJWT s = Inr s'" by (simp add: provider_checked_def)
    then show ?thesis by (rule validateJWT_ok) (auto simp: provider_ok_def 5)
  next
    case 6
    with assms have "validateApp ct s = Inr s'" by (simp add: provider_checked_def)
    then show ?thesis by (rule validateApp_ok) (auto simp: provider_ok_def 6)
  qed
qed

lemma Source_Validate_Inr:
  assumes "Source_Validate ct s = Inr s'"
  shows "first_some (gate_checks s) = None" "first_some (list_checks (list_defaults s)) = None"
    "provider_checked ct (list_defaults s) = Inr s'" "source_ok s'"
proof -
  from assms show gate: "first_some (gate_checks s) = None"
    by (auto simp: Source_Validate_def Let_def simp del: first_some_None split: option.splits)
  with assms have rest: "first_some (list_checks (list_defaults s)) = None" "0 \<le> lk_Attempts (src_Lockout s)"
    "rc_Store (src_Roster s) \<in> {RosterRedis, RosterMemory}" "validateProvider ct (list_defaults s) = Inr s'"
    by (auto simp: Source_Validate_def shared_checks_def Let_def split: option.splits)
  then show "first_some (list_checks (list_defaults s)) = None" by simp
  from rest(4) have p: "provider_checked ct (list_defaults s) = Inr s'"
    and id: "src_IdentityFrom s \<noteq> [] \<Longrightarrow> src_IdentityFrom s \<noteq> src_Name s \<and> src_Provider s' = ProviderCode \<and>
        (\<exists>c. pr_Code (src_Providers s') = Some c \<and> cp_Kind c = CodeTOTP)"
    using provider_checked_ok [of ct "list_defaults s"]
    by (auto simp: validateProvider_def split: if_splits sum.splits option.splits)
  then show "provider_checked ct (list_defaults s) = Inr s'" by simp
  have "gate_ok s" by (rule gate_checks_ok [OF gate])
  then have "gate_ok (list_defaults s)" "0 < sc_TTL (src_Session s)"
    by (auto simp: gate_ok_def)
  with list_checks_ok [OF rest(1)] provider_checked_ok [OF p] rest id
  show "source_ok s'" by (auto simp: source_ok_def)
qed



section \<open>Validating twice\<close>

lemma gate_checks_defaults [simp]: "gate_checks (list_defaults s) = gate_checks s"
  by (simp add: gate_checks_def Let_def)

lemma jwt_defaults_idem [simp]: "jwt_defaults (jwt_defaults j) = jwt_defaults j"
  by (simp add: jwt_defaults_def or_default_def)

lemma jwt_checks_defaults: "jwt_checks_cfg (set_JWT s k) (jwt_defaults j) = jwt_checks_cfg s j"
  by (simp add: jwt_checks_cfg_def jwt_defaults_def Let_def)

lemma set_twice [simp]: "set_JWT (set_JWT s j) k = set_JWT s k" "set_App (set_App s a) b = set_App s b"
  by (simp_all add: set_JWT_def set_App_def)

lemma validateJWT_idem: "validateJWT s = Inr s' \<Longrightarrow> validateJWT s' = Inr s'"
  by (erule validateJWT_ok) (simp add: validateJWT_def jwt_checks_defaults del: first_some_None)

lemma app_defaults_idem [simp]: "app_defaults (app_defaults a) = app_defaults a"
  by (simp add: app_defaults_def)

lemma route_checks_default [simp]: "route_checks ct (route_default r) = route_checks ct r"
  by (simp add: route_checks_def)

lemma app_checks_defaults: "app_checks ct (set_App s b) (app_defaults a) = app_checks ct s a"
  by (simp add: app_checks_def Let_def)

lemma validateApp_idem: "validateApp ct s = Inr s' \<Longrightarrow> validateApp ct s' = Inr s'"
  by (erule validateApp_ok) (simp add: validateApp_def app_checks_defaults del: first_some_None)

lemma provider_checked_idem:
  assumes "provider_checked ct s = Inr s'"
  shows "provider_checked ct s' = Inr s'"
    "s' = s \<or> (\<exists>j. s' = set_JWT s j) \<or> (\<exists>a. s' = set_App s a)"
proof -
  consider "src_Provider s = ProviderJWT" "validateJWT s = Inr s'" | "src_Provider s = ProviderApp" "validateApp ct s = Inr s'"
    | "s' = s"
    using assms by (auto simp: provider_checked_def split: if_splits)
  then have "provider_checked ct s' = Inr s' \<and> (s' = s \<or> (\<exists>j. s' = set_JWT s j) \<or> (\<exists>a. s' = set_App s a))"
  proof cases
    case 1
    then have "src_Provider s' = ProviderJWT" "\<exists>j. s' = set_JWT s j" by (auto elim!: validateJWT_ok)
    with validateJWT_idem [OF 1(2)] show ?thesis by (simp add: provider_checked_def)
  next
    case 2
    then have "src_Provider s' = ProviderApp" "\<exists>a. s' = set_App s a" by (auto elim!: validateApp_ok)
    with validateApp_idem [OF 2(2)] show ?thesis by (simp add: provider_checked_def)
  next
    case 3 with assms show ?thesis by simp
  qed
  then show "provider_checked ct s' = Inr s'" "s' = s \<or> (\<exists>j. s' = set_JWT s j) \<or> (\<exists>a. s' = set_App s a)"
    by auto
qed

lemma list_defaults_set: "list_defaults (set_JWT s j) = set_JWT (list_defaults s) j"
    "list_defaults (set_App s a) = set_App (list_defaults s) a"
  by (simp_all add: list_defaults_def set_JWT_def set_App_def)

lemma Source_Validate_idem:
  assumes "Source_Validate ct s = Inr s'"
  shows "Source_Validate ct s' = Inr s'"
proof -
  note v = Source_Validate_Inr [OF assms]
  define t where "t = list_defaults s"
  have "0 < sc_TTL (src_Session s)"
    using gate_checks_ok [OF v(1)] by (simp add: gate_ok_def)
  then have "list_defaults t = t" by (simp add: t_def list_defaults_idem)
  from provider_checked_idem [OF v(3)] have p: "provider_checked ct s' = Inr s'"
    and s': "s' = t \<or> (\<exists>j. s' = set_JWT t j) \<or> (\<exists>a. s' = set_App t a)" by (auto simp: t_def)
  from s' have same: "list_defaults s' = s'" "gate_checks s' = gate_checks t" "list_checks s' = list_checks t"
    using \<open>list_defaults t = t\<close> by (auto simp: list_defaults_set)
  from v(4) have ok: "provider_ok s'" "0 \<le> lk_Attempts (src_Lockout s')" "rc_Store (src_Roster s') \<in> {RosterRedis, RosterMemory}"
    "src_IdentityFrom s' \<noteq> [] \<longrightarrow> src_IdentityFrom s' \<noteq> src_Name s' \<and> src_Provider s' = ProviderCode \<and>
        (\<exists>c. pr_Code (src_Providers s') = Some c \<and> cp_Kind c = CodeTOTP)"
    by (auto simp: source_ok_def)
  have "src_Provider s' \<noteq> []"
    using ok(1) by (auto simp: provider_ok_def)
  then have "validateProvider ct s' = Inr s'"
    using p ok(4) by (auto simp: validateProvider_def)
  moreover have "first_some (gate_checks s') = None"
    using v(1) same by (simp add: t_def del: first_some_None)
  moreover have "first_some (list_checks s' @ shared_checks s') = None"
    using v(2) same ok by (auto simp: t_def shared_checks_def)
  ultimately show ?thesis
    by (simp add: Source_Validate_def same(1) del: first_some_None)
qed


section \<open>Which sources are accepted as they are\<close>

lemma provider_checked_complete:
  assumes "provider_ok s" "methods_upper ct s"
  shows "provider_checked ct s = Inr s"
proof -
  from assms(1) consider "src_Provider s = ProviderLocal" | "src_Provider s = ProviderCode" | "src_Provider s = ProviderLDAP"
    | "src_Provider s = ProviderNTLM" | "src_Provider s = ProviderJWT" | "src_Provider s = ProviderApp"
    by (auto simp: provider_ok_def)
  then show ?thesis
  proof cases
    case 1 with assms show ?thesis by (auto simp: provider_checked_def provider_ok_def)
  next
    case 2 with assms validateCode_iff [of s] show ?thesis by (auto simp: provider_checked_def provider_ok_def)
  next
    case 3 with assms validateLDAP_iff [of s] show ?thesis by (auto simp: provider_checked_def provider_ok_def)
  next
    case 4 with assms validateNTLM_iff [of s] show ?thesis by (auto simp: provider_checked_def provider_ok_def)
  next
    case 5 with assms show ?thesis by (auto simp: provider_checked_def provider_ok_def validateJWT_complete)
  next
    case 6 with assms show ?thesis by (auto simp: provider_checked_def provider_ok_def validateApp_complete)
  qed
qed

lemma Source_Validate_complete:
  assumes "source_ok s" "methods_upper ct s"
  shows "Source_Validate ct s = Inr s"
proof -
  have ok: "gate_ok s" "list_ok s" "provider_ok s" using assms(1) by (auto simp: source_ok_def)
  have d: "list_defaults s = s"
    using ok(2) by (auto simp: list_defaults_def list_ok_def)
  have "first_some (list_checks s @ shared_checks s) = None"
    using assms(1) ok(2) by (auto simp: list_checks_def list_ok_def list_ex_iff shared_checks_def source_ok_def Let_def not_less)
  moreover have "validateProvider ct s = Inr s"
    using assms(1) provider_checked_complete [OF ok(3) assms(2)] ok(3)
    by (auto simp: validateProvider_def source_ok_def provider_ok_def)
  ultimately show ?thesis
    using gate_checks_iff [of s] ok(1) by (simp add: Source_Validate_def d del: first_some_None)
qed

lemma Source_Validate_upper:
  assumes "Source_Validate ct s = Inr s'"
  shows "methods_upper ct s'"
proof (cases "src_Provider s' = ProviderApp")
  case True
  note p = Source_Validate_Inr(3) [OF assms]
  have "src_Provider (list_defaults s) = ProviderApp" using provider_checked_ok [OF p] True by simp
  then have "validateApp ct (list_defaults s) = Inr s'" using p by (simp add: provider_checked_def)
  then show ?thesis by (rule validateApp_upper)
qed (simp add: methods_upper_def)

end
