(* ===== verification/Profiles.thy ===== *)
theory Profiles
  imports Validate Encoding "HOL-Library.Char_ord" "HOL-Library.List_Lexorder"
begin

text \<open>
  The snapshot both processes work from (\<open>internal/config/profiles.go\<close>): reading the sources
  and profiles of a directory, linking them, and the store that swaps in a new snapshot when
  the directory has changed.

  The file system, the YAML decoders, the template parser, the environment and SHA-256 are the
  record \<open>config_env\<close>.
\<close>

section \<open>The snapshot\<close>

record snapshot =
  sn_Gen :: int
  sn_Fingerprint :: string
  sn_profiles :: "string \<rightharpoonup> profile"
  sn_sources :: "string \<rightharpoonup> source"
  sn_byLogin :: "string \<rightharpoonup> source"
  sn_profileNames :: "string list"
  sn_sourceNames :: "string list"
  sn_roster :: roster_cfg

definition Snapshot_Profile :: "snapshot option \<Rightarrow> string \<Rightarrow> profile option" where
  "Snapshot_Profile s name =
     (case s of None \<Rightarrow> None | Some s \<Rightarrow> sn_profiles s (if name = [] then DefaultName else name))"

definition Snapshot_Source :: "snapshot option \<Rightarrow> string \<Rightarrow> source option" where
  "Snapshot_Source s name = (case s of None \<Rightarrow> None | Some s \<Rightarrow> sn_sources s name)"

text \<open>A name without a source would be a nil pointer; \<open>snapshot_ok\<close> rules it out.\<close>

definition Snapshot_Sources :: "snapshot option \<Rightarrow> source list" where
  "Snapshot_Sources s = (case s of None \<Rightarrow> [] | Some s \<Rightarrow> List.map_filter (sn_sources s) (sn_sourceNames s))"

definition Snapshot_Names :: "snapshot option \<Rightarrow> string list" where
  "Snapshot_Names s = (case s of None \<Rightarrow> [] | Some s \<Rightarrow> sn_profileNames s)"

definition Snapshot_Roster :: "snapshot option \<Rightarrow> roster_cfg" where
  "Snapshot_Roster s = (case s of None \<Rightarrow> \<lparr>rc_Store = [], rc_Prefix = []\<rparr> | Some s \<Rightarrow> sn_roster s)"


section \<open>The directory\<close>

datatype 'a fs_file = Missing | Unreadable | Found 'a

text \<open>\<open>ce_ReadDir\<close> gives the entries with whether they are directories, \<open>ce_Walk\<close> the files below
  a directory with their relative path, size and modification time.\<close>

record config_env =
  ce_ct :: case_tables
  ce_sha256 :: "bytes \<Rightarrow> bytes"
  ce_Getenv :: "string \<Rightarrow> string"
  ce_ReadDir :: "string \<Rightarrow> (string \<times> bool) list fs_file"
  ce_ReadFile :: "string \<Rightarrow> bytes fs_file"
  ce_Walk :: "string \<Rightarrow> (string \<times> int \<times> int) list option"
  ce_yaml_source :: "source \<Rightarrow> bytes \<Rightarrow> source option"
  ce_yaml_profile :: "profile \<Rightarrow> bytes \<Rightarrow> profile option"
  ce_yaml_users :: "bytes \<Rightarrow> user option list option"
  ce_template :: "bytes \<Rightarrow> bool"

definition path_join :: "string \<Rightarrow> string \<Rightarrow> string" where
  "path_join dir name = dir @ ''/'' @ name"

definition FormatInt :: "int \<Rightarrow> string" where
  "FormatInt n = (if n < 0 then ''-'' @ FormatUint (nat (- n)) else FormatUint (nat n))"

definition fingerprint :: "config_env \<Rightarrow> string \<Rightarrow> string option" where
  "fingerprint env dir =
     map_option (\<lambda>files. HexString (take 8 (ce_sha256 env (concat (map (\<lambda>(rel, size, mtime).
       rel @ [CHR 0x00] @ FormatInt size @ [CHR 0x00] @ FormatInt mtime @ [CHR 0x00]) files)))))
     (ce_Walk env dir)"

definition ParseSource :: "config_env \<Rightarrow> string \<Rightarrow> bytes \<Rightarrow> verr + source" where
  "ParseSource env name raw =
     (case ce_yaml_source env (sourceDefaults name) raw of
        None \<Rightarrow> Inl ''yaml'' | Some s \<Rightarrow> Inr (s\<lparr>src_Name := name\<rparr>))"

definition ParseProfile :: "config_env \<Rightarrow> string \<Rightarrow> bytes \<Rightarrow> verr + profile" where
  "ParseProfile env name raw =
     (case ce_yaml_profile env (profileDefaults name) raw of
        None \<Rightarrow> Inl ''yaml'' | Some p \<Rightarrow> Inr (p\<lparr>pf_Name := name\<rparr>))"

definition attachUsers :: "config_env \<Rightarrow> source \<Rightarrow> string \<Rightarrow> verr + source" where
  "attachUsers env s dir =
     (let file = UsersFile s
      in if file = [] then Inr s
         else (case ce_ReadFile env (if HasPrefix file ''/'' then file else path_join dir file) of
                 Found raw \<Rightarrow>
                   (case ce_yaml_users env raw of
                      None \<Rightarrow> Inl ''users''
                    | Some us \<Rightarrow> (case ParseUsers (ce_ct env) us of
                        Inl e \<Rightarrow> Inl e | Inr users \<Rightarrow> Inr (s\<lparr>src_Users := users\<rparr>)))
               | _ \<Rightarrow> Inl ''users''))"

text \<open>The template itself is not modelled, so only the errors are left.\<close>

definition attachLoginPage :: "config_env \<Rightarrow> source \<Rightarrow> string \<Rightarrow> verr + source" where
  "attachLoginPage env s dir =
     (case ce_ReadFile env (path_join dir ''login.html'') of
        Missing \<Rightarrow> Inr s
      | Unreadable \<Rightarrow> Inl ''login.html''
      | Found raw \<Rightarrow> (if ce_template env raw then Inr s else Inl ''login.html''))"

definition attachJWTKey :: "config_env \<Rightarrow> source \<Rightarrow> string \<Rightarrow> verr + source" where
  "attachJWTKey env s dir =
     (case pr_JWT (src_Providers s) of
        None \<Rightarrow> Inr s
      | Some j \<Rightarrow>
          (let v = jp_Verify j; with_key = (\<lambda>k. Inr (set_JWT s (j\<lparr>jp_Key := k\<rparr>)))
           in if src_Provider s \<noteq> ProviderJWT then Inr s
              else if jv_Alg v = JWTAlgNone then with_key []
              else if jv_KeyFile v \<noteq> [] then
                (case ce_ReadFile env (path_join dir (jv_KeyFile v)) of
                   Found raw \<Rightarrow>
                     (let raw = (if HasPrefix (jv_Alg v) ''HS'' then TrimRightBytes [CHR 0x0D, CHR 0x0A] raw else raw)
                      in if raw = [] then Inl ''key_file is empty'' else with_key raw)
                 | _ \<Rightarrow> Inl ''key_file'')
              else if jv_SecretEnv v \<noteq> [] then
                (let secret = ce_Getenv env (jv_SecretEnv v)
                 in if secret = [] then Inl ''secret_env is not set'' else with_key secret)
              else Inr s))"

definition load_source :: "config_env \<Rightarrow> string \<Rightarrow> string \<Rightarrow> bytes \<Rightarrow> verr + source" where
  "load_source env dir name raw =
     (case ParseSource env name raw of
        Inl e \<Rightarrow> Inl e
      | Inr s \<Rightarrow> (case attachUsers env s (path_join dir name) of
            Inl e \<Rightarrow> Inl e
          | Inr s \<Rightarrow> (case attachLoginPage env s (path_join dir name) of
                Inl e \<Rightarrow> Inl e
              | Inr s \<Rightarrow> (case Source_Validate (ce_ct env) s of
                    Inl e \<Rightarrow> Inl e
                  | Inr s \<Rightarrow> attachJWTKey env s (path_join dir name)))))"

definition add_source :: "string \<Rightarrow> source \<Rightarrow> snapshot \<Rightarrow> verr + snapshot" where
  "add_source name s snap =
     (if \<not> External s \<and> sn_byLogin snap (lg_URI (src_Login s)) \<noteq> None then Inl ''share login.uri''
      else Inr (snap\<lparr>sn_byLogin := (if External s then sn_byLogin snap
                       else (sn_byLogin snap)(lg_URI (src_Login s) \<mapsto> s)),
                    sn_sources := (sn_sources snap)(name \<mapsto> s),
                    sn_sourceNames := sn_sourceNames snap @ [name]\<rparr>))"

fun read_sources :: "config_env \<Rightarrow> string \<Rightarrow> (string \<times> bool) list \<Rightarrow> snapshot \<Rightarrow> verr + snapshot" where
  "read_sources env dir [] snap = Inr snap"
| "read_sources env dir ((name, isdir) # es) snap =
     (if \<not> isdir then read_sources env dir es snap
      else (case ce_ReadFile env (path_join (path_join dir name) ''source.yaml'') of
              Missing \<Rightarrow> read_sources env dir es snap
            | Unreadable \<Rightarrow> Inl ''sources''
            | Found raw \<Rightarrow>
                (case load_source env dir name raw of
                   Inl e \<Rightarrow> Inl e
                 | Inr s \<Rightarrow> (case add_source name s snap of
                     Inl e \<Rightarrow> Inl e | Inr snap \<Rightarrow> read_sources env dir es snap))))"

definition readSources :: "config_env \<Rightarrow> string \<Rightarrow> snapshot \<Rightarrow> verr + snapshot" where
  "readSources env dir snap =
     (case ce_ReadDir env dir of
        Missing \<Rightarrow> Inr snap
      | Unreadable \<Rightarrow> Inl ''sources''
      | Found es \<Rightarrow> map_sum id (\<lambda>s. s\<lparr>sn_sourceNames := sort (sn_sourceNames s)\<rparr>) (read_sources env dir es snap))"

fun read_profiles :: "config_env \<Rightarrow> string \<Rightarrow> (string \<times> bool) list \<Rightarrow> snapshot \<Rightarrow> verr + snapshot" where
  "read_profiles env dir [] snap = Inr snap"
| "read_profiles env dir ((name, isdir) # es) snap =
     (if \<not> isdir then read_profiles env dir es snap
      else (case ce_ReadFile env (path_join (path_join dir name) ''profile.yaml'') of
              Missing \<Rightarrow> read_profiles env dir es snap
            | Unreadable \<Rightarrow> Inl ''profiles''
            | Found raw \<Rightarrow>
                (case ParseProfile env name raw of
                   Inl e \<Rightarrow> Inl e
                 | Inr p \<Rightarrow> (case Profile_Validate (ce_ct env) p of
                     Some e \<Rightarrow> Inl e
                   | None \<Rightarrow> read_profiles env dir es
                       (snap\<lparr>sn_profiles := (sn_profiles snap)(name \<mapsto> p),
                             sn_profileNames := sn_profileNames snap @ [name]\<rparr>)))))"

definition readProfiles :: "config_env \<Rightarrow> string \<Rightarrow> snapshot \<Rightarrow> verr + snapshot" where
  "readProfiles env dir snap =
     (case ce_ReadDir env dir of
        Found es \<Rightarrow> map_sum id (\<lambda>s. s\<lparr>sn_profileNames := sort (sn_profileNames s)\<rparr>) (read_profiles env dir es snap)
      | _ \<Rightarrow> Inl ''profiles'')"



section \<open>Linking\<close>

text \<open>Profiles get the source they name.\<close>

fun link_profiles :: "string list \<Rightarrow> snapshot \<Rightarrow> verr + snapshot" where
  "link_profiles [] snap = Inr snap"
| "link_profiles (name # ns) snap =
     (case sn_profiles snap name of
        None \<Rightarrow> link_profiles ns snap
      | Some p \<Rightarrow>
          (if pf_Source p = [] then link_profiles ns snap
           else (case sn_sources snap (pf_Source p) of
                   None \<Rightarrow> Inl ''source names unknown source''
                 | Some s \<Rightarrow> link_profiles ns
                     (snap\<lparr>sn_profiles := (sn_profiles snap)(name \<mapsto> p\<lparr>pf_Src := Some s\<rparr>)\<rparr>))))"

definition identity_check :: "snapshot \<Rightarrow> source \<Rightarrow> verr option" where
  "identity_check snap s =
     (if src_IdentityFrom s = [] then None
      else (case sn_sources snap (src_IdentityFrom s) of
              None \<Rightarrow> Some ''identity.from names unknown source''
            | Some from \<Rightarrow> first_some
                [refuse (sc_Cookie (src_Session from) = sc_Cookie (src_Session s) \<or>
                    tc_Cookie (src_Ticket from) = tc_Cookie (src_Ticket s)) ''cookies must differ'',
                 refuse (List_Enabled (src_List s) \<and> List_Enabled (src_List from) \<and>
                    lc_Cookie (src_List s) = lc_Cookie (src_List from)) ''list.cookie collides'']))"

fun cookie_pairs :: "source list \<Rightarrow> verr option" where
  "cookie_pairs [] = None"
| "cookie_pairs (a # bs) = first_some
     (concat (map (\<lambda>b. [refuse (sc_Cookie (src_Session a) = sc_Cookie (src_Session b)) ''share session cookie'',
        refuse (tc_Cookie (src_Ticket a) = tc_Cookie (src_Ticket b)) ''share ticket cookie'']) bs) @
      [cookie_pairs bs])"

definition roster_check :: "source list \<Rightarrow> verr option" where
  "roster_check ss =
     (case ss of [] \<Rightarrow> None
      | first # rest \<Rightarrow> first_some (map (\<lambda>s. refuse (src_Roster s \<noteq> src_Roster first) ''roster differs'') rest))"

definition empty_snapshot :: snapshot where
  "empty_snapshot =
     \<lparr>sn_Gen = 0, sn_Fingerprint = [], sn_profiles = Map.empty, sn_sources = Map.empty, sn_byLogin = Map.empty,
      sn_profileNames = [], sn_sourceNames = [], sn_roster = \<lparr>rc_Store = [], rc_Prefix = []\<rparr>\<rparr>"

definition link_snapshot :: "snapshot \<Rightarrow> verr + snapshot" where
  "link_snapshot snap =
     (if sn_profiles snap DefaultName = None then Inl ''default is missing''
      else (case link_profiles (sn_profileNames snap) snap of
              Inl e \<Rightarrow> Inl e
            | Inr snap \<Rightarrow>
                (let ss = Snapshot_Sources (Some snap)
                 in case first_some (map (identity_check snap) ss @ [cookie_pairs ss, roster_check ss]) of
                      Some e \<Rightarrow> Inl e
                    | None \<Rightarrow> Inr (snap\<lparr>sn_roster :=
                        (case ss of [] \<Rightarrow> src_Roster (sourceDefaults ''none'') | first # _ \<Rightarrow> src_Roster first)\<rparr>))))"

definition read_dir :: "config_env \<Rightarrow> string \<Rightarrow> verr + snapshot" where
  "read_dir env dir =
     (case readSources env (path_join dir ''sources'') empty_snapshot of
        Inl e \<Rightarrow> Inl e
      | Inr snap \<Rightarrow> (case readProfiles env (path_join dir ''profiles'') snap of
            Inl e \<Rightarrow> Inl e
          | Inr snap \<Rightarrow> (case link_snapshot snap of
                Inl e \<Rightarrow> Inl e
              | Inr snap \<Rightarrow> (case fingerprint env dir of
                    None \<Rightarrow> Inl ''fingerprint''
                  | Some fp \<Rightarrow> Inr (snap\<lparr>sn_Fingerprint := fp\<rparr>)))))"


section \<open>The store\<close>

record cfg_store =
  cs_dir :: string
  cs_cur :: "snapshot option"
  cs_gen :: int

text \<open>A read that succeeds takes the next generation.\<close>

definition Store_read :: "config_env \<Rightarrow> cfg_store \<Rightarrow> verr + (snapshot \<times> cfg_store)" where
  "Store_read env st =
     (case read_dir env (cs_dir st) of
        Inl e \<Rightarrow> Inl e
      | Inr snap \<Rightarrow> Inr (snap\<lparr>sn_Gen := cs_gen st + 1\<rparr>, st\<lparr>cs_gen := cs_gen st + 1\<rparr>))"

definition LoadProfiles :: "config_env \<Rightarrow> string \<Rightarrow> verr + cfg_store" where
  "LoadProfiles env dir =
     (case Store_read env \<lparr>cs_dir = dir, cs_cur = None, cs_gen = 0\<rparr> of
        Inl e \<Rightarrow> Inl e | Inr (snap, st) \<Rightarrow> Inr (st\<lparr>cs_cur := Some snap\<rparr>))"

definition ReloadFrom :: "config_env \<Rightarrow> string \<Rightarrow> cfg_store \<Rightarrow> verr option \<times> cfg_store" where
  "ReloadFrom env dir st =
     (let prev = cs_dir st; st = st\<lparr>cs_dir := dir\<rparr>
      in case Store_read env st of
           Inl e \<Rightarrow> (Some e, st\<lparr>cs_dir := prev\<rparr>)
         | Inr (snap, st) \<Rightarrow> (None, st\<lparr>cs_cur := Some snap\<rparr>))"

definition Reload :: "config_env \<Rightarrow> cfg_store \<Rightarrow> (verr + bool) \<times> cfg_store" where
  "Reload env st =
     (case fingerprint env (cs_dir st) of
        None \<Rightarrow> (Inl ''fingerprint'', st)
      | Some fp \<Rightarrow>
          (if (case cs_cur st of None \<Rightarrow> False | Some cur \<Rightarrow> sn_Fingerprint cur = fp) then (Inr False, st)
           else (case Store_read env st of
                   Inl e \<Rightarrow> (Inl e, st)
                 | Inr (snap, st) \<Rightarrow> (Inr True, st\<lparr>cs_cur := Some snap\<rparr>))))"

text \<open>
  The life of a store: loaded once, then reloaded by the watcher's tick or moved to another
  directory, with whatever the file system holds at the time. Both read outside the lock: a read
  that began earlier, of the directory of that time and under a generation of its own, may be
  stored after other operations (\<open>late\<close>), and a move shows its directory before it has read it
  and takes it back when it fails (\<open>shown\<close>). The files change only between reads.
\<close>

inductive store_life :: "cfg_store \<Rightarrow> bool" where
  load: "LoadProfiles env dir = Inr st \<Longrightarrow> store_life st"
| reload: "store_life st \<Longrightarrow> store_life (snd (Reload env st))"
| move: "store_life st \<Longrightarrow> store_life (snd (ReloadFrom env dir st))"
| late: "store_life st \<Longrightarrow> read_dir env dir = Inr snap \<Longrightarrow> cs_gen st \<le> n \<Longrightarrow> g \<le> n \<Longrightarrow>
    store_life (st\<lparr>cs_gen := n, cs_cur := Some (snap\<lparr>sn_Gen := g\<rparr>)\<rparr>)"
| shown: "store_life st \<Longrightarrow> store_life (st\<lparr>cs_dir := dir\<rparr>)"



section \<open>Every snapshot is consistent\<close>

lemma attachJWTKey_ok:
  assumes "attachJWTKey env s dir = Inr s'" "source_ok s"
  shows "source_ok s' \<and> src_Name s' = src_Name s \<and> External s' = External s"
proof -
  from assms(1) consider "s' = s"
    | j k where "pr_JWT (src_Providers s) = Some j" "src_Provider s = ProviderJWT" "s' = set_JWT s (j\<lparr>jp_Key := k\<rparr>)"
    by (auto simp: attachJWTKey_def Let_def split: option.splits if_splits fs_file.splits)
  then show ?thesis
  proof cases
    case (2 j k)
    with assms(2) have "jwt_ok s j" by (auto simp: source_ok_def provider_ok_def)
    with 2 assms(2) show ?thesis by (auto simp: source_ok_def provider_ok_def jwt_ok_def)
  qed (use assms in auto)
qed

lemma attachUsers_name: "attachUsers env s dir = Inr s' \<Longrightarrow> src_Name s' = src_Name s"
  by (auto simp: attachUsers_def Let_def split: if_splits fs_file.splits option.splits sum.splits)

lemma Source_Validate_name: "Source_Validate ct s = Inr s' \<Longrightarrow> src_Name s' = src_Name s"
  using provider_checked_ok [OF Source_Validate_Inr(3)] by simp

lemma load_source_ok:
  assumes "load_source env dir name raw = Inr s"
  shows "source_ok s \<and> src_Name s = name"
proof -
  from assms obtain a b c d where s: "ParseSource env name raw = Inr a" "attachUsers env a (path_join dir name) = Inr b"
    "attachLoginPage env b (path_join dir name) = Inr c" "Source_Validate (ce_ct env) c = Inr d"
    "attachJWTKey env d (path_join dir name) = Inr s"
    by (auto simp: load_source_def split: sum.splits)
  have "src_Name a = name"
    using s(1) by (auto simp: ParseSource_def split: option.splits)
  moreover have "c = b"
    using s(3) by (auto simp: attachLoginPage_def split: fs_file.splits if_splits)
  ultimately show ?thesis
    using attachUsers_name [OF s(2)] Source_Validate_name [OF s(4)] Source_Validate_Inr(4) [OF s(4)]
      attachJWTKey_ok [OF s(5)] by simp
qed

text \<open>What holds while the sources are read: valid, named by their directory, and the form paths
  lead to their sources.\<close>

definition sources_ok :: "snapshot \<Rightarrow> bool" where
  "sources_ok snap \<longleftrightarrow>
     set (sn_sourceNames snap) = dom (sn_sources snap) \<and>
     (\<forall>n s. sn_sources snap n = Some s \<longrightarrow> source_ok s \<and> src_Name s = n \<and>
        (\<not> External s \<longrightarrow> sn_byLogin snap (lg_URI (src_Login s)) = Some s))"

lemma add_source_ok:
  assumes "sources_ok snap" "source_ok s" "src_Name s = name" "add_source name s snap = Inr snap'"
  shows "sources_ok snap'"
  using assms by (auto simp: sources_ok_def add_source_def split: if_splits; force)

lemma read_sources_ok:
  "sources_ok snap \<Longrightarrow> read_sources env dir es snap = Inr snap' \<Longrightarrow>
     sources_ok snap' \<and> sn_profiles snap' = sn_profiles snap \<and> sn_profileNames snap' = sn_profileNames snap"
proof (induction env dir es snap rule: read_sources.induct)
  case (2 env dir name isdir es snap)
  show ?case
  proof (cases "isdir \<and> (\<exists>raw. ce_ReadFile env (path_join (path_join dir name) ''source.yaml'') = Found raw)")
    case True
    then obtain raw where raw: "isdir" "ce_ReadFile env (path_join (path_join dir name) ''source.yaml'') = Found raw" by blast
    with "2.prems"(2) obtain s snap1 where s: "load_source env dir name raw = Inr s"
      "add_source name s snap = Inr snap1" "read_sources env dir es snap1 = Inr snap'"
      by (auto split: sum.splits)
    have "sources_ok snap1"
      using add_source_ok [OF "2.prems"(1) _ _ s(2)] load_source_ok [OF s(1)] by simp
    moreover have "sn_profiles snap1 = sn_profiles snap" "sn_profileNames snap1 = sn_profileNames snap"
      using s(2) by (auto simp: add_source_def split: if_splits)
    ultimately show ?thesis
      using "2.IH"(3) [OF _ raw(2) s(1,2) _ s(3)] raw(1) by simp
  next
    case False
    then show ?thesis
      using 2 by (auto split: if_splits fs_file.splits)
  qed
qed simp

definition profiles_read :: "case_tables \<Rightarrow> snapshot \<Rightarrow> bool" where
  "profiles_read ct snap \<longleftrightarrow>
     set (sn_profileNames snap) = dom (sn_profiles snap) \<and>
     (\<forall>n p. sn_profiles snap n = Some p \<longrightarrow> Profile_Validate ct p = None \<and> pf_Name p = n)"

lemma read_profiles_ok:
  "profiles_read (ce_ct env) snap \<Longrightarrow> sources_ok snap \<Longrightarrow> read_profiles env dir es snap = Inr snap' \<Longrightarrow>
     profiles_read (ce_ct env) snap' \<and> sources_ok snap'"
proof (induction env dir es snap rule: read_profiles.induct)
  case (2 env dir name isdir es snap)
  show ?case
  proof (cases "isdir \<and> (\<exists>raw. ce_ReadFile env (path_join (path_join dir name) ''profile.yaml'') = Found raw)")
    case True
    then obtain raw where raw: "isdir" "ce_ReadFile env (path_join (path_join dir name) ''profile.yaml'') = Found raw" by blast
    with "2.prems"(3) obtain p where p: "ParseProfile env name raw = Inr p" "Profile_Validate (ce_ct env) p = None"
      by (auto split: sum.splits option.splits)
    let ?snap = "snap\<lparr>sn_profiles := (sn_profiles snap)(name \<mapsto> p), sn_profileNames := sn_profileNames snap @ [name]\<rparr>"
    have "pf_Name p = name"
      using p(1) by (auto simp: ParseProfile_def split: option.splits)
    then have "profiles_read (ce_ct env) ?snap" "sources_ok ?snap"
      using "2.prems"(1,2) p(2) by (auto simp: profiles_read_def sources_ok_def)
    moreover have "read_profiles env dir es ?snap = Inr snap'"
      using "2.prems"(3) raw p by simp
    ultimately show ?thesis
      using "2.IH"(3) [OF _ raw(2) p] raw(1) by simp
  next
    case False
    then show ?thesis
      using 2 by (auto split: if_splits fs_file.splits)
  qed
qed simp


definition linked :: "snapshot \<Rightarrow> profile \<Rightarrow> profile" where
  "linked snap p = (if pf_Source p = [] then p else p\<lparr>pf_Src := sn_sources snap (pf_Source p)\<rparr>)"

lemma link_profiles_spec:
  "link_profiles ns snap = Inr snap' \<Longrightarrow>
     sn_sources snap' = sn_sources snap \<and> sn_byLogin snap' = sn_byLogin snap \<and>
     sn_sourceNames snap' = sn_sourceNames snap \<and> sn_profileNames snap' = sn_profileNames snap \<and>
     (\<forall>n. sn_profiles snap' n = (if n \<in> set ns then map_option (linked snap) (sn_profiles snap n) else sn_profiles snap n)) \<and>
     (\<forall>n \<in> set ns. \<forall>p. sn_profiles snap n = Some p \<longrightarrow> pf_Source p \<noteq> [] \<longrightarrow> sn_sources snap (pf_Source p) \<noteq> None)"
proof (induction ns arbitrary: snap)
  case (Cons name ns)
  consider "sn_profiles snap name = None" | p where "sn_profiles snap name = Some p" "pf_Source p = []"
    | p s where "sn_profiles snap name = Some p" "pf_Source p \<noteq> []" "sn_sources snap (pf_Source p) = Some s"
    using Cons.prems by (auto split: option.splits if_splits)
  then show ?case
  proof cases
    case 1
    with Cons.prems Cons.IH [of snap] show ?thesis by auto
  next
    case (2 p)
    with Cons.prems Cons.IH [of snap] show ?thesis by (auto simp: linked_def)
  next
    case (3 p s)
    let ?snap = "snap\<lparr>sn_profiles := (sn_profiles snap)(name \<mapsto> p\<lparr>pf_Src := Some s\<rparr>)\<rparr>"
    from Cons.prems 3 have link: "link_profiles ns ?snap = Inr snap'" by simp
    have "linked ?snap = linked snap"
      by (simp add: fun_eq_iff linked_def)
    note IH = Cons.IH [OF link, unfolded this]
    have "sn_sources snap (pf_Source q) \<noteq> None"
      if "n \<in> set (name # ns)" "sn_profiles snap n = Some q" "pf_Source q \<noteq> []" for n q
      using IH 3 that by (cases "n = name") auto
    moreover have "sn_profiles snap' n =
        (if n \<in> set (name # ns) then map_option (linked snap) (sn_profiles snap n) else sn_profiles snap n)" for n
      using IH 3 by (cases "n = name") (auto simp: linked_def)
    ultimately show ?thesis
      using IH by simp
  qed
qed simp


text \<open>What the processes rely on of a snapshot.\<close>

definition profile_linked :: "snapshot \<Rightarrow> profile \<Rightarrow> bool" where
  "profile_linked snap p \<longleftrightarrow>
     (pf_Source p \<noteq> [] \<longrightarrow> pf_Src p \<noteq> None \<and> pf_Src p = sn_sources snap (pf_Source p))"

definition profiles_ok :: "snapshot \<Rightarrow> bool" where
  "profiles_ok snap \<longleftrightarrow> (\<forall>n p. sn_profiles snap n = Some p \<longrightarrow>
     pf_Name p = n \<and> profile_linked snap p \<and> (pf_Source p = [] \<longrightarrow> pf_Mode p = ModeOff))"

definition sources_linked :: "snapshot \<Rightarrow> bool" where
  "sources_linked snap \<longleftrightarrow> (\<forall>n s. sn_sources snap n = Some s \<longrightarrow> source_ok s \<and> src_Name s = n \<and>
     (\<not> External s \<longrightarrow> sn_byLogin snap (lg_URI (src_Login s)) = Some s) \<and>
     (src_IdentityFrom s \<noteq> [] \<longrightarrow> sn_sources snap (src_IdentityFrom s) \<noteq> None))"

definition sources_apart :: "snapshot \<Rightarrow> bool" where
  "sources_apart snap \<longleftrightarrow> (\<forall>m n s t. sn_sources snap m = Some s \<longrightarrow> sn_sources snap n = Some t \<longrightarrow> m \<noteq> n \<longrightarrow>
     sc_Cookie (src_Session s) \<noteq> sc_Cookie (src_Session t) \<and>
     tc_Cookie (src_Ticket s) \<noteq> tc_Cookie (src_Ticket t) \<and>
     (\<not> External s \<longrightarrow> \<not> External t \<longrightarrow> lg_URI (src_Login s) \<noteq> lg_URI (src_Login t)) \<and>
     src_Roster s = src_Roster t)"

definition snapshot_ok :: "snapshot \<Rightarrow> bool" where
  "snapshot_ok snap \<longleftrightarrow>
     sn_profiles snap DefaultName \<noteq> None \<and> profiles_ok snap \<and> sources_linked snap \<and> sources_apart snap \<and>
     set (sn_sourceNames snap) = dom (sn_sources snap)"

lemma snapshot_ok_cong:
  assumes "sn_profiles t = sn_profiles s" "sn_sources t = sn_sources s" "sn_byLogin t = sn_byLogin s"
    "sn_sourceNames t = sn_sourceNames s"
  shows "snapshot_ok t = snapshot_ok s"
  unfolding snapshot_ok_def profiles_ok_def sources_linked_def sources_apart_def profile_linked_def assms ..

lemma cookie_pairs_ok:
  "cookie_pairs ss = None \<Longrightarrow> s \<in> set ss \<Longrightarrow> t \<in> set ss \<Longrightarrow> s \<noteq> t \<Longrightarrow>
     sc_Cookie (src_Session s) \<noteq> sc_Cookie (src_Session t) \<and> tc_Cookie (src_Ticket s) \<noteq> tc_Cookie (src_Ticket t)"
  by (induction ss) fastforce+

lemma roster_check_ok:
  "roster_check ss = None \<Longrightarrow> s \<in> set ss \<Longrightarrow> t \<in> set ss \<Longrightarrow> src_Roster s = src_Roster t"
  by (cases ss) (auto simp: roster_check_def)

lemma set_Sources:
  "set (sn_sourceNames snap) = dom (sn_sources snap) \<Longrightarrow>
     s \<in> set (Snapshot_Sources (Some snap)) \<longleftrightarrow> (\<exists>n. sn_sources snap n = Some s)"
  by (auto simp: Snapshot_Sources_def List.map_filter_def dom_def image_iff)

lemma Profile_Validate_source: "Profile_Validate ct p = None \<Longrightarrow> pf_Source p = [] \<Longrightarrow> pf_Mode p = ModeOff"
  by (simp add: Profile_Validate_def)

lemma link_snapshot_ok:
  assumes "link_snapshot snap = Inr snap'" "sources_ok snap" "profiles_read ct snap"
  shows "snapshot_ok snap'"
proof -
  from assms(1) obtain snap1 where l: "link_profiles (sn_profileNames snap) snap = Inr snap1"
    and default: "sn_profiles snap DefaultName \<noteq> None"
    and checks: "first_some (map (identity_check snap1) (Snapshot_Sources (Some snap1)) @
       [cookie_pairs (Snapshot_Sources (Some snap1)), roster_check (Snapshot_Sources (Some snap1))]) = None"
    and snap': "\<exists>r. snap' = snap1\<lparr>sn_roster := r\<rparr>"
    by (auto simp: link_snapshot_def Let_def simp del: first_some_None split: if_splits sum.splits option.splits)
  note spec = link_profiles_spec [OF l]
  have src: "s \<in> set (Snapshot_Sources (Some snap1)) \<longleftrightarrow> (\<exists>n. sn_sources snap n = Some s)" for s
    using set_Sources [of snap1] spec assms(2) by (simp add: sources_ok_def)
  have names: "set (sn_profileNames snap) = dom (sn_profiles snap)"
    using assms(3) by (simp add: profiles_read_def)
  have prof: "sn_profiles snap1 n = map_option (linked snap) (sn_profiles snap n)" for n
    using spec names by (cases "sn_profiles snap n") (auto simp: dom_def)
  have p: "pf_Name p = n \<and> profile_linked snap1 p \<and> (pf_Source p = [] \<longrightarrow> pf_Mode p = ModeOff)"
    if pn: "sn_profiles snap1 n = Some p" for n p
  proof -
    from pn prof obtain q where q: "sn_profiles snap n = Some q" "p = linked snap q" by auto
    with spec names have "pf_Source q \<noteq> [] \<longrightarrow> sn_sources snap (pf_Source q) \<noteq> None" by blast
    moreover have "Profile_Validate ct q = None" "pf_Name q = n"
      using assms(3) q(1) by (auto simp: profiles_read_def)
    moreover have "pf_Source p = pf_Source q" "pf_Name p = pf_Name q" "pf_Mode p = pf_Mode q"
      by (auto simp: q(2) linked_def)
    ultimately show ?thesis
      using spec Profile_Validate_source [of ct q] by (auto simp: profile_linked_def q(2) linked_def)
  qed
  have named: "sn_sources snap (src_IdentityFrom s) \<noteq> None"
    if "sn_sources snap n = Some s" "src_IdentityFrom s \<noteq> []" for n s
  proof -
    from checks src that(1) have "identity_check snap1 s = None" by auto
    with that(2) spec show ?thesis by (auto simp: identity_check_def split: option.splits)
  qed
  have pairs: "sc_Cookie (src_Session s) \<noteq> sc_Cookie (src_Session t) \<and>
      tc_Cookie (src_Ticket s) \<noteq> tc_Cookie (src_Ticket t) \<and>
      (\<not> External s \<longrightarrow> \<not> External t \<longrightarrow> lg_URI (src_Login s) \<noteq> lg_URI (src_Login t)) \<and> src_Roster s = src_Roster t"
    if "sn_sources snap m = Some s" "sn_sources snap n = Some t" "m \<noteq> n" for m n s t
  proof -
    from assms(2) that have names: "src_Name s = m" "src_Name t = n"
      and uri: "\<not> External s \<longrightarrow> sn_byLogin snap (lg_URI (src_Login s)) = Some s"
        "\<not> External t \<longrightarrow> sn_byLogin snap (lg_URI (src_Login t)) = Some t"
      by (auto simp: sources_ok_def)
    with that(3) have "s \<noteq> t" by auto
    moreover have "s \<in> set (Snapshot_Sources (Some snap1))" "t \<in> set (Snapshot_Sources (Some snap1))"
      using that src by auto
    moreover have "cookie_pairs (Snapshot_Sources (Some snap1)) = None" "roster_check (Snapshot_Sources (Some snap1)) = None"
      using checks by auto
    ultimately show ?thesis
      using cookie_pairs_ok roster_check_ok uri by (metis option.inject)
  qed
  have same: "snapshot_ok snap' = snapshot_ok snap1"
    by (rule snapshot_ok_cong) (use snap' in auto)
  have "profiles_ok snap1"
    unfolding profiles_ok_def using p by blast
  moreover have "sources_linked snap1"
    unfolding sources_linked_def
  proof (intro allI impI)
    fix n s assume "sn_sources snap1 n = Some s"
    with spec have n: "sn_sources snap n = Some s" by simp
    with assms(2) have "source_ok s" "src_Name s = n" "\<not> External s \<longrightarrow> sn_byLogin snap (lg_URI (src_Login s)) = Some s"
      by (auto simp: sources_ok_def)
    moreover have fields: "sn_byLogin snap1 = sn_byLogin snap" "sn_sources snap1 = sn_sources snap"
      using spec by blast+
    moreover have "src_IdentityFrom s \<noteq> [] \<longrightarrow> sn_sources snap (src_IdentityFrom s) \<noteq> None"
      using named [OF n] by (rule impI)
    ultimately show "source_ok s \<and> src_Name s = n \<and>
        (\<not> External s \<longrightarrow> sn_byLogin snap1 (lg_URI (src_Login s)) = Some s) \<and>
        (src_IdentityFrom s \<noteq> [] \<longrightarrow> sn_sources snap1 (src_IdentityFrom s) \<noteq> None)"
      unfolding fields by (intro conjI)
  qed
  moreover have "sources_apart snap1"
  proof -
    have fields: "sn_sources snap1 = sn_sources snap"
      using spec by blast
    show ?thesis
      unfolding sources_apart_def fields by (intro allI impI) (rule pairs)
  qed
  moreover have "sn_profiles snap1 DefaultName \<noteq> None"
    using prof default by simp
  moreover have "set (sn_sourceNames snap1) = dom (sn_sources snap1)"
    using spec assms(2) by (simp add: sources_ok_def)
  ultimately show ?thesis
    unfolding same unfolding snapshot_ok_def by (intro conjI)
qed

lemma read_dir_ok:
  assumes "read_dir env dir = Inr snap"
  shows "snapshot_ok snap"
proof -
  from assms obtain a b c where s: "readSources env (path_join dir ''sources'') empty_snapshot = Inr a"
    "readProfiles env (path_join dir ''profiles'') a = Inr b" "link_snapshot b = Inr c"
    and snap: "\<exists>fp. snap = c\<lparr>sn_Fingerprint := fp\<rparr>"
    by (auto simp: read_dir_def split: sum.splits option.splits)
  have empty: "sources_ok empty_snapshot" by (simp add: sources_ok_def empty_snapshot_def)
  have a: "sources_ok a \<and> sn_profiles a = Map.empty \<and> sn_profileNames a = []"
  proof (cases "ce_ReadDir env (path_join dir ''sources'')")
    case (Found es)
    with s(1) obtain a' where "read_sources env (path_join dir ''sources'') es empty_snapshot = Inr a'"
      "a = a'\<lparr>sn_sourceNames := sort (sn_sourceNames a')\<rparr>"
      by (auto simp: readSources_def map_sum_def split: sum.splits)
    with read_sources_ok [OF empty this(1)] show ?thesis
      by (auto simp: sources_ok_def empty_snapshot_def)
  qed (use s(1) empty in \<open>auto simp: readSources_def empty_snapshot_def\<close>)
  from s(2) obtain es b' where b: "read_profiles env (path_join dir ''profiles'') es a = Inr b'"
    "b = b'\<lparr>sn_profileNames := sort (sn_profileNames b')\<rparr>"
    by (auto simp: readProfiles_def map_sum_def split: fs_file.splits sum.splits)
  have "profiles_read (ce_ct env) a" using a by (simp add: profiles_read_def)
  from read_profiles_ok [OF this conjunct1 [OF a] b(1)] b(2)
  have "profiles_read (ce_ct env) b" "sources_ok b" by (auto simp: profiles_read_def sources_ok_def)
  from link_snapshot_ok [OF s(3) this(2,1)] have "snapshot_ok c" .
  moreover have "snapshot_ok snap = snapshot_ok c"
    by (rule snapshot_ok_cong) (use snap in auto)
  ultimately show ?thesis by simp
qed

lemma snapshot_ok_gen [simp]: "snapshot_ok (s\<lparr>sn_Gen := g\<rparr>) = snapshot_ok s"
  by (rule snapshot_ok_cong) simp_all

lemma Store_read_ok:
  assumes "Store_read env st = Inr (snap, st')"
  shows "snapshot_ok snap"
  using assms read_dir_ok by (auto simp: Store_read_def split: sum.splits)



section \<open>The store keeps a consistent snapshot\<close>

definition store_ok :: "cfg_store \<Rightarrow> bool" where
  "store_ok st \<longleftrightarrow> (\<exists>snap. cs_cur st = Some snap \<and> snapshot_ok snap \<and> sn_Gen snap \<le> cs_gen st)"

lemma Store_read_gen: "Store_read env st = Inr (snap, st') \<Longrightarrow>
    sn_Gen snap = cs_gen st + 1 \<and> cs_gen st' = cs_gen st + 1 \<and> cs_cur st' = cs_cur st \<and> cs_dir st' = cs_dir st"
  by (auto simp: Store_read_def split: sum.splits)

lemma Reload_cases:
  obtains "snd (Reload env st) = st" "fst (Reload env st) \<noteq> Inr True"
  | snap st' where "Store_read env st = Inr (snap, st')" "Reload env st = (Inr True, st'\<lparr>cs_cur := Some snap\<rparr>)"
proof (cases "fst (Reload env st) = Inr True")
  case True
  then obtain snap st' where "Store_read env st = Inr (snap, st')" "Reload env st = (Inr True, st'\<lparr>cs_cur := Some snap\<rparr>)"
    by (auto simp: Reload_def split: option.splits sum.splits prod.splits if_splits)
  then show thesis by (rule that(2))
next
  case False
  then have "snd (Reload env st) = st"
    by (auto simp: Reload_def split: option.splits sum.splits prod.splits if_splits)
  with False show thesis by (rule that(1) [rotated])
qed

lemma ReloadFrom_cases:
  obtains e where "ReloadFrom env dir st = (Some e, st)"
  | snap st' where "Store_read env (st\<lparr>cs_dir := dir\<rparr>) = Inr (snap, st')" "ReloadFrom env dir st = (None, st'\<lparr>cs_cur := Some snap\<rparr>)"
  by (cases "Store_read env (st\<lparr>cs_dir := dir\<rparr>)") (auto simp: ReloadFrom_def Let_def)

lemma store_life_ok: "store_life st \<Longrightarrow> store_ok st"
proof (induction rule: store_life.induct)
  case (load env dir st)
  then obtain snap st' where r: "Store_read env \<lparr>cs_dir = dir, cs_cur = None, cs_gen = 0\<rparr> = Inr (snap, st')"
    and st: "st = st'\<lparr>cs_cur := Some snap\<rparr>"
    by (auto simp: LoadProfiles_def split: sum.splits)
  from Store_read_ok [OF r] Store_read_gen [OF r] st show ?case by (simp add: store_ok_def)
next
  case (reload st env)
  show ?case
  proof (cases rule: Reload_cases [of env st])
    case (2 snap st')
    from Store_read_ok [OF 2(1)] Store_read_gen [OF 2(1)] 2(2) show ?thesis by (simp add: store_ok_def)
  qed (use reload in simp)
next
  case (move st env dir)
  show ?case
  proof (cases rule: ReloadFrom_cases [of env dir st])
    case (2 snap st')
    from Store_read_ok [OF 2(1)] Store_read_gen [OF 2(1)] 2(2) show ?thesis by (simp add: store_ok_def)
  qed (use move in simp)
next
  case (late st env dir snap n g)
  from read_dir_ok [OF late(2)] late(4) show ?case by (simp add: store_ok_def)
next
  case (shown st dir)
  then show ?case by (simp add: store_ok_def)
qed


section \<open>Properties\<close>

text \<open>C9: However often the configuration is reloaded, moved or found broken, and however late a read
  is stored, the snapshot in use is consistent: it has the default profile, every profile that is
  not off is linked to the source it names, every source has passed validation, and no two sources
  share a session cookie, a ticket cookie or a form path. A broken directory leaves the store as it was.\<close>

theorem snapshot_always_consistent:
  assumes "store_life st"
  shows "(\<exists>snap. cs_cur st = Some snap \<and> snapshot_ok snap) \<and>
    (\<forall>env. (\<exists>e. fst (Reload env st) = Inl e) \<longrightarrow> snd (Reload env st) = st) \<and>
    (\<forall>env dir. fst (ReloadFrom env dir st) \<noteq> None \<longrightarrow> snd (ReloadFrom env dir st) = st)"
proof (intro conjI allI impI)
  show "\<exists>snap. cs_cur st = Some snap \<and> snapshot_ok snap"
    using store_life_ok [OF assms] by (auto simp: store_ok_def)
  show "snd (Reload env st) = st" if "\<exists>e. fst (Reload env st) = Inl e" for env
    using that by (cases rule: Reload_cases [of env st]) auto
  show "snd (ReloadFrom env dir st) = st" if "fst (ReloadFrom env dir st) \<noteq> None" for env dir
    using that by (cases rule: ReloadFrom_cases [of env dir st]) auto
qed


text \<open>An example: a directory with the default profile, switched off.\<close>

definition sample_config_env :: config_env where
  "sample_config_env =
     \<lparr>ce_ct = ascii_tables, ce_sha256 = id, ce_Getenv = (\<lambda>_. []),
      ce_ReadDir = (\<lambda>d. if d = ''/d/profiles'' then Found [(''default'', True)] else Missing),
      ce_ReadFile = (\<lambda>f. if f = ''/d/profiles/default/profile.yaml'' then Found ''mode: off'' else Missing),
      ce_Walk = (\<lambda>d. Some []), ce_yaml_source = (\<lambda>s raw. None),
      ce_yaml_profile = (\<lambda>p raw. Some (p\<lparr>pf_Mode := ModeOff\<rparr>)), ce_yaml_users = (\<lambda>raw. None),
      ce_template = (\<lambda>raw. True)\<rparr>"

lemma sample_default_valid: "Profile_Validate ascii_tables (profileDefaults ''default''\<lparr>pf_Mode := ModeOff, pf_Name := ''default''\<rparr>) = None"
  by (simp add: Profile_Validate_def profileDefaults_def ascii_tables_def ascii_upper_char_def char_of_def)

lemma sample_load: "\<exists>st. LoadProfiles sample_config_env ''/d'' = Inr st"
  using sample_default_valid
  by (simp add: LoadProfiles_def Store_read_def read_dir_def readSources_def readProfiles_def path_join_def
      ParseProfile_def sample_config_env_def link_snapshot_def empty_snapshot_def Snapshot_Sources_def
      map_filter_simps roster_check_def fingerprint_def profileDefaults_def)

theorem snapshot_always_consistent_witness:
  "\<exists>st snap. LoadProfiles sample_config_env ''/d'' = Inr st \<and> cs_cur st = Some snap \<and> snapshot_ok snap"
proof -
  obtain st where st: "LoadProfiles sample_config_env ''/d'' = Inr st"
    using sample_load by blast
  from snapshot_always_consistent [OF store_life.load [OF st]] st show ?thesis by blast
qed

end
