(* ===== verification/Config_Props.thy ===== *)
theory Config_Props
  imports Decide Provider Profiles
begin

text \<open>
  Properties of the configuration's validation (\<open>Source.Validate\<close>, \<open>Profile.Validate\<close>) and of
  what the parts it configures do with a configuration it has accepted.
\<close>

lemma sample_source_validates: "Source_Validate ascii_tables sample_source = Inr sample_source"
proof -
  have "first_some (gate_checks sample_source) = None"
    by (simp add: gate_checks_def sample_source_def second_def Let_def)
  moreover have "list_defaults sample_source = sample_source"
    by (simp add: list_defaults_def sample_source_def List_Enabled_def)
  moreover have "first_some (list_checks sample_source @ shared_checks sample_source) = None"
    by (simp add: list_checks_def shared_checks_def sample_source_def List_Enabled_def)
  moreover have "validateProvider ascii_tables sample_source = Inr sample_source"
    by (simp add: validateProvider_def provider_checked_def sample_source_def with_source_def refuse_def)
  ultimately show ?thesis
    by (simp add: Source_Validate_def del: first_some_None)
qed

text \<open>When a provider that validation accepts panics.\<close>

lemma otp_At_total:
  assumes "6 \<le> digits" "digits \<le> 10"
  shows "otp_At hmac secret counter digits \<noteq> None"
proof (cases "digits = 10")
  case True
  then show ?thesis by (simp add: otp_At_ten)
next
  case False
  then show ?thesis using assms by (simp add: otp_At_rfc)
qed

lemma totp_scan_total:
  assumes "6 \<le> digits" "digits \<le> 10"
  shows "totp_scan hmac secret n digits entered ds \<noteq> None"
  using otp_At_total [OF assms] by (induction ds) (auto split: option.split)

lemma Code_Verify_panics:
  assumes "Code_Verify env (Some k) users c i = None" "code_ok s k"
  shows "cp_Kind k = CodeTOTP \<and> cp_Period k < second"
proof -
  have totp: "cp_Kind k = CodeTOTP" "6 \<le> cp_Digits k" "cp_Digits k \<le> 10"
    using assms by (auto simp: Code_Verify_def code_ok_def Let_def split: if_split_asm)
  have scan: "totp_scan hmac secret n (cp_Digits k) entered ds \<noteq> None" for hmac secret n entered ds
    by (rule totp_scan_total [OF totp(2,3)])
  have "Code_totp env k users (TrimSpace (cr_Code c)) i = None"
    using assms(1) totp(1) by (auto simp: Code_Verify_def Let_def split: if_split_asm)
  then have "otp_counter (pe_Now env) (cp_Period k) = None"
    by (auto simp: Code_totp_def scan split: option.split_asm sum.split_asm if_split_asm bool.split_asm)
  then show ?thesis using totp(1) by (simp add: otp_counter_panics)
qed

lemma provider_panics:
  assumes "source_ok s" "Provider_Build s = Inr p" "fst (Provider_Run env api p c prior w) = None"
  shows "\<exists>k. pr_Code (src_Providers s) = Some k \<and> cp_Kind k = CodeTOTP \<and> cp_Period k < second"
proof -
  have none: "fst (Provider_Verify env api p c prior w) = None"
    using assms(3) by (auto simp: Provider_Run_def checked_def split: prod.split_asm option.split_asm sum.split_asm if_split_asm)
  then obtain cfg users where p: "p = CodeP cfg users" and v: "Code_Verify env cfg users c prior = None"
    by (cases p) (auto split: prod.split_asm)
  have src: "src_Provider s = ProviderCode" "pr_Code (src_Providers s) = cfg"
    using assms(2) p by (auto simp: Provider_Build_def split: if_split_asm)
  then obtain k where k: "cfg = Some k" "code_ok s k"
    using assms(1) by (auto simp: source_ok_def provider_ok_def)
  from Code_Verify_panics [OF v [unfolded k(1)] k(2)] show ?thesis using src(2) k(1) by simp
qed

lemma provider_builds:
  assumes "source_ok s" "\<not> External s"
  shows "\<exists>p. Provider_Build s = Inr p"
  using assms by (auto simp: source_ok_def provider_ok_def Provider_Build_def External_def)

text \<open>C35: A source that validation returns is well formed, and these are all the sources it returns: one is
  accepted as it is exactly when it is well formed and the methods of its application's routes are
  in upper case. Well formed is said apart from the checks: its cookies are set and differ, its times
  are positive and within each other, its list has a plain name and never outlives the session, and
  the section of its provider is there with everything that provider works with (the users file; the
  digits, period, skew and users of a one-time code or the hashes of a static one; the server, the
  way to bind and its suffix, template or search, one place for the search password; the domain; the
  algorithm and one key; the application's routes, the field of its user and its statuses). Of a
  source with a form the provider can be built, and no check of it panics, but for a one-time code
  with a period of less than a second.\<close>

theorem validated_source_ok:
  assumes "Source_Validate ct s = Inr s'"
  shows "source_ok s' \<and> methods_upper ct s' \<and>
    (\<forall>t. Source_Validate ct t = Inr t \<longleftrightarrow> source_ok t \<and> methods_upper ct t) \<and>
    (\<not> External s' \<longrightarrow> (\<exists>p. Provider_Build s' = Inr p \<and>
       (\<forall>env api c prior w. fst (Provider_Run env api p c prior w) = None \<longrightarrow>
          (\<exists>k. pr_Code (src_Providers s') = Some k \<and> cp_Kind k = CodeTOTP \<and> cp_Period k < second))))"
proof -
  have ok: "source_ok s'" by (rule Source_Validate_Inr(4) [OF assms])
  have "Source_Validate ct t = Inr t \<longleftrightarrow> source_ok t \<and> methods_upper ct t" for t
    using Source_Validate_Inr(4) Source_Validate_upper Source_Validate_complete by blast
  moreover have "\<exists>p. Provider_Build s' = Inr p \<and>
       (\<forall>env api c prior w. fst (Provider_Run env api p c prior w) = None \<longrightarrow>
          (\<exists>k. pr_Code (src_Providers s') = Some k \<and> cp_Kind k = CodeTOTP \<and> cp_Period k < second))" if form: "\<not> External s'"
  proof -
    obtain p where p: "Provider_Build s' = Inr p" using provider_builds [OF ok form] by blast
    show ?thesis by (intro exI [of _ p] conjI p allI impI provider_panics [OF ok p])
  qed
  ultimately show ?thesis
    using ok Source_Validate_upper [OF assms] by (intro conjI allI impI)
qed

theorem validated_source_ok_witness:
  "source_ok sample_source \<and> (\<exists>p. Provider_Build sample_source = Inr p)"
proof -
  have "\<not> External sample_source" by (simp add: External_def sample_source_def)
  with validated_source_ok [OF sample_source_validates] show ?thesis by metis
qed

text \<open>Validation also completes a source, and once is enough: a source that it returned is
  accepted again and returned as it is.\<close>

theorem validation_idempotent:
  assumes "Source_Validate ct s = Inr s'"
  shows "Source_Validate ct s' = Inr s'"
  using assms by (rule Source_Validate_idem)

theorem validation_idempotent_witness: "Source_Validate ascii_tables sample_source = Inr sample_source"
  by (rule validation_idempotent [OF sample_source_validates])

text \<open>In a profile that validation accepts, no rule takes a skip from just anyone, an event that
  ends the phase sends no ask to another inspector, and every number sent along is within its
  bounds and not zero.\<close>

theorem validated_profile_rules:
  assumes "Profile_Validate ct p = None"
  shows "(\<forall>r \<in> set (tr_Prior (pf_Trigger p)). set (pl_Accept r) \<subseteq> {DoReauth, DoSkip} \<and>
      (DoSkip \<in> set (pl_Accept r) \<longrightarrow> pl_From r \<noteq> AnyInspector \<and> pl_From r \<noteq> [])) \<and>
    (\<forall>r \<in> set (pf_Rules p). er_Do r \<noteq> [] \<longrightarrow> (askTravels (er_On r) \<or> recordVerb (er_Do r)) \<and>
      (recordVerb (er_Do r) \<longrightarrow> er_To r = []) \<and> (controlVerb (er_Do r) \<longrightarrow> er_To r \<noteq> [])) \<and>
    (\<forall>r \<in> set (pf_Rules p). er_Do r = DoThreshold \<longrightarrow> (\<exists>d. er_Delta r = Some d \<and> d \<noteq> 0 \<and> -100 \<le> d \<and> d \<le> 900)) \<and>
    (\<forall>r \<in> set (pf_Rules p). er_Do r = DoNote \<or> er_Do r = DoScore \<longrightarrow>
      (\<exists>v. er_Value r = Some v \<and> v \<noteq> 0 \<and> \<bar>v\<bar> \<le> 100))"
proof -
  have prior: "validatePrior r = None" if "r \<in> set (tr_Prior (pf_Trigger p))" for r
    using assms that by (auto simp: Profile_Validate_def)
  have ask: "validateAsk ct r = None" if "r \<in> set (pf_Rules p)" "er_Do r \<noteq> []" for r
  proof -
    have "validateEventRule ct r = None"
      using assms that(1) by (auto simp: Profile_Validate_def)
    with that(2) show ?thesis by (simp add: validateEventRule_def)
  qed
  have "set (pl_Accept r) \<subseteq> {DoReauth, DoSkip} \<and>
      (DoSkip \<in> set (pl_Accept r) \<longrightarrow> pl_From r \<noteq> AnyInspector \<and> pl_From r \<noteq> [])"
    if "r \<in> set (tr_Prior (pf_Trigger p))" for r
  proof -
    from prior [OF that] have "\<forall>v \<in> set (pl_Accept r). accept_error v = None" "pl_From r \<noteq> []"
      "pl_From r = AnyInspector \<longrightarrow> \<not> PriorRule_Accepts r DoSkip"
      by (auto simp: validatePrior_def split: if_splits)
    moreover from this(1) have "set (pl_Accept r) \<subseteq> {DoReauth, DoSkip}"
      by (auto simp: accept_error_def split: if_splits)
    ultimately show ?thesis
      by (auto simp: PriorRule_Accepts_def member_loop_iff)
  qed
  moreover have "(askTravels (er_On r) \<or> recordVerb (er_Do r)) \<and> (recordVerb (er_Do r) \<longrightarrow> er_To r = []) \<and>
      (controlVerb (er_Do r) \<longrightarrow> er_To r \<noteq> [])" if "r \<in> set (pf_Rules p)" "er_Do r \<noteq> []" for r
    using ask [OF that] by (simp add: validateAsk_def Let_def split: option.splits)
  moreover have "\<exists>d. er_Delta r = Some d \<and> d \<noteq> 0 \<and> -100 \<le> d \<and> d \<le> 900"
    if "r \<in> set (pf_Rules p)" "er_Do r = DoThreshold" for r
    using ask [OF that(1)] that(2)
    by (auto simp: validateAsk_def ask_axes_def Let_def out_of_def not_less split: option.splits)
  moreover have "\<exists>v. er_Value r = Some v \<and> v \<noteq> 0 \<and> \<bar>v\<bar> \<le> 100"
    if "r \<in> set (pf_Rules p)" "er_Do r = DoNote \<or> er_Do r = DoScore" for r
  proof -
    have "er_Do r \<noteq> []" using that(2) by auto
    from ask [OF that(1) this] that(2) have "\<forall>x \<in> set (value_checks r). x = None"
      by (auto simp: validateAsk_def ask_axes_def Let_def)
    with that(2) show ?thesis
      by (auto simp: value_checks_def out_of_def abs_le_iff not_less)
  qed
  ultimately show ?thesis by blast
qed


lemma sample_profile_validates: "Profile_Validate ascii_tables (sample_profile ModeEnforce) = None"
  by (simp add: Profile_Validate_def sample_profile_def validatePrior_def accept_error_def
      ascii_tables_def ascii_upper_char_def char_of_def)

theorem validated_profile_rules_witness:
  "\<exists>r \<in> set (tr_Prior (pf_Trigger (sample_profile ModeEnforce))). DoSkip \<in> set (pl_Accept r) \<and> pl_From r \<noteq> AnyInspector"
  using validated_profile_rules [OF sample_profile_validates] by (auto simp: sample_profile_def)


section \<open>What validation lets through\<close>

text \<open>A source for the second factor whose period is half a second.\<close>

definition half_second_cfg :: code_provider where
  "half_second_cfg = sample_code_cfg\<lparr>cp_Period := 500 * millisecond\<rparr>"

definition half_second_source :: source where
  "half_second_source = sample_source\<lparr>src_Provider := ProviderCode, src_IdentityFrom := ''first'',
     src_Providers := (src_Providers sample_source)\<lparr>pr_Code := Some half_second_cfg\<rparr>\<rparr>"

text \<open>The validation of a period only asks for a positive one, but the counter divides by its
  whole seconds. A source with a period of half a second is accepted, and then every submit of a
  code by a client with an account divides by zero.\<close>

theorem subsecond_period_panics:
  "Source_Validate ascii_tables half_second_source = Inr half_second_source \<and>
   Code_Verify sample_penv (pr_Code (src_Providers half_second_source)) sample_users
     (sample_creds\<lparr>cr_Code := ''123456''\<rparr>) (Some sample_prior) = None"
proof
  have "first_some (gate_checks half_second_source) = None"
    by (simp add: gate_checks_def half_second_source_def sample_source_def second_def Let_def)
  moreover have "list_defaults half_second_source = half_second_source"
    by (simp add: list_defaults_def half_second_source_def sample_source_def List_Enabled_def)
  moreover have "first_some (list_checks half_second_source @ shared_checks half_second_source) = None"
    by (simp add: list_checks_def shared_checks_def half_second_source_def sample_source_def List_Enabled_def)
  moreover have "validateProvider ascii_tables half_second_source = Inr half_second_source"
    by (simp add: validateProvider_def provider_checked_def half_second_source_def sample_source_def with_source_def
        refuse_def validateCode_def half_second_cfg_def sample_code_cfg_def millisecond_def)
  ultimately show "Source_Validate ascii_tables half_second_source = Inr half_second_source"
    by (simp add: Source_Validate_def del: first_some_None)
next
  have "secretOf sample_penv sample_users (id_Subject sample_prior) = Inr ''MFRGG''"
    by (simp add: secretOf_def sample_prior_def sample_penv_def sample_user_key sample_users_def sample_user_def User_Active_def)
  moreover have "otp_counter (pe_Now sample_penv) (cp_Period half_second_cfg) = None"
    by (simp add: otp_counter_panics half_second_cfg_def millisecond_def second_def)
  moreover have "otp_Secret (pe_ct sample_penv) ''MFRGG'' = Some ''abc''"
    using sample_secret by (simp add: sample_penv_def)
  moreover have "id_Subject sample_prior \<noteq> []" by (simp add: sample_prior_def)
  ultimately have "Code_totp sample_penv half_second_cfg sample_users ''123456'' (Some sample_prior) = None"
    by (simp add: Code_totp_def)
  moreover have "TrimSpace ''123456'' = ''123456''"
    by (simp add: tidy_visible visible_def)
  ultimately show "Code_Verify sample_penv (pr_Code (src_Providers half_second_source)) sample_users
     (sample_creds\<lparr>cr_Code := ''123456''\<rparr>) (Some sample_prior) = None"
    by (simp add: Code_Verify_def half_second_source_def half_second_cfg_def sample_code_cfg_def)
qed

text \<open>A source whose form is at the root.\<close>

definition root_form :: "source \<Rightarrow> source" where
  "root_form s = s\<lparr>src_Login := (src_Login s)\<lparr>lg_URI := ''/''\<rparr>\<rparr>"

text \<open>Validation accepts a form at the path of the root, and then every absolute path counts as
  the form's own: the gate lets every request through without looking at a credential.\<close>

theorem form_at_root_opens_the_gate:
  "Source_Validate ascii_tables (root_form sample_source) = Inr (root_form sample_source) \<and>
   (\<forall>env inp ses p. in_Profile inp = Some p \<and> pf_Src p = Some (root_form sample_source) \<and> HasPrefix (in_URI inp) ''/'' \<longrightarrow>
      (\<exists>r. Check env inp ses = Some r \<and> rs_Verdict r = VerdictAllow \<and> rs_Session r = None))"
proof
  have "first_some (gate_checks (root_form sample_source)) = None"
    by (simp add: gate_checks_def root_form_def sample_source_def second_def Let_def)
  moreover have "list_defaults (root_form sample_source) = root_form sample_source"
    by (simp add: list_defaults_def root_form_def sample_source_def List_Enabled_def)
  moreover have "first_some (list_checks (root_form sample_source) @ shared_checks (root_form sample_source)) = None"
    by (simp add: list_checks_def shared_checks_def root_form_def sample_source_def List_Enabled_def)
  moreover have "validateProvider ascii_tables (root_form sample_source) = Inr (root_form sample_source)"
    by (simp add: validateProvider_def provider_checked_def root_form_def sample_source_def with_source_def refuse_def)
  ultimately show "Source_Validate ascii_tables (root_form sample_source) = Inr (root_form sample_source)"
    by (simp add: Source_Validate_def del: first_some_None)
next
  have own: "OwnPath p uri" if "pf_Src p = Some (root_form sample_source)" "HasPrefix uri ''/''" for p uri
    using that by (auto simp: OwnPath_def root_form_def sample_source_def Learns_def under_login_def TrimRightBytes_def)
  show "\<forall>env inp ses p. in_Profile inp = Some p \<and> pf_Src p = Some (root_form sample_source) \<and> HasPrefix (in_URI inp) ''/'' \<longrightarrow>
      (\<exists>r. Check env inp ses = Some r \<and> rs_Verdict r = VerdictAllow \<and> rs_Session r = None)"
    using own by (auto simp: Check_def Let_def)
qed


theorem form_at_root_opens_the_gate_witness:
  "\<exists>r. Check sample_env ((sample_input ModeEnforce [] 0)\<lparr>in_Profile :=
      Some ((sample_profile ModeEnforce)\<lparr>pf_Src := Some (root_form sample_source)\<rparr>)\<rparr>) None = Some r \<and>
    rs_Verdict r = VerdictAllow"
proof -
  let ?inp = "(sample_input ModeEnforce [] 0)\<lparr>in_Profile := Some ((sample_profile ModeEnforce)\<lparr>pf_Src := Some (root_form sample_source)\<rparr>)\<rparr>"
  have "HasPrefix (in_URI ?inp) ''/''" by (simp add: sample_input_def)
  then show ?thesis
    using conjunct2 [OF form_at_root_opens_the_gate, rule_format, of ?inp "(sample_profile ModeEnforce)\<lparr>pf_Src := Some (root_form sample_source)\<rparr>"]
    by auto
qed


section \<open>The users file\<close>

lemma parse_users_ok:
  "parse_users ct us out = Inr m \<Longrightarrow>
     (\<forall>k u. m k = Some u \<longrightarrow> out k = Some u \<or> (Some u \<in> set us \<and> k = user_key ct (us_Login u) \<and>
        isBcrypt (us_Password u) \<and> (us_TOTP u = [] \<or> us_TOTPStore u = []))) \<and>
     (\<forall>k u. out k = Some u \<longrightarrow> m k = Some u) \<and>
     None \<notin> set us \<and> (\<forall>u. Some u \<in> set us \<longrightarrow> m (user_key ct (us_Login u)) = Some u)"
proof (induction ct us out rule: parse_users.induct)
  case (3 ct u us out)
  let ?key = "ct_lower ct (TrimSpace (us_Login u))"
  from "3.prems" have ok: "out ?key = None" "isBcrypt (us_Password u)" "us_TOTP u = [] \<or> us_TOTPStore u = []"
    and rest: "parse_users ct us (out(?key \<mapsto> u)) = Inr m" and tidy: "TrimSpace (us_Login u) \<noteq> []"
    by (auto simp: Let_def split: if_splits)
  from "3.IH" [OF tidy refl _ _ _ rest] ok have IH:
    "(\<forall>k v. m k = Some v \<longrightarrow> (out(?key \<mapsto> u)) k = Some v \<or> (Some v \<in> set us \<and> k = user_key ct (us_Login v) \<and>
        isBcrypt (us_Password v) \<and> (us_TOTP v = [] \<or> us_TOTPStore v = [])))"
    "\<forall>k v. (out(?key \<mapsto> u)) k = Some v \<longrightarrow> m k = Some v"
    "None \<notin> set us" "\<forall>v. Some v \<in> set us \<longrightarrow> m (user_key ct (us_Login v)) = Some v"
    by blast+
  from IH(2) have "m ?key = Some u" by simp
  moreover have "\<forall>k v. out k = Some v \<longrightarrow> m k = Some v"
    using IH(2) ok(1) by (metis fun_upd_other option.distinct(1))
  moreover have "out k = Some v \<or> (Some v \<in> set (Some u # us) \<and> k = user_key ct (us_Login v) \<and>
        isBcrypt (us_Password v) \<and> (us_TOTP v = [] \<or> us_TOTPStore v = []))" if "m k = Some v" for k v
    using IH(1) [rule_format, OF that] ok by (cases "k = ?key") (auto simp: user_key_def)
  ultimately show ?case
    using IH(3,4) by (auto simp: user_key_def)
qed auto

text \<open>The users file becomes exactly the map the logins are looked up in: every account is found
  under its login, trimmed and in lower case, no two share one, every password is a bcrypt hash,
  and nobody has two places for a TOTP secret.\<close>

theorem users_file_is_the_map:
  assumes "ParseUsers ct us = Inr m"
  shows "None \<notin> set us \<and> (\<forall>u. Some u \<in> set us \<longleftrightarrow> m (user_key ct (us_Login u)) = Some u) \<and>
    (\<forall>k u. m k = Some u \<longrightarrow> k = user_key ct (us_Login u) \<and> isBcrypt (us_Password u) \<and>
      (us_TOTP u = [] \<or> us_TOTPStore u = []))"
  using parse_users_ok [OF assms [unfolded ParseUsers_def]] by auto

theorem users_file_is_the_map_witness:
  "\<exists>m. ParseUsers ascii_tables [Some (sample_user\<lparr>us_Password := ''$2a$''\<rparr>)] = Inr m \<and>
     m ''alice'' = Some (sample_user\<lparr>us_Password := ''$2a$''\<rparr>)"
proof -
  have "\<exists>m. ParseUsers ascii_tables [Some (sample_user\<lparr>us_Password := ''$2a$''\<rparr>)] = Inr m"
    by (simp add: ParseUsers_def sample_user_def isBcrypt_def visible_alice Let_def)
  then obtain m where m: "ParseUsers ascii_tables [Some (sample_user\<lparr>us_Password := ''$2a$''\<rparr>)] = Inr m" ..
  let ?u = "sample_user\<lparr>us_Password := ''$2a$''\<rparr>"
  have "Some ?u \<in> set [Some ?u]" by simp
  with users_file_is_the_map [OF m] have "m (user_key ascii_tables (us_Login ?u)) = Some ?u" by blast
  moreover have "us_Login ?u = ''alice''" by (simp add: sample_user_def)
  ultimately show ?thesis
    using m sample_user_key by (intro exI [of _ m]) simp
qed

end
