(* ===== verification/Server.thy ===== *)
theory Server
  imports Provider Profiles Livelist Url
begin

text \<open>
  The login site (\<open>cmd/http/server.go\<close>): which source a path belongs to, the form and its ticket,
  renewal, logout, and the cookies and list entries a session is made of. Submitting the form is
  in the theory of the login.

  A handler turns the request and the response written so far into the response. What the
  process draws from outside (the clock, random bytes, the JSON forms, the ciphers, the session
  list) is the record \<open>server_env\<close>; one handler reads the clock once. The dataset publisher only
  takes entries to publish, and its errors are logged: they are the list \<open>wr_published\<close>.
\<close>

section \<open>Requests and responses\<close>

text \<open>\<open>rq_cookie\<close> is \<open>cookieValue\<close>, \<open>rq_RealIP\<close> the values of the configured header, \<open>rq_Form\<close> the
  fields of the posted form, \<open>None\<close> when it does not parse or is too large.\<close>

record http_req =
  rq_Method :: string
  rq_Path :: string
  rq_Query :: string
  rq_cookie :: "string \<Rightarrow> string"
  rq_RealIP :: "string list"
  rq_RemoteAddr :: string
  rq_UserAgent :: string
  rq_Form :: "(string \<Rightarrow> string) option"

record set_cookie =
  sk_Name :: string
  sk_Value :: string
  sk_Path :: string
  sk_MaxAge :: int
  sk_HttpOnly :: bool
  sk_Secure :: bool
  sk_SameSite :: string

record view =
  vw_Title :: string
  vw_Note :: string
  vw_Action :: string
  vw_Nonce :: string
  vw_Error :: string
  vw_AskLogin :: bool
  vw_AskPassword :: bool
  vw_AskCode :: bool
  vw_Done :: bool
  vw_DoneText :: string
  vw_LoginURI :: string

datatype list_op = ListAdd string string duration string | ListRemove string string string

record writer =
  wr_Status :: int
  wr_Cookies :: "set_cookie list"
  wr_Location :: string
  wr_Page :: "view option"
  wr_published :: "list_op list"

definition new_writer :: writer where
  "new_writer = \<lparr>wr_Status = 0, wr_Cookies = [], wr_Location = [], wr_Page = None, wr_published = []\<rparr>"

record server_env =
  sv_ct :: case_tables
  sv_nt :: ip_text
  sv_sha256 :: "bytes \<Rightarrow> bytes"
  sv_Key :: aead
  sv_AppKey :: "aead option"
  sv_session_bytes :: "token_session \<Rightarrow> bytes option"
  sv_session_json :: "bytes \<Rightarrow> token_session option"
  sv_ticket_bytes :: "ticket \<Rightarrow> bytes option"
  sv_ticket_json :: "bytes \<Rightarrow> ticket option"
  sv_identity_bytes :: "app_identity \<Rightarrow> bytes option"
  sv_snapshot :: "snapshot option"
  sv_Contains :: "(string \<Rightarrow> string \<Rightarrow> bool \<times> bool) option"
  sv_list :: bool
  sv_CookieSecure :: bool
  sv_Now :: time
  sv_nonce_id :: bytes
  sv_session_id :: bytes
  sv_rand_ticket :: "bytes option"
  sv_rand_session :: "bytes option"
  sv_rand_identity :: "bytes option"

abbreviation "StatusOK \<equiv> 200 :: int"
abbreviation "StatusSeeOther \<equiv> 303 :: int"
abbreviation "StatusUnauthorized \<equiv> 401 :: int"
abbreviation "StatusNotFound \<equiv> 404 :: int"
abbreviation "StatusMethodNotAllowed \<equiv> 405 :: int"
abbreviation "StatusInternalServerError \<equiv> 500 :: int"


section \<open>Addresses\<close>

definition localPath_max :: nat where
  "localPath_max = 1024"

definition localPath :: "string \<Rightarrow> string" where
  "localPath raw =
     (if raw = [] \<or> hd raw \<noteq> CHR ''/'' \<or> HasPrefix raw ''//'' \<or> length raw > localPath_max then []
      else if list_ex (\<lambda>c. byte_val c < 0x21 \<or> byte_val c > 0x7e \<or> c = CHR 0x5C) raw then []
      else raw)"

text \<open>\<open>URL.Query\<close> keeps every pair that reads and drops the others.\<close>

fun good_pairs :: "string list \<Rightarrow> (string \<times> string) list" where
  "good_pairs [] = []"
| "good_pairs (part # parts) =
     (if part = [] \<or> CHR '';'' \<in> set part then good_pairs parts
      else (let (key, value) = (case Cut (CHR ''='') part of Some kv \<Rightarrow> kv | None \<Rightarrow> (part, []))
            in case (QueryUnescape key, QueryUnescape value) of
                 (Some k, Some v) \<Rightarrow> (k, v) # good_pairs parts
               | _ \<Rightarrow> good_pairs parts))"

definition query_get :: "string \<Rightarrow> string \<Rightarrow> string" where
  "query_get query key =
     (case query_values (good_pairs (Split (CHR ''&'') query)) key of [] \<Rightarrow> [] | v # vs \<Rightarrow> v)"

definition forwardedAddr :: "ip_text \<Rightarrow> string list \<Rightarrow> string \<Rightarrow> string" where
  "forwardedAddr nt values remote =
     (let host = (case SplitHostPort remote of None \<Rightarrow> remote | Some (host, _) \<Rightarrow> host)
      in if values = [] then host
         else (let v = last values;
                   v = (case Cut (CHR '','') (rev v) of None \<Rightarrow> v | Some (tail, _) \<Rightarrow> rev tail);
                   ip = TrimSpace v
               in if ParseIP nt ip \<noteq> None then ip else host))"

definition clientIP :: "server_env \<Rightarrow> http_req \<Rightarrow> string" where
  "clientIP env rq = forwardedAddr (sv_nt env) (rq_RealIP rq) (rq_RemoteAddr rq)"

definition backTo :: "http_req \<Rightarrow> string" where
  "backTo rq = (let back = localPath (query_get (rq_Query rq) ''rd'') in if back \<noteq> [] then back else ''/'')"

definition bindOf :: "server_env \<Rightarrow> http_req \<Rightarrow> source \<Rightarrow> bind" where
  "bindOf env rq src =
     \<lparr>bd_Net = (if BindsNet src
        then Subnet (sv_nt env) (clientIP env rq) (sc_V4 (src_Session src)) (sc_V6 (src_Session src)) else []),
      bd_UA = (if BindsUA src then Fingerprint (sv_sha256 env) (rq_UserAgent rq) else [])\<rparr>"


section \<open>Routing\<close>

abbreviation (input) actionForm :: string where "actionForm \<equiv> []"
abbreviation "actionRenew \<equiv> ''renew''"
abbreviation "actionLogout \<equiv> ''logout''"
abbreviation "actionHealth \<equiv> ''healthz''"

text \<open>The rest of the path under the source's form; \<open>None\<close> skips the source.\<close>

definition route_rest :: "source \<Rightarrow> string \<Rightarrow> string option" where
  "route_rest src uri =
     (let base = lg_URI (src_Login src)
      in if base = [] \<or> External src then None
         else if uri = base then Some actionForm
         else if HasPrefix uri (base @ ''/'') then Some (TrimBytes ''/'' (drop (length base + 1) uri))
         else None)"

fun route_scan :: "source list \<Rightarrow> string \<Rightarrow> (source \<times> string) option \<Rightarrow> (source \<times> string) option" where
  "route_scan [] uri best = best"
| "route_scan (src # srcs) uri best =
     (case route_rest src uri of
        None \<Rightarrow> route_scan srcs uri best
      | Some rest \<Rightarrow> route_scan srcs uri
          (case best of
             None \<Rightarrow> Some (src, rest)
           | Some (b, _) \<Rightarrow>
               (if length (lg_URI (src_Login src)) > length (lg_URI (src_Login b)) then Some (src, rest) else best)))"

definition route :: "snapshot option \<Rightarrow> string \<Rightarrow> (source \<times> string) option" where
  "route snap uri = route_scan (Snapshot_Sources snap) uri None"


section \<open>Sessions in time\<close>

definition alive :: "server_env \<Rightarrow> source \<Rightarrow> token_session \<Rightarrow> bool" where
  "alive env src s =
     (if \<not> List_Enabled (src_List src) then True
      else if sv_Now env - unix_time (ts_Issued s) \<le> lc_Grace (src_List src) then True
      else (case sv_Contains env of
              None \<Rightarrow> False
            | Some f \<Rightarrow> (case f (lc_Sessions (src_List src)) (ts_SID s) of (listed, ready) \<Rightarrow> ready \<and> listed)))"

definition expiryOf :: "time \<Rightarrow> source \<Rightarrow> int \<Rightarrow> int" where
  "expiryOf now src born =
     (let expiry = now + sc_TTL (src_Session src);
          max = sc_MaxTTL (src_Session src);
          last = unix_time born + max
      in unix (if max > 0 \<and> last < expiry then last else expiry))"

definition renewAt :: "time \<Rightarrow> source \<Rightarrow> int" where
  "renewAt now src =
     (if sc_RenewAfter (src_Session src) \<le> 0 then 0 else unix (now + sc_RenewAfter (src_Session src)))"

text \<open>The empty string is a session that may be renewed.\<close>

definition spent :: "server_env \<Rightarrow> source \<Rightarrow> token_session \<Rightarrow> string" where
  "spent env src s =
     (let born = (if ts_Born s = 0 then ts_Issued s else ts_Born s);
          max = sc_MaxTTL (src_Session src)
      in if max > 0 \<and> sv_Now env - unix_time born \<ge> max then ''max_ttl''
         else if src_Provider src \<noteq> ProviderLocal then []
         else (case src_Users src (ct_lower (sv_ct env) (ts_Sub s)) of
                 None \<Rightarrow> ''user removed''
               | Some u \<Rightarrow>
                   (if \<not> User_Active u then ''user disabled''
                    else if ts_Cred s \<noteq> [] \<and> ts_Cred s \<noteq> Credential (sv_sha256 env) (us_Password u)
                      then ''password changed''
                    else [])))"



section \<open>Writing the response\<close>

definition writeCookie :: "server_env \<Rightarrow> string \<Rightarrow> string \<Rightarrow> string \<Rightarrow> duration \<Rightarrow> writer \<Rightarrow> writer" where
  "writeCookie env name value path ttl w = w\<lparr>wr_Cookies := wr_Cookies w @
     [\<lparr>sk_Name = name, sk_Value = value, sk_Path = path, sk_MaxAge = whole_seconds ttl,
       sk_HttpOnly = True, sk_Secure = sv_CookieSecure env, sk_SameSite = ''Lax''\<rparr>]\<rparr>"

definition dropCookie :: "server_env \<Rightarrow> string \<Rightarrow> string \<Rightarrow> writer \<Rightarrow> writer" where
  "dropCookie env name path w = w\<lparr>wr_Cookies := wr_Cookies w @
     [\<lparr>sk_Name = name, sk_Value = [], sk_Path = path, sk_MaxAge = -1,
       sk_HttpOnly = True, sk_Secure = sv_CookieSecure env, sk_SameSite = ''Lax''\<rparr>]\<rparr>"

definition server_fail :: "writer \<Rightarrow> writer" where
  "server_fail w = w\<lparr>wr_Status := StatusInternalServerError\<rparr>"

text \<open>\<open>http.Redirect\<close>; it also cleans the path it is given.\<close>

definition redirectTo :: "string \<Rightarrow> writer \<Rightarrow> writer" where
  "redirectTo url w = w\<lparr>wr_Status := StatusSeeOther, wr_Location := url\<rparr>"

definition redirectToForm :: "http_req \<Rightarrow> source \<Rightarrow> writer \<Rightarrow> writer" where
  "redirectToForm rq src w =
     (let back = localPath (query_get (rq_Query rq) ''rd'')
      in redirectTo (if back \<noteq> [] then lg_URI (src_Login src) @ ''?rd='' @ QueryEscape back
                     else lg_URI (src_Login src)) w)"

definition statusFor :: "string \<Rightarrow> int" where
  "statusFor msg = (if msg = [] then StatusOK else StatusUnauthorized)"

definition render :: "source \<Rightarrow> string \<Rightarrow> string \<Rightarrow> bool \<Rightarrow> string \<Rightarrow> int \<Rightarrow> writer \<Rightarrow> writer" where
  "render src nonce err done doneText status w =
     (case Provider_Build src of
        Inl _ \<Rightarrow> server_fail w
      | Inr p \<Rightarrow> w\<lparr>wr_Status := status, wr_Page := Some
          \<lparr>vw_Title = (if lg_Title (src_Login src) = [] then ''Sign in'' else lg_Title (src_Login src)),
           vw_Note = lg_Note (src_Login src), vw_Action = lg_URI (src_Login src), vw_Nonce = nonce, vw_Error = err,
           vw_AskLogin = (FieldLogin \<in> set (Provider_Fields p)),
           vw_AskPassword = (FieldPassword \<in> set (Provider_Fields p)),
           vw_AskCode = (FieldCode \<in> set (Provider_Fields p)),
           vw_Done = done, vw_DoneText = doneText, vw_LoginURI = lg_URI (src_Login src)\<rparr>\<rparr>)"


section \<open>The form\<close>

text \<open>
  The ticket of the request is used even when \<open>OpenTicket\<close> reports that it has expired: the
  error is dropped and an expired ticket comes back beside it.
\<close>

definition page_ticket :: "server_env \<Rightarrow> http_req \<Rightarrow> source \<Rightarrow> ticket option" where
  "page_ticket env rq src =
     (case fst (OpenTicket (sv_Key env) (sv_ticket_json env) (rq_cookie rq (tc_Cookie (src_Ticket src))) (sv_Now env)) of
        None \<Rightarrow> None
      | Some t \<Rightarrow> (if tk_Scope t \<noteq> src_Name src then None else Some t))"

definition page :: "server_env \<Rightarrow> http_req \<Rightarrow> source \<Rightarrow> string \<Rightarrow> bool \<Rightarrow> writer \<Rightarrow> writer" where
  "page env rq src msg rotates w =
     (let ticket = page_ticket env rq src;
          back = localPath (query_get (rq_Query rq) ''rd'');
          back = (if back = [] then (case ticket of Some t \<Rightarrow> tk_Return t | None \<Rightarrow> []) else back);
          fresh = \<lparr>tk_Nonce = NewID (sv_nonce_id env), tk_Return = back, tk_Scope = src_Name src,
                   tk_Expiry = unix (sv_Now env + tc_TTL (src_Ticket src))\<rparr>;
          show = (\<lambda>t w. render src (tk_Nonce t) msg False [] (statusFor msg) w)
      in case ticket of
           Some t \<Rightarrow>
             (if rotates \<or> tk_Return t \<noteq> back then
                (case SealTicket (sv_Key env) (sv_ticket_bytes env) (sv_rand_ticket env) fresh of
                   None \<Rightarrow> server_fail w
                 | Some sealed \<Rightarrow> show fresh (writeCookie env (tc_Cookie (src_Ticket src)) sealed (lg_URI (src_Login src)) (tc_TTL (src_Ticket src)) w))
              else show t w)
         | None \<Rightarrow>
             (case SealTicket (sv_Key env) (sv_ticket_bytes env) (sv_rand_ticket env) fresh of
                None \<Rightarrow> server_fail w
              | Some sealed \<Rightarrow> show fresh (writeCookie env (tc_Cookie (src_Ticket src)) sealed (lg_URI (src_Login src)) (tc_TTL (src_Ticket src)) w)))"

abbreviation form :: "server_env \<Rightarrow> http_req \<Rightarrow> source \<Rightarrow> string \<Rightarrow> writer \<Rightarrow> writer" where
  "form env rq src msg \<equiv> page env rq src msg False"

abbreviation reform :: "server_env \<Rightarrow> http_req \<Rightarrow> source \<Rightarrow> string \<Rightarrow> writer \<Rightarrow> writer" where
  "reform env rq src msg \<equiv> page env rq src msg True"


section \<open>Issuing a session\<close>

definition publish_op :: "server_env \<Rightarrow> list_op \<Rightarrow> writer \<Rightarrow> writer" where
  "publish_op env op w = (if sv_list env then w\<lparr>wr_published := wr_published w @ [op]\<rparr> else w)"

definition remember :: "server_env \<Rightarrow> source \<Rightarrow> token_session \<Rightarrow> writer \<Rightarrow> writer" where
  "remember env src s w =
     (if \<not> List_Enabled (src_List src) then w
      else (let ttl = unix_time (ts_Expiry s) - sv_Now env;
                ttl = (if ttl > lc_TTL (src_List src) then lc_TTL (src_List src) else ttl)
            in publish_op env (ListAdd (lc_Sessions (src_List src)) (ts_SID s) ttl (''AUTH_LOGIN '' @ ts_Sub s)) w))"

definition forget :: "server_env \<Rightarrow> source \<Rightarrow> string \<Rightarrow> string \<Rightarrow> writer \<Rightarrow> writer" where
  "forget env src sid reason w =
     (if \<not> List_Enabled (src_List src) \<or> sid = [] then w
      else publish_op env (ListRemove (lc_Sessions (src_List src)) sid reason) w)"

text \<open>\<open>None\<close> is an error; what was written before it stays written.\<close>

definition identify :: "server_env \<Rightarrow> source \<Rightarrow> token_session \<Rightarrow> duration \<Rightarrow> writer \<Rightarrow> bool \<times> writer" where
  "identify env src s ttl w =
     (case sv_AppKey env of
        None \<Rightarrow> (True, w)
      | Some key \<Rightarrow>
          (if up_Cookie (src_Upstream src) = [] then (True, w)
           else (let ttl = (if up_TTL (src_Upstream src) > 0 \<and> up_TTL (src_Upstream src) < ttl
                            then up_TTL (src_Upstream src) else ttl)
                 in case SealIdentity key (sv_identity_bytes env) (sv_rand_identity env)
                      \<lparr>ai_Sub = ts_Sub s, ai_Display = ts_Sub s, ai_Groups = ts_Groups s, ai_AMR = ts_AMR s,
                       ai_Issued = ts_Issued s, ai_Expiry = unix (sv_Now env + ttl), ai_SID = ts_SID s,
                       ai_Scope = ts_Scope s\<rparr> of
                      None \<Rightarrow> (False, w)
                    | Some sealed \<Rightarrow> (True, writeCookie env (up_Cookie (src_Upstream src)) sealed ''/'' ttl w))))"

definition issue :: "server_env \<Rightarrow> source \<Rightarrow> token_session \<Rightarrow> writer \<Rightarrow> bool \<times> writer" where
  "issue env src s w =
     (case SealSession (sv_Key env) (sv_session_bytes env) (sv_rand_session env) s of
        None \<Rightarrow> (False, w)
      | Some sealed \<Rightarrow>
          (let ttl = unix_time (ts_Expiry s) - sv_Now env;
               w = writeCookie env (sc_Cookie (src_Session src)) sealed ''/'' ttl w;
               w = dropCookie env (tc_Cookie (src_Ticket src)) (lg_URI (src_Login src)) w;
               w = (if List_Enabled (src_List src) then writeCookie env (lc_Cookie (src_List src)) (ts_SID s) ''/'' ttl w else w)
           in case identify env src s ttl w of
                (False, w) \<Rightarrow> (False, w)
              | (True, w) \<Rightarrow> (True, remember env src s w)))"


section \<open>Renewal and logout\<close>

text \<open>The session of a request that the site takes for valid.\<close>

definition current_session :: "server_env \<Rightarrow> http_req \<Rightarrow> source \<Rightarrow> token_session option" where
  "current_session env rq src =
     (case OpenSession (sv_Key env) (sv_session_json env) (rq_cookie rq (sc_Cookie (src_Session src))) (sv_Now env)
             (bindOf env rq src) of
        (Some s, None) \<Rightarrow>
          (if ts_Scope s \<noteq> sc_Cookie (src_Session src) \<or> ts_Iss s \<noteq> src_Name src \<or> \<not> alive env src s
           then None else Some s)
      | _ \<Rightarrow> None)"

definition renewed :: "time \<Rightarrow> source \<Rightarrow> token_session \<Rightarrow> token_session" where
  "renewed now src s =
     (let born = (if ts_Born s = 0 then ts_Issued s else ts_Born s)
      in s\<lparr>ts_Born := born, ts_Issued := unix now, ts_Expiry := expiryOf now src born, ts_Renew := renewAt now src\<rparr>)"

definition renew :: "server_env \<Rightarrow> http_req \<Rightarrow> source \<Rightarrow> writer \<Rightarrow> writer" where
  "renew env rq src w =
     (case current_session env rq src of
        None \<Rightarrow> redirectToForm rq src w
      | Some s \<Rightarrow>
          (if spent env src s \<noteq> [] then
             redirectToForm rq src (forget env src (ts_SID s) (''AUTH_RENEW_REFUSED '' @ ts_Sub s) w)
           else (case issue env src (renewed (sv_Now env) src s) w of
                   (False, w) \<Rightarrow> server_fail w
                 | (True, w) \<Rightarrow> redirectTo (backTo rq) w)))"

definition closeGate :: "server_env \<Rightarrow> http_req \<Rightarrow> source \<Rightarrow> writer \<Rightarrow> writer" where
  "closeGate env rq src w =
     (let w = (case OpenSession (sv_Key env) (sv_session_json env) (rq_cookie rq (sc_Cookie (src_Session src)))
                      (sv_Now env) \<lparr>bd_Net = [], bd_UA = []\<rparr> of
                 (Some s, None) \<Rightarrow> forget env src (ts_SID s) (''AUTH_LOGOUT '' @ ts_Sub s) w
               | _ \<Rightarrow> w);
          w = dropCookie env (sc_Cookie (src_Session src)) ''/'' w;
          w = (if List_Enabled (src_List src) then dropCookie env (lc_Cookie (src_List src)) ''/'' w else w)
      in if up_Cookie (src_Upstream src) \<noteq> [] then dropCookie env (up_Cookie (src_Upstream src)) ''/'' w else w)"

definition logout :: "server_env \<Rightarrow> http_req \<Rightarrow> source \<Rightarrow> writer \<Rightarrow> writer" where
  "logout env rq src w =
     (let w = closeGate env rq src w;
          w = (if src_IdentityFrom src = [] then w
               else (case Snapshot_Source (sv_snapshot env) (src_IdentityFrom src) of
                       None \<Rightarrow> w | Some from \<Rightarrow> closeGate env rq from w))
      in render src [] [] True ''You have been signed out.'' StatusOK w)"


section \<open>Facts\<close>

lemma cookie_writes [simp]:
  "wr_Location (writeCookie env n v pth ttl w) = wr_Location w" "wr_Location (dropCookie env n pth w) = wr_Location w"
  "wr_Status (writeCookie env n v pth ttl w) = wr_Status w" "wr_Status (dropCookie env n pth w) = wr_Status w"
  "wr_Page (writeCookie env n v pth ttl w) = wr_Page w" "wr_Page (dropCookie env n pth w) = wr_Page w"
  "wr_published (writeCookie env n v pth ttl w) = wr_published w" "wr_published (dropCookie env n pth w) = wr_published w"
  by (simp_all add: writeCookie_def dropCookie_def)

lemma list_writes [simp]:
  "wr_Location (remember env src s w) = wr_Location w" "wr_Location (forget env src sid r w) = wr_Location w"
  "wr_Cookies (remember env src s w) = wr_Cookies w" "wr_Cookies (forget env src sid r w) = wr_Cookies w"
  "wr_Page (remember env src s w) = wr_Page w" "wr_Page (forget env src sid r w) = wr_Page w"
  by (simp_all add: remember_def forget_def publish_op_def Let_def)

lemma identify_keeps:
  "wr_Location (snd (identify env src s ttl w)) = wr_Location w" "wr_published (snd (identify env src s ttl w)) = wr_published w"
  by (simp_all add: identify_def Let_def split: option.splits)

lemma issue_cases:
  obtains "issue env src s w = (False, w)"
  | w' where "issue env src s w = (False, w')" "wr_Location w' = wr_Location w"
  | sealed w' where "SealSession (sv_Key env) (sv_session_bytes env) (sv_rand_session env) s = Some sealed"
      "issue env src s w = (True, remember env src s w')" "wr_Location w' = wr_Location w"
proof (cases "SealSession (sv_Key env) (sv_session_bytes env) (sv_rand_session env) s")
  case None
  then show thesis by (intro that(1)) (simp add: issue_def)
next
  case (Some sealed)
  define w1 where "w1 = (let ttl = unix_time (ts_Expiry s) - sv_Now env;
      w = dropCookie env (tc_Cookie (src_Ticket src)) (lg_URI (src_Login src))
        (writeCookie env (sc_Cookie (src_Session src)) sealed ''/'' ttl w)
    in (if List_Enabled (src_List src) then writeCookie env (lc_Cookie (src_List src)) (ts_SID s) ''/'' ttl w else w))"
  obtain ok w2 where i: "identify env src s (unix_time (ts_Expiry s) - sv_Now env) w1 = (ok, w2)" by force
  have "wr_Location w2 = wr_Location w1"
    using identify_keeps(1) [of env src s "unix_time (ts_Expiry s) - sv_Now env" w1] by (simp add: i)
  then have "wr_Location w2 = wr_Location w"
    by (simp add: w1_def Let_def)
  moreover have "issue env src s w = (if ok then (True, remember env src s w2) else (False, w2))"
    using Some i by (simp add: issue_def w1_def Let_def split: bool.splits)
  ultimately show thesis
    using that(2,3) Some by (cases ok) auto
qed

end
