(* ===== verification/Server_Props.thy ===== *)
theory Server_Props
  imports Server Decide
begin

text \<open>
  Properties of the login site: where it sends the client, which requests it serves, how long a
  session can be renewed, and the tickets of its form.
\<close>

section \<open>Where the client is sent\<close>

lemma good_pairs_parse: "parse_pairs parts = Some kvs \<Longrightarrow> good_pairs parts = kvs"
  by (induction parts arbitrary: kvs) (auto simp: Let_def split: if_splits option.splits prod.splits)

lemma query_get_single:
  assumes "list_all unreserved key" "key \<noteq> []"
  shows "query_get (key @ ''='' @ QueryEscape value) key = value"
proof -
  have "good_pairs (Split (CHR ''&'') (key @ ''='' @ QueryEscape value)) = [(key, value)]"
    by (rule good_pairs_parse) (use ParseQuery_single [OF assms] in \<open>simp add: ParseQuery_def\<close>)
  then show ?thesis by (simp add: query_get_def query_values_def)
qed

lemma query_get_rd: "query_get (''rd='' @ QueryEscape value) ''rd'' = value"
  using query_get_single [of "''rd''" "value"] by (simp add: unreserved_def)

text \<open>An address on this host: a path that no browser reads as another host.\<close>

definition local_target :: "string \<Rightarrow> bool" where
  "local_target p \<longleftrightarrow> p \<noteq> [] \<and> hd p = CHR ''/'' \<and> \<not> HasPrefix p ''//'' \<and> length p \<le> 1024 \<and>
     list_all (\<lambda>c. visible c \<and> c \<noteq> CHR 0x5C) p"

lemma plain_chars: "list_ex (\<lambda>c. byte_val c < 0x21 \<or> byte_val c > 0x7e \<or> c = CHR 0x5C) p \<longleftrightarrow>
    \<not> list_all (\<lambda>c. visible c \<and> c \<noteq> CHR 0x5C) p"
  by (induction p) (auto simp: visible_def Let_def not_less)

lemma localPath_eq: "localPath raw = (if local_target raw then raw else [])"
  unfolding localPath_def localPath_max_def plain_chars local_target_def by simp

lemma localPath_target: "localPath raw = [] \<or> (localPath raw = raw \<and> local_target raw)"
  by (simp add: localPath_eq)

lemma localPath_of_target: "local_target p \<Longrightarrow> localPath p = p"
  by (simp add: localPath_eq)

text \<open>The address that the gate puts into the link to the form.\<close>

lemma returnPath_target: "returnPath uri args = [] \<or> local_target (returnPath uri args)"
proof (cases "returnPath uri args = []")
  case False
  define out where "out = (if args \<noteq> [] then uri @ ''?'' @ args else uri)"
  from False have uri: "uri \<noteq> []" "hd uri = CHR ''/''" "\<not> HasPrefix uri ''//''"
    and out: "returnPath uri args = out" "length out \<le> 1024"
    "\<not> list_ex (\<lambda>c. byte_val c < 0x21 \<or> byte_val c > 0x7e \<or> c = CHR 0x5C) out"
    by (auto simp: returnPath_def returnPath_max_def out_def [symmetric] Let_def not_less split: if_splits)
  have "\<not> HasPrefix out ''//''"
    using uri by (cases uri rule: remdups_adj.cases) (auto simp: out_def)
  moreover have "list_all (\<lambda>c. visible c \<and> c \<noteq> CHR 0x5C) out"
    using out(3) unfolding plain_chars by simp
  ultimately show ?thesis
    using uri out by (auto simp: local_target_def out_def)
qed simp

text \<open>The address a client came for survives the way through the form: what the gate writes into
  the link to the form is what the form reads back, character for character, for every request
  the gate can see, and the site's own check never rejects what the gate's accepted.\<close>

theorem return_address_round_trip:
  "localPath (query_get (''rd='' @ QueryEscape (returnPath uri args)) ''rd'') = returnPath uri args"
proof -
  have "localPath (returnPath uri args) = returnPath uri args"
    using returnPath_target [of uri args] by (auto simp: localPath_of_target) (simp add: localPath_def)
  then show ?thesis by (simp only: query_get_rd)
qed

text \<open>Renewal never sends a client to another host: whatever the query holds, the redirect goes
  to a path of this host or to the source's form, and what it hands the form is such a path
  again.\<close>

theorem renewal_redirects_here:
  "wr_Location (renew env rq src new_writer) = [] \<or>
   local_target (wr_Location (renew env rq src new_writer)) \<or>
   wr_Location (renew env rq src new_writer) = lg_URI (src_Login src) \<or>
   (\<exists>back. local_target back \<and>
      wr_Location (renew env rq src new_writer) = lg_URI (src_Login src) @ ''?rd='' @ QueryEscape back)"
proof -
  have home: "local_target (backTo rq)"
    using localPath_target [of "query_get (rq_Query rq) ''rd''"]
    by (auto simp: backTo_def Let_def local_target_def visible_def)
  have to_form: "wr_Location (redirectToForm rq src w) = lg_URI (src_Login src) \<or>
      (\<exists>back. local_target back \<and> wr_Location (redirectToForm rq src w) = lg_URI (src_Login src) @ ''?rd='' @ QueryEscape back)" for w
    using localPath_target [of "query_get (rq_Query rq) ''rd''"]
    by (auto simp: redirectToForm_def redirectTo_def Let_def)
  show ?thesis
  proof (cases "current_session env rq src")
    case None
    then show ?thesis using to_form by (simp add: renew_def)
  next
    case (Some s)
    show ?thesis
      by (cases rule: issue_cases [of env src "renewed (sv_Now env) src s" new_writer])
        (use Some to_form home in \<open>auto simp: renew_def redirectTo_def server_fail_def new_writer_def\<close>)
  qed
qed


section \<open>Which requests are served\<close>

lemma route_scan_spec:
  "route_scan srcs uri best = Some (src, act) \<Longrightarrow>
     best = Some (src, act) \<or> (src \<in> set srcs \<and> route_rest src uri = Some act)"
  by (induction srcs uri best rule: route_scan.induct) (auto split: option.splits if_splits)

definition best_len :: "(source \<times> string) option \<Rightarrow> nat" where
  "best_len best = (case best of None \<Rightarrow> 0 | Some (b, _) \<Rightarrow> length (lg_URI (src_Login b)))"

lemma route_scan_longest:
  "best_len best \<le> best_len (route_scan srcs uri best) \<and>
   (\<forall>s \<in> set srcs. route_rest s uri \<noteq> None \<longrightarrow> length (lg_URI (src_Login s)) \<le> best_len (route_scan srcs uri best))"
proof (induction srcs uri best rule: route_scan.induct)
  case (2 src srcs uri best)
  show ?case
  proof (cases "route_rest src uri")
    case None
    with 2 show ?thesis by simp
  next
    case (Some rest)
    define b where "b = (case best of None \<Rightarrow> Some (src, rest)
      | Some (b, _) \<Rightarrow> (if length (lg_URI (src_Login src)) > length (lg_URI (src_Login b)) then Some (src, rest) else best))"
    have "best_len best \<le> best_len b \<and> length (lg_URI (src_Login src)) \<le> best_len b"
      by (auto simp: b_def best_len_def split: option.splits)
    moreover have "route_scan (src # srcs) uri best = route_scan srcs uri b"
      using Some by (simp add: b_def)
    ultimately show ?thesis
      using "2.IH"(2) [OF Some] by (fastforce simp: b_def)
  qed
qed simp

lemma route_rest_own_path:
  assumes "route_rest src uri = Some act" "pf_Src p = Some src"
  shows "OwnPath p uri"
proof -
  from assms(1) have base: "lg_URI (src_Login src) \<noteq> []"
    and uri: "uri = lg_URI (src_Login src) \<or> HasPrefix uri (lg_URI (src_Login src) @ ''/'')"
    by (auto simp: route_rest_def Let_def split: if_splits)
  have "under_login (lg_URI (src_Login src)) uri"
  proof (cases "uri = lg_URI (src_Login src)")
    case False
    with uri obtain r where r: "uri = (lg_URI (src_Login src) @ ''/'') @ r" by (auto elim: HasPrefixE)
    from TrimRightBytes_append [of "lg_URI (src_Login src)" "''/''"] obtain t where
      t: "lg_URI (src_Login src) = TrimRightBytes ''/'' (lg_URI (src_Login src)) @ t" "set t \<subseteq> {CHR ''/''}" by auto
    from t(2) have "\<exists>t'. t @ ''/'' @ r = ''/'' @ t'" by (cases t) auto
    with r t(1) have "\<exists>t'. uri = (TrimRightBytes ''/'' (lg_URI (src_Login src)) @ ''/'') @ t'"
      by (metis append.assoc)
    then show ?thesis
      unfolding under_login_def HasPrefix_iff by blast
  qed (simp add: under_login_def)
  with base assms(2) show ?thesis by (simp add: OwnPath_def)
qed

text \<open>The gate and the login site agree on the form's paths: a request that the site serves for a
  source is one of the gate's own paths in every profile of that source, so a client without a
  session can reach its form, and of all sources whose form the path lies under the site serves
  the one with the longest path.\<close>

theorem served_paths_pass_the_gate:
  assumes "route snap uri = Some (src, act)"
  shows "src \<in> set (Snapshot_Sources snap) \<and> \<not> External src \<and>
    (\<forall>p. pf_Src p = Some src \<longrightarrow> OwnPath p uri) \<and>
    (\<forall>s \<in> set (Snapshot_Sources snap). route_rest s uri \<noteq> None \<longrightarrow>
       length (lg_URI (src_Login s)) \<le> length (lg_URI (src_Login src)))"
proof -
  from route_scan_spec [OF assms [unfolded route_def]]
  have src: "src \<in> set (Snapshot_Sources snap)" "route_rest src uri = Some act" by auto
  have "\<not> External src"
    using src(2) by (auto simp: route_rest_def Let_def split: if_splits)
  moreover have "length (lg_URI (src_Login s)) \<le> length (lg_URI (src_Login src))"
    if "s \<in> set (Snapshot_Sources snap)" "route_rest s uri \<noteq> None" for s
    using route_scan_longest [of None "Snapshot_Sources snap" uri] that assms by (auto simp: route_def best_len_def)
  ultimately show ?thesis
    using src route_rest_own_path by blast
qed

definition sample_snapshot :: snapshot where
  "sample_snapshot = empty_snapshot\<lparr>sn_sources := [''main'' \<mapsto> sample_source], sn_sourceNames := [''main'']\<rparr>"

lemma sample_route: "route (Some sample_snapshot) ''/login/renew'' = Some (sample_source, actionRenew)"
  by (simp add: route_def Snapshot_Sources_def sample_snapshot_def empty_snapshot_def map_filter_simps
      route_rest_def sample_source_def External_def TrimBytes_def TrimRightBytes_def)

theorem served_paths_pass_the_gate_witness: "OwnPath (sample_profile ModeEnforce) ''/login/renew''"
  using served_paths_pass_the_gate [OF sample_route] by (simp add: sample_profile_def)



section \<open>How long a session lasts\<close>

text \<open>The sessions that renewals make of one session; the configuration may change in between.\<close>

inductive renewals :: "source \<Rightarrow> token_session \<Rightarrow> token_session \<Rightarrow> bool" for src s0 where
  same: "renewals src s0 s0"
| again: "renewals src s0 s \<Longrightarrow> spent env src s = [] \<Longrightarrow> renewals src s0 (renewed (sv_Now env) src s)"

lemma unix_min: "unix (if a < b then a else b) \<le> unix a" "unix (if a < b then a else b) \<le> unix b"
  by (auto intro: unix_mono)

lemma expiryOf_capped: "0 < sc_MaxTTL (src_Session src) \<Longrightarrow>
    expiryOf now src born \<le> unix (unix_time born + sc_MaxTTL (src_Session src))"
  by (auto simp: expiryOf_def Let_def intro: unix_mono)

lemma expiryOf_ttl: "expiryOf now src born \<le> unix (now + sc_TTL (src_Session src))"
  by (auto simp: expiryOf_def Let_def intro: unix_mono)

text \<open>C22: No chain of renewals outlives the source's \<open>max_ttl\<close>, counted from the login: every session
  of the chain expires within it, keeps the identity, the bindings and the login time of the
  first, and expires within one session time of its own renewal.\<close>

theorem renewals_end_at_max_ttl:
  assumes "renewals src s0 s" "0 < sc_MaxTTL (src_Session src)" "ts_Born s0 \<noteq> 0"
    and "ts_Expiry s0 \<le> unix (unix_time (ts_Born s0) + sc_MaxTTL (src_Session src))"
  shows "ts_Expiry s \<le> unix (unix_time (ts_Born s0) + sc_MaxTTL (src_Session src)) \<and>
    ts_Born s = ts_Born s0 \<and> ts_SID s = ts_SID s0 \<and> ts_Sub s = ts_Sub s0 \<and> ts_Cred s = ts_Cred s0 \<and>
    ts_Net s = ts_Net s0 \<and> ts_UA s = ts_UA s0 \<and> ts_AMR s = ts_AMR s0 \<and> ts_Groups s = ts_Groups s0 \<and>
    (s = s0 \<or> ts_Expiry s \<le> unix (unix_time (ts_Issued s + 1) + sc_TTL (src_Session src)))"
  using assms(1)
proof (induction rule: renewals.induct)
  case same
  then show ?case using assms(4) by simp
next
  case (again s env)
  then have born: "ts_Born s = ts_Born s0" and "ts_Born s \<noteq> 0" using assms(3) by auto
  then have r: "renewed (sv_Now env) src s = s\<lparr>ts_Born := ts_Born s0, ts_Issued := unix (sv_Now env),
      ts_Expiry := expiryOf (sv_Now env) src (ts_Born s0), ts_Renew := renewAt (sv_Now env) src\<rparr>"
    by (simp add: renewed_def Let_def)
  have "unix (sv_Now env + sc_TTL (src_Session src)) \<le> unix (unix_time (unix (sv_Now env) + 1) + sc_TTL (src_Session src))"
    by (rule unix_mono) (use unix_time_unix(2) [of "sv_Now env"] in simp)
  then show ?case
    using again.IH expiryOf_capped [OF assms(2), of "sv_Now env" "ts_Born s0"] expiryOf_ttl [of "sv_Now env" src "ts_Born s0"]
    by (simp add: r)
qed

definition capped_source :: source where
  "capped_source = sample_source\<lparr>src_Session := (src_Session sample_source)\<lparr>sc_MaxTTL := 7200 * second\<rparr>,
     src_Users := sample_users\<rparr>"

definition sample_senv :: "time \<Rightarrow> server_env" where
  "sample_senv now =
     \<lparr>sv_ct = ascii_tables, sv_nt = \<lparr>it_ParseAddr = (\<lambda>_. None), it_ParsePrefix = (\<lambda>_. None), it_PrefixString = (\<lambda>_. [])\<rparr>,
      sv_sha256 = id, sv_Key = sample_aead, sv_AppKey = None, sv_session_bytes = sample_marshal,
      sv_session_json = sample_unmarshal, sv_ticket_bytes = (\<lambda>t. Some (tk_Nonce t)), sv_ticket_json = (\<lambda>b. None),
      sv_identity_bytes = (\<lambda>_. None), sv_snapshot = Some sample_snapshot, sv_Contains = None, sv_list = False,
      sv_CookieSecure = True, sv_Now = now, sv_nonce_id = replicate 16 (CHR ''i''), sv_session_id = replicate 16 (CHR ''j''),
      sv_rand_ticket = Some sample_nonce, sv_rand_session = Some sample_nonce, sv_rand_identity = None\<rparr>"

lemma sample_not_spent: "spent (sample_senv (2500 * second)) capped_source sample_session = []"
  by (simp add: spent_def capped_source_def sample_source_def sample_session_def sample_senv_def unix_time_def second_def
      ascii_tables_def ascii_lower_char_def sample_users_def sample_user_def User_Active_def)

theorem renewals_end_at_max_ttl_witness:
  "ts_Expiry (renewed (2500 * second) capped_source sample_session) \<le> 7300"
proof -
  have "renewals capped_source sample_session (renewed (sv_Now (sample_senv (2500 * second))) capped_source sample_session)"
    by (intro renewals.intros sample_not_spent)
  from renewals_end_at_max_ttl [OF this]
  show ?thesis
    by (simp add: sample_session_def capped_source_def sample_source_def sample_senv_def second_def unix_def unix_time_def)
qed

text \<open>A session is renewed only within its whole life, and for a source with local users only
  while its user is there, active, and has the password it logged in with: removing or disabling
  an account or changing its password ends its sessions at the next renewal. A refused session
  is sent to the form and taken off the list.\<close>

theorem renewal_needs_the_account:
  "(spent env src s = [] \<longleftrightarrow>
     (sc_MaxTTL (src_Session src) \<le> 0 \<or>
        sv_Now env - unix_time (if ts_Born s = 0 then ts_Issued s else ts_Born s) < sc_MaxTTL (src_Session src)) \<and>
     (src_Provider src = ProviderLocal \<longrightarrow>
        (\<exists>u. src_Users src (ct_lower (sv_ct env) (ts_Sub s)) = Some u \<and> User_Active u \<and>
           (ts_Cred s = [] \<or> ts_Cred s = Credential (sv_sha256 env) (us_Password u))))) \<and>
   (current_session env rq src = Some s \<and> spent env src s \<noteq> [] \<longrightarrow>
      renew env rq src w = redirectToForm rq src (forget env src (ts_SID s) (''AUTH_RENEW_REFUSED '' @ ts_Sub s) w))"
  by (auto simp: spent_def renew_def Let_def split: option.splits if_splits)

text \<open>A refused renewal: the sample session's user is not in the users of the source.\<close>

definition sample_renew_req :: http_req where
  "sample_renew_req = \<lparr>rq_Method = ''GET'', rq_Path = ''/login/renew'', rq_Query = [], rq_cookie = (\<lambda>_. sample_cookie),
     rq_RealIP = [], rq_RemoteAddr = ''192.0.2.1:1'', rq_UserAgent = [], rq_Form = None\<rparr>"

lemma sample_current: "current_session (sample_senv (2500 * second)) sample_renew_req sample_source = Some sample_session"
proof -
  have "OpenSession sample_aead sample_unmarshal sample_cookie (2500 * second) \<lparr>bd_Net = [], bd_UA = []\<rparr> = (Some sample_session, None)"
    unfolding OpenSession_accepts using sample_cookie_opens
    by (simp add: sample_session_def unix_def second_def)
  moreover have "bindOf (sample_senv (2500 * second)) sample_renew_req sample_source = \<lparr>bd_Net = [], bd_UA = []\<rparr>"
    by (simp add: bindOf_def BindsNet_def BindsUA_def hasBind_def sample_source_def)
  ultimately show ?thesis
    by (simp add: current_session_def sample_senv_def sample_renew_req_def alive_def)
      (simp add: sample_session_def sample_source_def List_Enabled_def)
qed

lemma sample_spent: "spent (sample_senv (2500 * second)) sample_source sample_session = ''user removed''"
  by (simp add: spent_def sample_source_def)

theorem renewal_needs_the_account_witness:
  "wr_Location (renew (sample_senv (2500 * second)) sample_renew_req sample_source new_writer) = ''/login''"
proof -
  have "renew (sample_senv (2500 * second)) sample_renew_req sample_source new_writer =
      redirectToForm sample_renew_req sample_source (forget (sample_senv (2500 * second)) sample_source
        (ts_SID sample_session) (''AUTH_RENEW_REFUSED '' @ ts_Sub sample_session) new_writer)"
    using renewal_needs_the_account [of "sample_senv (2500 * second)" sample_source sample_session sample_renew_req new_writer]
      sample_current sample_spent by simp
  then show ?thesis
    by (simp add: redirectToForm_def redirectTo_def sample_renew_req_def query_get_def query_values_def localPath_def
        sample_source_def)
qed

end
