(* ===== verification/Roster.thy ===== *)
theory Roster
  imports Prelude
begin

text \<open>
  The roster of one-time values, failed attempts and locks (\<open>internal/roster/roster.go\<close>).
  The interface \<open>Roster\<close> is the locale \<open>roster\<close>: what it promises is stated with three
  observations, a value being spent, a scope being locked and the attempts counted. \<open>Memory\<close> is
  interpreted on it. \<open>Redis\<close> is modelled over the commands of a Redis client, the record
  \<open>redis_cmds\<close>. Every operation is one critical section or one round trip; the clock is an
  argument. \<open>None\<close> is an error.
\<close>

section \<open>In memory\<close>

record counter =
  ctr_n :: int
  ctr_until :: time

record memory =
  mm_burned :: "string \<rightharpoonup> time"
  mm_fails :: "string \<rightharpoonup> counter"
  mm_locks :: "string \<rightharpoonup> time"

definition NewMemory :: memory where
  "NewMemory = \<lparr>mm_burned = Map.empty, mm_fails = Map.empty, mm_locks = Map.empty\<rparr>"

definition burn_key :: "string \<Rightarrow> string \<Rightarrow> string" where
  "burn_key kind i = kind @ '':'' @ i"

definition Memory_Burn :: "time \<Rightarrow> string \<Rightarrow> string \<Rightarrow> duration \<Rightarrow> memory \<Rightarrow> bool option \<times> memory" where
  "Memory_Burn now kind i ttl m =
     (let key = burn_key kind i
      in case mm_burned m key of
           Some until \<Rightarrow>
             (if now < until then (Some False, m)
              else (Some True, m\<lparr>mm_burned := (mm_burned m)(key \<mapsto> now + ttl)\<rparr>))
         | None \<Rightarrow> (Some True, m\<lparr>mm_burned := (mm_burned m)(key \<mapsto> now + ttl)\<rparr>))"

text \<open>The zero counter's \<open>until\<close> is the zero time, long past: a missing counter starts anew.\<close>

definition Memory_Fail :: "time \<Rightarrow> string \<Rightarrow> duration \<Rightarrow> memory \<Rightarrow> int option \<times> memory" where
  "Memory_Fail now scope window m =
     (let n = (case mm_fails m scope of
                 None \<Rightarrow> 0
               | Some c \<Rightarrow> (if now > ctr_until c then 0 else ctr_n c));
          c = \<lparr>ctr_n = n + 1, ctr_until = now + window\<rparr>
      in (Some (ctr_n c), m\<lparr>mm_fails := (mm_fails m)(scope \<mapsto> c)\<rparr>))"

definition Memory_Clear :: "time \<Rightarrow> string \<Rightarrow> memory \<Rightarrow> unit option \<times> memory" where
  "Memory_Clear now scope m =
     (Some (), m\<lparr>mm_fails := (mm_fails m)(scope := None), mm_locks := (mm_locks m)(scope := None)\<rparr>)"

definition Memory_Lock :: "time \<Rightarrow> string \<Rightarrow> duration \<Rightarrow> memory \<Rightarrow> unit option \<times> memory" where
  "Memory_Lock now scope d m =
     (Some (), m\<lparr>mm_locks := (mm_locks m)(scope \<mapsto> now + d), mm_fails := (mm_fails m)(scope := None)\<rparr>)"

definition Memory_LockedFor :: "time \<Rightarrow> string \<Rightarrow> memory \<Rightarrow> duration option \<times> memory" where
  "Memory_LockedFor now scope m =
     (case mm_locks m scope of
        None \<Rightarrow> (Some 0, m)
      | Some until \<Rightarrow>
          (let left = until - now
           in if left \<le> 0 then (Some 0, m\<lparr>mm_locks := (mm_locks m)(scope := None)\<rparr>)
              else (Some left, m)))"


section \<open>In Redis\<close>

text \<open>
  The commands on the server's state, each of which may fail and then leaves the state as it
  was; a \<open>TxPipeline\<close> fails or runs as a whole. \<open>SETNX\<close> and \<open>SET\<close> take a value and a time
  to live, \<open>INCR\<close> gives the new value, \<open>TTL\<close> the time left or a negative number.
\<close>

record 's redis_cmds =
  rc_SetNX :: "time \<Rightarrow> string \<Rightarrow> int \<Rightarrow> duration \<Rightarrow> 's \<Rightarrow> bool option \<times> 's"
  rc_IncrExpire :: "time \<Rightarrow> string \<Rightarrow> duration \<Rightarrow> 's \<Rightarrow> int option \<times> 's"
  rc_Del :: "time \<Rightarrow> string list \<Rightarrow> 's \<Rightarrow> unit option \<times> 's"
  rc_SetDel :: "time \<Rightarrow> string \<Rightarrow> int \<Rightarrow> duration \<Rightarrow> string \<Rightarrow> 's \<Rightarrow> unit option \<times> 's"
  rc_TTL :: "time \<Rightarrow> string \<Rightarrow> 's \<Rightarrow> duration option \<times> 's"

definition Redis_key :: "string \<Rightarrow> string list \<Rightarrow> string" where
  "Redis_key prefix parts = prefix @ Join '':'' parts"

definition Redis_Burn :: "'s redis_cmds \<Rightarrow> string \<Rightarrow> time \<Rightarrow> string \<Rightarrow> string \<Rightarrow> duration \<Rightarrow> 's \<Rightarrow> bool option \<times> 's" where
  "Redis_Burn cmds prefix now kind i ttl s = rc_SetNX cmds now (Redis_key prefix [kind, i]) 1 ttl s"

definition Redis_Fail :: "'s redis_cmds \<Rightarrow> string \<Rightarrow> time \<Rightarrow> string \<Rightarrow> duration \<Rightarrow> 's \<Rightarrow> int option \<times> 's" where
  "Redis_Fail cmds prefix now scope window s =
     rc_IncrExpire cmds now (Redis_key prefix [''fail'', scope]) window s"

definition Redis_Clear :: "'s redis_cmds \<Rightarrow> string \<Rightarrow> time \<Rightarrow> string \<Rightarrow> 's \<Rightarrow> unit option \<times> 's" where
  "Redis_Clear cmds prefix now scope s =
     rc_Del cmds now [Redis_key prefix [''fail'', scope], Redis_key prefix [''lock'', scope]] s"

definition Redis_Lock :: "'s redis_cmds \<Rightarrow> string \<Rightarrow> time \<Rightarrow> string \<Rightarrow> duration \<Rightarrow> 's \<Rightarrow> unit option \<times> 's" where
  "Redis_Lock cmds prefix now scope d s =
     rc_SetDel cmds now (Redis_key prefix [''lock'', scope]) 1 d (Redis_key prefix [''fail'', scope]) s"

definition Redis_LockedFor :: "'s redis_cmds \<Rightarrow> string \<Rightarrow> time \<Rightarrow> string \<Rightarrow> 's \<Rightarrow> duration option \<times> 's" where
  "Redis_LockedFor cmds prefix now scope s =
     (case rc_TTL cmds now (Redis_key prefix [''lock'', scope]) s of
        (None, s) \<Rightarrow> (None, s)
      | (Some ttl, s) \<Rightarrow> (if ttl \<le> 0 then (Some 0, s) else (Some ttl, s)))"

text \<open>Keys of different kinds, or of the same kind and different values, never meet.\<close>

lemma burn_key_inject:
  assumes "CHR '':'' \<notin> set k" "CHR '':'' \<notin> set k'"
  shows "burn_key k i = burn_key k' i' \<longleftrightarrow> k = k' \<and> i = i'"
proof
  assume "burn_key k i = burn_key k' i'"
  then have "Cut (CHR '':'') (k @ CHR '':'' # i) = Cut (CHR '':'') (k' @ CHR '':'' # i')"
    by (simp add: burn_key_def)
  then show "k = k' \<and> i = i'"
    by (simp add: Cut_append assms)
qed simp

lemma Redis_key_burn_key: "Redis_key prefix [kind, i] = prefix @ burn_key kind i"
  by (simp add: Redis_key_def burn_key_def)

lemma Redis_key_inject:
  assumes "CHR '':'' \<notin> set k" "CHR '':'' \<notin> set k'"
  shows "Redis_key prefix [k, i] = Redis_key prefix [k', i'] \<longleftrightarrow> k = k' \<and> i = i'"
  by (simp add: Redis_key_burn_key burn_key_inject assms)


section \<open>The interface\<close>

text \<open>
  \<open>spent r t kind i\<close>: the value cannot be burned at \<open>t\<close>. \<open>locked r t scope\<close>: the scope is
  locked at \<open>t\<close>. \<open>counted r t scope\<close>: the attempts an attempt at \<open>t\<close> adds to. An operation
  that fails need not change anything.
\<close>

locale roster =
  fixes Burn :: "time \<Rightarrow> string \<Rightarrow> string \<Rightarrow> duration \<Rightarrow> 'r \<Rightarrow> bool option \<times> 'r"
    and Fail :: "time \<Rightarrow> string \<Rightarrow> duration \<Rightarrow> 'r \<Rightarrow> int option \<times> 'r"
    and Clear :: "time \<Rightarrow> string \<Rightarrow> 'r \<Rightarrow> unit option \<times> 'r"
    and Lock :: "time \<Rightarrow> string \<Rightarrow> duration \<Rightarrow> 'r \<Rightarrow> unit option \<times> 'r"
    and LockedFor :: "time \<Rightarrow> string \<Rightarrow> 'r \<Rightarrow> duration option \<times> 'r"
    and spent :: "'r \<Rightarrow> time \<Rightarrow> string \<Rightarrow> string \<Rightarrow> bool"
    and locked :: "'r \<Rightarrow> time \<Rightarrow> string \<Rightarrow> bool"
    and counted :: "'r \<Rightarrow> time \<Rightarrow> string \<Rightarrow> int"
  assumes burn_spends: "Burn t kind i ttl r = (Some True, r') \<Longrightarrow> t \<le> u \<Longrightarrow> u < t + ttl \<Longrightarrow> spent r' u kind i"
    and burn_refused: "spent r t kind i \<Longrightarrow> fst (Burn t kind i ttl r) \<noteq> Some True"
    and burn_keeps: "spent r u kind i \<Longrightarrow> t \<le> u \<Longrightarrow> spent (snd (Burn t kind' i' ttl r)) u kind i"
    and burn_locks: "locked (snd (Burn t kind i ttl r)) u scope = locked r u scope"
    and burn_counts: "counted (snd (Burn t kind i ttl r)) u scope = counted r u scope"
    and fail_spent: "spent (snd (Fail t scope w r)) u kind i = spent r u kind i"
    and fail_locks: "locked (snd (Fail t scope w r)) u scope' = locked r u scope'"
    and fail_counts: "Fail t scope w r = (Some n, r') \<Longrightarrow> n = counted r t scope + 1"
    and fail_counted: "Fail t scope w r = (Some n, r') \<Longrightarrow> u \<le> t + w \<Longrightarrow> counted r' u scope = n"
    and fail_keeps: "scope' \<noteq> scope \<Longrightarrow> counted (snd (Fail t scope w r)) u scope' = counted r u scope'"
    and clear_spent: "spent (snd (Clear t scope r)) u kind i = spent r u kind i"
    and clear_locks: "scope' \<noteq> scope \<Longrightarrow> locked (snd (Clear t scope r)) u scope' = locked r u scope'"
    and clear_counts: "scope' \<noteq> scope \<Longrightarrow> counted (snd (Clear t scope r)) u scope' = counted r u scope'"
    and cleared: "Clear t scope r = (Some (), r') \<Longrightarrow> counted r' u scope = 0 \<and> \<not> locked r' u scope"
    and lock_locks: "Lock t scope d r = (Some (), r') \<Longrightarrow> u < t + d \<Longrightarrow> locked r' u scope"
    and lock_keeps: "scope' \<noteq> scope \<Longrightarrow> locked (snd (Lock t scope d r)) u scope' = locked r u scope'"
    and lock_counts: "scope' \<noteq> scope \<Longrightarrow> counted (snd (Lock t scope d r)) u scope' = counted r u scope'"
    and lock_spent: "spent (snd (Lock t scope d r)) u kind i = spent r u kind i"
    and locked_for: "LockedFor t scope r = (Some left, r') \<Longrightarrow> locked r t scope \<longleftrightarrow> 0 < left"
    and locked_for_keeps: "t \<le> u \<Longrightarrow> locked (snd (LockedFor t scope r)) u scope' = locked r u scope'"
    and locked_for_counts: "counted (snd (LockedFor t scope r)) u scope' = counted r u scope'"
    and locked_for_spent: "spent (snd (LockedFor t scope r)) u kind i = spent r u kind i"
begin

lemma burn_once:
  assumes "Burn t kind i ttl r = (Some True, r')" "t \<le> u" "u < t + ttl"
  shows "fst (Burn u kind i ttl' r') \<noteq> Some True"
  using burn_refused [OF burn_spends [OF assms]] .

lemma lock_refuses:
  assumes "Lock t scope d r = (Some (), r')" "u < t + d" "LockedFor u scope r' = (Some left, r'')"
  shows "0 < left"
  using locked_for [OF assms(3)] lock_locks [OF assms(1,2)] by simp

end


section \<open>The memory roster keeps the contract\<close>

definition mm_spent :: "memory \<Rightarrow> time \<Rightarrow> string \<Rightarrow> string \<Rightarrow> bool" where
  "mm_spent m t kind i = (case mm_burned m (burn_key kind i) of None \<Rightarrow> False | Some until \<Rightarrow> t < until)"

definition mm_locked :: "memory \<Rightarrow> time \<Rightarrow> string \<Rightarrow> bool" where
  "mm_locked m t scope = (case mm_locks m scope of None \<Rightarrow> False | Some until \<Rightarrow> t < until)"

definition mm_counted :: "memory \<Rightarrow> time \<Rightarrow> string \<Rightarrow> int" where
  "mm_counted m t scope =
     (case mm_fails m scope of None \<Rightarrow> 0 | Some c \<Rightarrow> (if t > ctr_until c then 0 else ctr_n c))"

lemmas memory_defs = Memory_Burn_def Memory_Fail_def Memory_Clear_def Memory_Lock_def Memory_LockedFor_def
  mm_spent_def mm_locked_def mm_counted_def Let_def

interpretation memory: roster Memory_Burn Memory_Fail Memory_Clear Memory_Lock Memory_LockedFor
  mm_spent mm_locked mm_counted
  by unfold_locales (auto simp: memory_defs split: option.splits if_splits)

end
