(* ===== verification/Login.thy ===== *)
theory Login
  imports Server Roster
begin

text \<open>
  Signing in (\<open>cmd/http/login.go\<close>) and the site's entry point \<open>ServeHTTP\<close>: the submitted form is
  checked, its attempt counted, its secret verified by the source's provider, and a session
  issued.

  A handler threads the state of the roster, of the directory servers and the response, which
  is \<open>None\<close> when the provider has panicked. The record \<open>login_env\<close> is what only the submit
  uses; a submit reads the clock once.
\<close>

section \<open>What the site runs on\<close>

record 'r roster_ops =
  ro_Burn :: "time \<Rightarrow> string \<Rightarrow> string \<Rightarrow> duration \<Rightarrow> 'r \<Rightarrow> bool option \<times> 'r"
  ro_Fail :: "time \<Rightarrow> string \<Rightarrow> duration \<Rightarrow> 'r \<Rightarrow> int option \<times> 'r"
  ro_Clear :: "time \<Rightarrow> string \<Rightarrow> 'r \<Rightarrow> unit option \<times> 'r"
  ro_Lock :: "time \<Rightarrow> string \<Rightarrow> duration \<Rightarrow> 'r \<Rightarrow> unit option \<times> 'r"
  ro_LockedFor :: "time \<Rightarrow> string \<Rightarrow> 'r \<Rightarrow> duration option \<times> 'r"

definition memory_ops :: "memory roster_ops" where
  "memory_ops = \<lparr>ro_Burn = Memory_Burn, ro_Fail = Memory_Fail, ro_Clear = Memory_Clear, ro_Lock = Memory_Lock,
     ro_LockedFor = Memory_LockedFor\<rparr>"

definition redis_ops :: "'s redis_cmds \<Rightarrow> string \<Rightarrow> 's roster_ops" where
  "redis_ops cmds prefix = \<lparr>ro_Burn = Redis_Burn cmds prefix, ro_Fail = Redis_Fail cmds prefix,
     ro_Clear = Redis_Clear cmds prefix, ro_Lock = Redis_Lock cmds prefix, ro_LockedFor = Redis_LockedFor cmds prefix\<rparr>"

text \<open>\<open>li_verify\<close>: \<open>None\<close> when the site has no bound on the checks that run at once, else whether
  a slot came free before the wait was over.\<close>

record ('w, 'c, 'e) login_env =
  li_hmac_sha1 :: "bytes \<Rightarrow> bytes \<Rightarrow> bytes"
  li_bcrypt :: "bytes \<Rightarrow> bytes \<Rightarrow> bool"
  li_Secrets :: "(string \<Rightarrow> string option) option"
  li_Getenv :: "string \<Rightarrow> string"
  li_ldap :: "('w, 'c, 'e) ldap_api"
  li_verify :: "bool option"

definition provider_env_of :: "server_env \<Rightarrow> ('w, 'c, 'e) login_env \<Rightarrow> provider_env" where
  "provider_env_of env li = \<lparr>pe_ct = sv_ct env, pe_sha256 = sv_sha256 env, pe_hmac_sha1 = li_hmac_sha1 li,
     pe_bcrypt = li_bcrypt li, pe_Secrets = li_Secrets li, pe_Getenv = li_Getenv li, pe_Now = sv_Now env\<rparr>"

abbreviation "msgBadCredentials \<equiv> ''Invalid credentials.''"
abbreviation "msgStaleForm \<equiv> ''The form has expired. Please try again.''"
abbreviation "msgUnavailable \<equiv> ''The sign-in service is unavailable. Please try again later.''"
abbreviation "msgNotAllowed \<equiv> ''Access denied.''"
abbreviation "msgFirstGate \<equiv> ''Complete the first sign-in step first.''"

text \<open>\<open>humanLeft\<close> rounds up; the source does it in floating point, which is exact for
  durations of up to some months.\<close>

definition ceil_div :: "int \<Rightarrow> int \<Rightarrow> int" where
  "ceil_div a b = - ((- a) div b)"

definition humanLeft :: "duration \<Rightarrow> string" where
  "humanLeft d =
     (if d < 60 * second then FormatInt (ceil_div d second) @ '' s''
      else FormatInt (ceil_div d (60 * second)) @ '' min'')"

definition msgTooMany :: "duration \<Rightarrow> string" where
  "msgTooMany left = ''Too many attempts. Try again in '' @ humanLeft left @ ''.''"


section \<open>Counting attempts\<close>

definition lockScopes :: "server_env \<Rightarrow> source \<Rightarrow> credentials \<Rightarrow> string list" where
  "lockScopes env src c =
     (let ip = cr_ClientIP c;
          subnet = Subnet (sv_nt env) ip 32 64;
          ip = (if subnet \<noteq> [] \<and> CHR '':'' \<in> set ip then subnet else ip);
          login = ct_lower (sv_ct env) (TrimSpace (cr_Login c))
      in [src_Name src @ ''/ip:'' @ ip] @ (if login \<noteq> [] then [src_Name src @ ''/user:'' @ login] else []))"

text \<open>\<open>lockedFor\<close> reads every scope, the longest lock counts; an error skips the scope.\<close>

fun lockedFor_loop :: "'r roster_ops \<Rightarrow> time \<Rightarrow> string list \<Rightarrow> duration \<Rightarrow> 'r \<Rightarrow> duration \<times> 'r" where
  "lockedFor_loop ops now [] worst r = (worst, r)"
| "lockedFor_loop ops now (scope # scopes) worst r =
     (case ro_LockedFor ops now scope r of
        (None, r) \<Rightarrow> lockedFor_loop ops now scopes worst r
      | (Some left, r) \<Rightarrow> lockedFor_loop ops now scopes (if left > worst then left else worst) r)"

definition lockedFor :: "'r roster_ops \<Rightarrow> time \<Rightarrow> string list \<Rightarrow> 'r \<Rightarrow> duration \<times> 'r" where
  "lockedFor ops now scopes r = lockedFor_loop ops now scopes 0 r"

definition lock_scope :: "'r roster_ops \<Rightarrow> time \<Rightarrow> source \<Rightarrow> string \<Rightarrow> 'r \<Rightarrow> 'r" where
  "lock_scope ops now src scope r = snd (ro_Lock ops now scope (lk_Lock (src_Lockout src)) r)"

text \<open>One round of \<open>reserve\<close>'s loop: the count, whether the attempt is over the limit.\<close>

definition reserve_scope :: "'r roster_ops \<Rightarrow> time \<Rightarrow> source \<Rightarrow> string \<Rightarrow> 'r \<Rightarrow> int \<times> bool \<times> 'r" where
  "reserve_scope ops now src scope r =
     (case ro_Fail ops now scope (lk_Window (src_Lockout src)) r of
        (None, r) \<Rightarrow> (0, False, r)
      | (Some n, r) \<Rightarrow>
          (if n > lk_Attempts (src_Lockout src) then (n, True, lock_scope ops now src scope r)
           else (case ro_LockedFor ops now scope r of
                   (None, r) \<Rightarrow> (n, False, r)
                 | (Some left, r) \<Rightarrow> (n, left > 0, r))))"

fun reserve_loop :: "'r roster_ops \<Rightarrow> time \<Rightarrow> source \<Rightarrow> string list \<Rightarrow> 'r \<Rightarrow> int list \<times> bool \<times> 'r" where
  "reserve_loop ops now src [] r = ([], False, r)"
| "reserve_loop ops now src (scope # scopes) r =
     (case reserve_scope ops now src scope r of
        (n, over, r) \<Rightarrow>
          (case reserve_loop ops now src scopes r of
             (counts, over', r) \<Rightarrow> (n # counts, over \<or> over', r)))"

definition reserve :: "'r roster_ops \<Rightarrow> time \<Rightarrow> source \<Rightarrow> string list \<Rightarrow> 'r \<Rightarrow> int list \<times> bool \<times> 'r" where
  "reserve ops now src scopes r =
     (if lk_Attempts (src_Lockout src) \<le> 0 then (replicate (length scopes) 0, False, r)
      else reserve_loop ops now src scopes r)"

fun lockSpent_loop :: "'r roster_ops \<Rightarrow> time \<Rightarrow> source \<Rightarrow> string list \<Rightarrow> int list \<Rightarrow> 'r \<Rightarrow> 'r" where
  "lockSpent_loop ops now src (scope # scopes) (n # counts) r =
     lockSpent_loop ops now src scopes counts
       (if n \<ge> lk_Attempts (src_Lockout src) then lock_scope ops now src scope r else r)"
| "lockSpent_loop ops now src _ _ r = r"

definition lockSpent :: "'r roster_ops \<Rightarrow> time \<Rightarrow> source \<Rightarrow> string list \<Rightarrow> int list \<Rightarrow> 'r \<Rightarrow> 'r" where
  "lockSpent ops now src scopes counts r =
     (if lk_Attempts (src_Lockout src) \<le> 0 then r else lockSpent_loop ops now src scopes counts r)"

fun clear_scopes :: "'r roster_ops \<Rightarrow> time \<Rightarrow> string list \<Rightarrow> 'r \<Rightarrow> 'r" where
  "clear_scopes ops now [] r = r"
| "clear_scopes ops now (scope # scopes) r = clear_scopes ops now scopes (snd (ro_Clear ops now scope r))"


section \<open>The one-time code and the earlier gate\<close>

text \<open>\<open>None\<close>: the code may be used, else why not.\<close>

definition burnCode :: "'r roster_ops \<Rightarrow> time \<Rightarrow> source \<Rightarrow> identity \<Rightarrow> credentials \<Rightarrow> 'r \<Rightarrow> perr option \<times> 'r" where
  "burnCode ops now src i creds r =
     (case pr_Code (src_Providers src) of
        None \<Rightarrow> (None, r)
      | Some c \<Rightarrow>
          (if src_Provider src \<noteq> ProviderCode \<or> cp_Kind c \<noteq> CodeTOTP \<or> cr_Code creds = [] then (None, r)
           else (case ro_Burn ops now ''totp'' (id_Subject i @ '':'' @ cr_Code creds)
                        (cp_Period c * (2 * cp_Skew c + 2)) r of
                   (None, r) \<Rightarrow> (Some ErrUnavailable, r)
                 | (Some fresh, r) \<Rightarrow> (if fresh then (None, r) else (Some ErrInvalid, r)))))"

text \<open>\<open>None\<close> is an error; \<open>Some None\<close> is a source that asks for no earlier gate.\<close>

definition priorIdentity :: "server_env \<Rightarrow> http_req \<Rightarrow> source \<Rightarrow> identity option option" where
  "priorIdentity env rq src =
     (if src_IdentityFrom src = [] then Some None
      else (case Snapshot_Source (sv_snapshot env) (src_IdentityFrom src) of
              None \<Rightarrow> None
            | Some from \<Rightarrow>
                (if rq_cookie rq (sc_Cookie (src_Session from)) = [] then None
                 else (case OpenSession (sv_Key env) (sv_session_json env)
                              (rq_cookie rq (sc_Cookie (src_Session from))) (sv_Now env) (bindOf env rq from) of
                         (Some s, None) \<Rightarrow>
                           (if ts_Scope s \<noteq> sc_Cookie (src_Session from) \<or> ts_Iss s \<noteq> src_Name from \<or> \<not> alive env from s
                            then None
                            else Some (Some \<lparr>id_Subject = ts_Sub s, id_Display = [], id_Groups = ts_Groups s,
                              id_AMR = ts_AMR s, id_Cred = []\<rparr>))
                       | _ \<Rightarrow> None))))"


section \<open>Submitting the form\<close>

definition credentials_of :: "server_env \<Rightarrow> http_req \<Rightarrow> (string \<Rightarrow> string) \<Rightarrow> credentials" where
  "credentials_of env rq f = \<lparr>cr_Login = TrimSpace (f ''login''), cr_Password = f ''password'',
     cr_Code = TrimSpace (f ''code''), cr_ClientIP = clientIP env rq\<rparr>"

definition new_session :: "server_env \<Rightarrow> http_req \<Rightarrow> source \<Rightarrow> identity \<Rightarrow> token_session" where
  "new_session env rq src i =
     (let now = unix (sv_Now env); b = bindOf env rq src
      in \<lparr>ts_SID = NewID (sv_session_id env), ts_Sub = id_Subject i, ts_Issued = now,
          ts_Expiry = expiryOf (sv_Now env) src now, ts_Renew = renewAt (sv_Now env) src, ts_Born = now,
          ts_Cred = id_Cred i, ts_Scope = sc_Cookie (src_Session src), ts_Iss = src_Name src, ts_Net = bd_Net b,
          ts_UA = bd_UA b, ts_AMR = id_AMR i, ts_Groups = id_Groups i\<rparr>)"

definition accepted :: "server_env \<Rightarrow> 'r roster_ops \<Rightarrow> http_req \<Rightarrow> source \<Rightarrow> ticket \<Rightarrow> identity \<Rightarrow> credentials
    \<Rightarrow> 'r \<Rightarrow> writer \<Rightarrow> 'r \<times> writer" where
  "accepted env ops rq src t i creds r w =
     (let r = clear_scopes ops (sv_Now env) (lockScopes env src creds) r
      in case issue env src (new_session env rq src i) w of
           (False, w) \<Rightarrow> (r, server_fail w)
         | (True, w) \<Rightarrow> (r, redirectTo (if tk_Return t = [] then backTo rq else tk_Return t) w))"

definition rejected :: "server_env \<Rightarrow> 'r roster_ops \<Rightarrow> http_req \<Rightarrow> source \<Rightarrow> string list \<Rightarrow> int list \<Rightarrow> perr
    \<Rightarrow> 'r \<Rightarrow> writer \<Rightarrow> 'r \<times> writer" where
  "rejected env ops rq src scopes counts cause r w =
     (if cause = ErrUnavailable then (r, reform env rq src msgUnavailable w)
      else (lockSpent ops (sv_Now env) src scopes counts r,
            reform env rq src (if cause = ErrNotAllowed then msgNotAllowed else msgBadCredentials) w))"

text \<open>From the provider's answer on.\<close>

definition verified :: "server_env \<Rightarrow> 'r roster_ops \<Rightarrow> http_req \<Rightarrow> source \<Rightarrow> ticket \<Rightarrow> credentials \<Rightarrow> string list
    \<Rightarrow> int list \<Rightarrow> perr + identity \<Rightarrow> 'r \<Rightarrow> writer \<Rightarrow> 'r \<times> writer" where
  "verified env ops rq src t creds scopes counts answer r w =
     (case answer of
        Inl cause \<Rightarrow> rejected env ops rq src scopes counts cause r w
      | Inr i \<Rightarrow>
          (case burnCode ops (sv_Now env) src i creds r of
             (Some cause, r) \<Rightarrow> rejected env ops rq src scopes counts cause r w
           | (None, r) \<Rightarrow> accepted env ops rq src t i creds r w))"

text \<open>From the burned nonce on.\<close>

definition attempt :: "server_env \<Rightarrow> ('w, 'c, 'e) login_env \<Rightarrow> 'r roster_ops \<Rightarrow> http_req \<Rightarrow> source \<Rightarrow> ticket
    \<Rightarrow> credentials \<Rightarrow> 'r \<Rightarrow> 'w \<Rightarrow> writer \<Rightarrow> 'r \<times> 'w \<times> writer option" where
  "attempt env li ops rq src t creds r d w =
     (let scopes = lockScopes env src creds
      in case Provider_Build src of
           Inl _ \<Rightarrow> (r, d, Some (server_fail w))
         | Inr prov \<Rightarrow>
             (case priorIdentity env rq src of
                None \<Rightarrow> (r, d, Some (reform env rq src msgFirstGate w))
              | Some prior \<Rightarrow>
                  (case reserve ops (sv_Now env) src scopes r of
                     (counts, over, r) \<Rightarrow>
                       (if over then (r, d, Some (reform env rq src (msgTooMany (lk_Lock (src_Lockout src))) w))
                        else if li_verify li = Some False then (r, d, Some (reform env rq src msgUnavailable w))
                        else (case Provider_Run (provider_env_of env li) (li_ldap li) prov creds prior d of
                                (None, d) \<Rightarrow> (r, d, None)
                              | (Some answer, d) \<Rightarrow>
                                  (case verified env ops rq src t creds scopes counts answer r w of
                                     (r, w) \<Rightarrow> (r, d, Some w)))))))"

definition submit :: "server_env \<Rightarrow> ('w, 'c, 'e) login_env \<Rightarrow> 'r roster_ops \<Rightarrow> http_req \<Rightarrow> source
    \<Rightarrow> 'r \<Rightarrow> 'w \<Rightarrow> writer \<Rightarrow> 'r \<times> 'w \<times> writer option" where
  "submit env li ops rq src r d w =
     (let stale = (r, d, Some (form env rq src msgStaleForm w))
      in case rq_Form rq of
           None \<Rightarrow> stale
         | Some f \<Rightarrow>
             (case OpenTicket (sv_Key env) (sv_ticket_json env) (rq_cookie rq (tc_Cookie (src_Ticket src))) (sv_Now env) of
                (Some t, None) \<Rightarrow>
                  (if tk_Scope t \<noteq> src_Name src then stale
                   else if tk_Nonce t \<noteq> f ''csrf'' then stale
                   else
                     let creds = credentials_of env rq f in
                     case lockedFor ops (sv_Now env) (lockScopes env src creds) r of
                       (left, r) \<Rightarrow>
                         (if left > 0 then (r, d, Some (form env rq src (msgTooMany left) w))
                          else (case ro_Burn ops (sv_Now env) ''nonce'' (tk_Nonce t) (tc_TTL (src_Ticket src)) r of
                                  (None, r) \<Rightarrow> (r, d, Some (reform env rq src msgUnavailable w))
                                | (Some fresh, r) \<Rightarrow>
                                    (if \<not> fresh then (r, d, Some (reform env rq src msgStaleForm w))
                                     else attempt env li ops rq src t creds r d w))))
              | _ \<Rightarrow> stale))"


section \<open>Serving\<close>

abbreviation "MethodGet \<equiv> ''GET''"
abbreviation "MethodHead \<equiv> ''HEAD''"
abbreviation "MethodPost \<equiv> ''POST''"

definition with_status :: "int \<Rightarrow> writer \<Rightarrow> writer" where
  "with_status code w = w\<lparr>wr_Status := code\<rparr>"

definition ServeHTTP :: "server_env \<Rightarrow> ('w, 'c, 'e) login_env \<Rightarrow> 'r roster_ops \<Rightarrow> http_req
    \<Rightarrow> 'r \<Rightarrow> 'w \<Rightarrow> writer \<Rightarrow> 'r \<times> 'w \<times> writer option" where
  "ServeHTTP env li ops rq r d w =
     (if rq_Path rq = ''/healthz'' then (r, d, Some (with_status StatusOK w))
      else (case route (sv_snapshot env) (rq_Path rq) of
              None \<Rightarrow> (r, d, Some (with_status StatusNotFound w))
            | Some (src, action) \<Rightarrow>
                (if action = actionHealth then (r, d, Some (with_status StatusOK w))
                 else if action = actionForm then
                   (if rq_Method rq = MethodGet \<or> rq_Method rq = MethodHead then (r, d, Some (form env rq src [] w))
                    else if rq_Method rq = MethodPost then submit env li ops rq src r d w
                    else (r, d, Some (with_status StatusMethodNotAllowed w)))
                 else if action = actionRenew then (r, d, Some (renew env rq src w))
                 else if action = actionLogout then (r, d, Some (logout env rq src w))
                 else (r, d, Some (with_status StatusNotFound w)))))"


end
