(* ===== verification/Login_Props.thy ===== *)
theory Login_Props
  imports Server_Props Login
begin

text \<open>
  What signing in promises: a session only after every check, tickets and codes that are good
  once, locks that hold, and a bound on the guesses that pass however submits interleave.
\<close>

section \<open>The roster between two moments\<close>

text \<open>Any operations on the roster, of any requests in any order, as time goes by.\<close>

inductive roster_steps :: "'r roster_ops \<Rightarrow> time \<Rightarrow> 'r \<Rightarrow> time \<Rightarrow> 'r \<Rightarrow> bool" for ops t0 r0 where
  start: "roster_steps ops t0 r0 t0 r0"
| waits: "roster_steps ops t0 r0 t r \<Longrightarrow> t \<le> u \<Longrightarrow> roster_steps ops t0 r0 u r"
| burns: "roster_steps ops t0 r0 t r \<Longrightarrow> roster_steps ops t0 r0 t (snd (ro_Burn ops t kind i ttl r))"
| fails: "roster_steps ops t0 r0 t r \<Longrightarrow> roster_steps ops t0 r0 t (snd (ro_Fail ops t scope window r))"
| clears: "roster_steps ops t0 r0 t r \<Longrightarrow> roster_steps ops t0 r0 t (snd (ro_Clear ops t scope r))"
| locks: "roster_steps ops t0 r0 t r \<Longrightarrow> roster_steps ops t0 r0 t (snd (ro_Lock ops t scope dur r))"
| looks: "roster_steps ops t0 r0 t r \<Longrightarrow> roster_steps ops t0 r0 t (snd (ro_LockedFor ops t scope r))"

lemma roster_steps_time: "roster_steps ops t0 r0 t r \<Longrightarrow> t0 \<le> t"
  by (induction rule: roster_steps.induct) auto

text \<open>
  The attempts on one scope: each is counted, then reads the lock; \<open>c\<close> have counted and not yet
  read it, \<open>p\<close> have passed. Locks are set by whoever finds the limit reached. Anything may
  happen to other scopes in between; no login of this scope succeeds.
\<close>

inductive guessing :: "'r roster_ops \<Rightarrow> source \<Rightarrow> string \<Rightarrow> time \<Rightarrow> 'r \<Rightarrow> time \<Rightarrow> 'r \<Rightarrow> nat \<Rightarrow> nat \<Rightarrow> bool"
  for ops src scope t0 r0 where
  start: "guessing ops src scope t0 r0 t0 r0 0 0"
| waits: "guessing ops src scope t0 r0 t r c p \<Longrightarrow> t \<le> u \<Longrightarrow> guessing ops src scope t0 r0 u r c p"
| count: "guessing ops src scope t0 r0 t r c p \<Longrightarrow>
    ro_Fail ops t scope (lk_Window (src_Lockout src)) r = (Some n, r') \<Longrightarrow> n \<le> lk_Attempts (src_Lockout src) \<Longrightarrow>
    guessing ops src scope t0 r0 t r' (Suc c) p"
| over: "guessing ops src scope t0 r0 t r c p \<Longrightarrow>
    ro_Fail ops t scope (lk_Window (src_Lockout src)) r = (Some n, r') \<Longrightarrow> n > lk_Attempts (src_Lockout src) \<Longrightarrow>
    guessing ops src scope t0 r0 t r' c p"
| pass: "guessing ops src scope t0 r0 t r (Suc c) p \<Longrightarrow>
    ro_LockedFor ops t scope r = (Some left, r') \<Longrightarrow> \<not> left > 0 \<Longrightarrow> guessing ops src scope t0 r0 t r' c (Suc p)"
| refuse: "guessing ops src scope t0 r0 t r (Suc c) p \<Longrightarrow>
    ro_LockedFor ops t scope r = (Some left, r') \<Longrightarrow> left > 0 \<Longrightarrow> guessing ops src scope t0 r0 t r' c p"
| lock: "guessing ops src scope t0 r0 t r c p \<Longrightarrow>
    ro_Lock ops t scope (lk_Lock (src_Lockout src)) r = (Some (), r') \<Longrightarrow> guessing ops src scope t0 r0 t r' c p"
| looks: "guessing ops src scope t0 r0 t r c p \<Longrightarrow> guessing ops src scope t0 r0 t (snd (ro_LockedFor ops t scope' r)) c p"
| burns: "guessing ops src scope t0 r0 t r c p \<Longrightarrow> guessing ops src scope t0 r0 t (snd (ro_Burn ops t kind i ttl r)) c p"
| fails: "guessing ops src scope t0 r0 t r c p \<Longrightarrow> scope' \<noteq> scope \<Longrightarrow>
    guessing ops src scope t0 r0 t (snd (ro_Fail ops t scope' window r)) c p"
| clears: "guessing ops src scope t0 r0 t r c p \<Longrightarrow> scope' \<noteq> scope \<Longrightarrow>
    guessing ops src scope t0 r0 t (snd (ro_Clear ops t scope' r)) c p"
| locks: "guessing ops src scope t0 r0 t r c p \<Longrightarrow> scope' \<noteq> scope \<Longrightarrow>
    guessing ops src scope t0 r0 t (snd (ro_Lock ops t scope' dur r)) c p"

lemma guessing_time: "guessing ops src scope t0 r0 t r c p \<Longrightarrow> t0 \<le> t"
  by (induction rule: guessing.induct) auto

context roster
begin

lemma spent_stays:
  assumes ops: "ops = \<lparr>ro_Burn = Burn, ro_Fail = Fail, ro_Clear = Clear, ro_Lock = Lock, ro_LockedFor = LockedFor\<rparr>"
    and "roster_steps ops t0 r0 t r" "spent r0 u kind i" "t \<le> u"
  shows "spent r u kind i"
  using assms(2,4)
proof (induction rule: roster_steps.induct)
  case start
  then show ?case using assms(3) by simp
qed (auto simp: ops burn_keeps fail_spent clear_spent lock_spent locked_for_spent)

text \<open>Before the first lock every pass is counted; from it on none passes.\<close>

lemma guessing_invariant:
  assumes ops: "ops = \<lparr>ro_Burn = Burn, ro_Fail = Fail, ro_Clear = Clear, ro_Lock = Lock, ro_LockedFor = LockedFor\<rparr>"
    and "guessing ops src scope t0 r0 t r c p"
    and end_of: "e \<le> t0 + lk_Window (src_Lockout src)" "e < t0 + lk_Lock (src_Lockout src)"
    and attempts: "0 \<le> lk_Attempts (src_Lockout src)" and counts0: "\<And>u. 0 \<le> counted r0 u scope"
    and "t \<le> e"
  shows "(int (p + c) \<le> lk_Attempts (src_Lockout src) \<and> (\<forall>u. t \<le> u \<and> u \<le> e \<longrightarrow> int (p + c) \<le> counted r u scope)) \<or>
    (int p \<le> lk_Attempts (src_Lockout src) \<and> (\<forall>u. t \<le> u \<and> u \<le> e \<longrightarrow> locked r u scope))"
  using assms(2,7)
proof (induction rule: guessing.induct)
  case start
  then show ?case using attempts counts0 by auto
next
  case (waits t r c p u)
  then show ?case by auto
next
  case (count t r c p n r')
  have F: "Fail t scope (lk_Window (src_Lockout src)) r = (Some n, r')" using count(2) by (simp add: ops)
  have "counted r' u scope = n" if "u \<le> e" for u
    using fail_counted [OF F, of u] that end_of guessing_time [OF count(1)] by simp
  moreover have "locked r' u scope = locked r u scope" for u
    using fail_locks [of t scope "lk_Window (src_Lockout src)" r u scope] F by simp
  ultimately show ?case
    using count.IH count.prems fail_counts [OF F] count.hyps(3) by (auto 0 3)
next
  case (over t r c p n r')
  have F: "Fail t scope (lk_Window (src_Lockout src)) r = (Some n, r')" using over(2) by (simp add: ops)
  have "counted r' u scope = n" if "u \<le> e" for u
    using fail_counted [OF F, of u] that end_of guessing_time [OF over(1)] by simp
  moreover have "locked r' u scope = locked r u scope" for u
    using fail_locks [of t scope "lk_Window (src_Lockout src)" r u scope] F by simp
  ultimately show ?case
    using over.IH over.prems over.hyps(3) by (auto 0 3)
next
  case (pass t r c p left r')
  have L: "LockedFor t scope r = (Some left, r')" using pass(2) by (simp add: ops)
  have keeps: "counted r' u scope = counted r u scope" "t \<le> u \<Longrightarrow> locked r' u scope = locked r u scope" for u
    using locked_for_counts [of t scope r u scope] locked_for_keeps [of t u scope r scope] L by simp_all
  from pass.IH pass.prems locked_for [OF L] pass.hyps(3) keeps show ?case by auto
next
  case (refuse t r c p left r')
  have L: "LockedFor t scope r = (Some left, r')" using refuse(2) by (simp add: ops)
  have keeps: "counted r' u scope = counted r u scope" "t \<le> u \<Longrightarrow> locked r' u scope = locked r u scope" for u
    using locked_for_counts [of t scope r u scope] locked_for_keeps [of t u scope r scope] L by simp_all
  from refuse.IH refuse.prems keeps show ?case by auto
next
  case (lock t r c p r')
  have "Lock t scope (lk_Lock (src_Lockout src)) r = (Some (), r')" using lock(2) by (simp add: ops)
  then have "locked r' u scope" if "u \<le> e" for u
    using lock_locks that end_of guessing_time [OF lock(1)] by fastforce
  with lock.IH lock.prems show ?case by auto
qed (auto simp: ops locked_for_counts locked_for_keeps burn_locks burn_counts fail_keeps fail_locks clear_locks
    clear_counts lock_keeps lock_counts)

lemma guesses_bounded:
  assumes "ops = \<lparr>ro_Burn = Burn, ro_Fail = Fail, ro_Clear = Clear, ro_Lock = Lock, ro_LockedFor = LockedFor\<rparr>"
    and "guessing ops src scope t0 r0 t r c p"
    and "t \<le> t0 + lk_Window (src_Lockout src)" "t < t0 + lk_Lock (src_Lockout src)"
    and "0 \<le> lk_Attempts (src_Lockout src)" "\<And>u. 0 \<le> counted r0 u scope"
  shows "int p \<le> lk_Attempts (src_Lockout src)"
  using guessing_invariant [OF assms] by auto

lemma lockedFor_spent:
  assumes "ops = \<lparr>ro_Burn = Burn, ro_Fail = Fail, ro_Clear = Clear, ro_Lock = Lock, ro_LockedFor = LockedFor\<rparr>"
  shows "spent (snd (lockedFor_loop ops t scopes worst r)) u kind i = spent r u kind i"
proof (induction scopes arbitrary: worst r)
  case (Cons s ss)
  then show ?case
    using locked_for_spent [of t s r u kind i] by (auto simp: assms split: prod.splits option.splits)
qed simp

text \<open>The lock of any of the scopes shows in \<open>lockedFor\<close>.\<close>

lemma lockedFor_loop_ge:
  assumes ops: "ops = \<lparr>ro_Burn = Burn, ro_Fail = Fail, ro_Clear = Clear, ro_Lock = Lock, ro_LockedFor = LockedFor\<rparr>"
  shows "worst \<le> fst (lockedFor_loop ops t scopes worst r)"
proof (induction scopes arbitrary: worst r)
  case (Cons s ss)
  show ?case
    using Cons [of worst] Cons by (auto split: prod.splits option.splits intro: order_trans [OF _ Cons])
qed simp

lemma lockedFor_locked:
  assumes ops: "ops = \<lparr>ro_Burn = Burn, ro_Fail = Fail, ro_Clear = Clear, ro_Lock = Lock, ro_LockedFor = LockedFor\<rparr>"
    and total: "\<And>s r. fst (LockedFor t s r) \<noteq> None" and "scope \<in> set scopes" "locked r t scope"
  shows "0 < fst (lockedFor_loop ops t scopes worst r)"
  using assms(3,4)
proof (induction scopes arbitrary: worst r)
  case (Cons s ss)
  obtain left r' where L: "LockedFor t s r = (Some left, r')"
    using total [of s r] by (cases "LockedFor t s r") auto
  have stays: "locked r' t scope" using locked_for_keeps [of t t s r scope] L Cons.prems by simp
  show ?case
  proof (cases "s = scope")
    case True
    then have "0 < (if left > worst then left else worst)" using locked_for [OF L] Cons.prems by simp
    also have "\<dots> \<le> fst (lockedFor_loop ops t ss (if left > worst then left else worst) r')"
      by (rule lockedFor_loop_ge [OF ops])
    finally show ?thesis by (simp add: ops L)
  next
    case False
    with Cons stays L show ?thesis by (simp add: ops)
  qed
qed simp

end

section \<open>Who redirects\<close>

lemma page_location [simp]: "wr_Location (page env rq src msg rotates w) = wr_Location w"
  by (simp add: page_def render_def server_fail_def Let_def split: option.splits sum.splits)

lemma rejected_location [simp]: "wr_Location (snd (rejected env ops rq src scopes counts cause r w)) = wr_Location w"
  by (simp add: rejected_def)

lemma accepted_location:
  assumes "wr_Location (snd (accepted env ops rq src t i creds r w)) \<noteq> wr_Location w"
  obtains sealed w' where "SealSession (sv_Key env) (sv_session_bytes env) (sv_rand_session env) (new_session env rq src i) = Some sealed"
    "issue env src (new_session env rq src i) w = (True, w')"
    "snd (accepted env ops rq src t i creds r w) = redirectTo (if tk_Return t = [] then backTo rq else tk_Return t) w'"
proof -
  from issue_cases [of env src "new_session env rq src i" w] show thesis
  proof cases
    case 1
    with assms show thesis by (simp add: accepted_def server_fail_def)
  next
    case (2 w')
    with assms show thesis by (simp add: accepted_def server_fail_def)
  next
    case (3 sealed w')
    then show thesis using that by (simp add: accepted_def)
  qed
qed

lemma verified_location:
  assumes "verified env ops rq src t creds scopes counts answer r w = (r', w1)" "wr_Location w1 \<noteq> wr_Location w"
  obtains i r0 where "answer = Inr i" "burnCode ops (sv_Now env) src i creds r = (None, r0)"
    "accepted env ops rq src t i creds r0 w = (r', w1)"
proof (cases answer)
  case (Inl cause)
  then show thesis using assms rejected_location [of env ops rq src scopes counts cause r w] by (simp add: verified_def)
next
  case (Inr i)
  obtain why r0 where b: "burnCode ops (sv_Now env) src i creds r = (why, r0)" by force
  show thesis
  proof (cases why)
    case None
    then show thesis using that b Inr assms by (simp add: verified_def)
  next
    case (Some cause)
    then show thesis
      using assms b Inr rejected_location [of env ops rq src scopes counts cause r0 w] by (simp add: verified_def)
  qed
qed

lemma attempt_location:
  assumes "attempt env li ops rq src t creds r d w = (r', d', Some w1)" "wr_Location w1 \<noteq> wr_Location w"
  obtains prov prior counts r0 i where "Provider_Build src = Inr prov" "priorIdentity env rq src = Some prior"
    "reserve ops (sv_Now env) src (lockScopes env src creds) r = (counts, False, r0)" "li_verify li \<noteq> Some False"
    "Provider_Run (provider_env_of env li) (li_ldap li) prov creds prior d = (Some (Inr i), d')"
    "verified env ops rq src t creds (lockScopes env src creds) counts (Inr i) r0 w = (r', w1)"
proof -
  obtain prov where prov: "Provider_Build src = Inr prov"
    using assms by (auto simp: attempt_def Let_def server_fail_def split: sum.splits)
  obtain prior where prior: "priorIdentity env rq src = Some prior"
    using assms prov by (auto simp: attempt_def Let_def split: option.splits)
  obtain counts over r0 where res: "reserve ops (sv_Now env) src (lockScopes env src creds) r = (counts, over, r0)"
    by (metis prod_cases3)
  have go: "\<not> over" "li_verify li \<noteq> Some False"
    using assms prov prior res by (auto simp: attempt_def Let_def split: if_splits)
  obtain answer d0 where run: "Provider_Run (provider_env_of env li) (li_ldap li) prov creds prior d = (Some answer, d0)"
    using assms prov prior res go
    by (cases "Provider_Run (provider_env_of env li) (li_ldap li) prov creds prior d")
      (auto simp: attempt_def Let_def split: option.splits)
  then have v: "verified env ops rq src t creds (lockScopes env src creds) counts answer r0 w = (r', w1)" "d0 = d'"
    using assms prov prior res go by (auto simp: attempt_def Let_def split: prod.splits)
  obtain i where i: "answer = Inr i"
    using verified_location [OF v(1) assms(2)] by metis
  show thesis
    by (rule that [OF prov prior, of counts r0 i]) (use res go run v i in simp_all)
qed

lemma submit_location:
  assumes "submit env li ops rq src r d w = (r', d', Some w1)" "wr_Location w1 \<noteq> wr_Location w"
  obtains f t r1 r2 where "rq_Form rq = Some f"
    "OpenTicket (sv_Key env) (sv_ticket_json env) (rq_cookie rq (tc_Cookie (src_Ticket src))) (sv_Now env) = (Some t, None)"
    "tk_Scope t = src_Name src" "tk_Nonce t = f ''csrf''"
    "\<not> fst (lockedFor ops (sv_Now env) (lockScopes env src (credentials_of env rq f)) r) > 0"
    "r1 = snd (lockedFor ops (sv_Now env) (lockScopes env src (credentials_of env rq f)) r)"
    "ro_Burn ops (sv_Now env) ''nonce'' (tk_Nonce t) (tc_TTL (src_Ticket src)) r1 = (Some True, r2)"
    "attempt env li ops rq src t (credentials_of env rq f) r2 d w = (r', d', Some w1)"
proof -
  obtain f where f: "rq_Form rq = Some f"
    using assms by (auto simp: submit_def Let_def split: option.splits)
  obtain t where t: "OpenTicket (sv_Key env) (sv_ticket_json env) (rq_cookie rq (tc_Cookie (src_Ticket src))) (sv_Now env) = (Some t, None)"
    using assms f by (cases "OpenTicket (sv_Key env) (sv_ticket_json env) (rq_cookie rq (tc_Cookie (src_Ticket src))) (sv_Now env)")
      (auto simp: submit_def Let_def split: option.splits)
  have ok: "tk_Scope t = src_Name src" "tk_Nonce t = f ''csrf''"
    using assms f t by (auto simp: submit_def Let_def split: if_splits)
  obtain left r1 where lk: "lockedFor ops (sv_Now env) (lockScopes env src (credentials_of env rq f)) r = (left, r1)" by force
  have left: "\<not> left > 0" using assms f t ok lk by (auto simp: submit_def Let_def)
  obtain fresh r2 where burn: "ro_Burn ops (sv_Now env) ''nonce'' (tk_Nonce t) (tc_TTL (src_Ticket src)) r1 = (fresh, r2)" by force
  have fresh: "fresh = Some True"
    using assms f t ok lk left burn by (auto simp: submit_def Let_def split: option.splits if_splits)
  have "attempt env li ops rq src t (credentials_of env rq f) r2 d w = (r', d', Some w1)"
    using assms f t ok lk left burn fresh by (simp add: submit_def Let_def)
  with that f t ok lk left burn fresh show thesis by simp
qed

section \<open>A session needs every check\<close>

lemma identify_cookies: "identify env src s ttl w = (ok, w') \<Longrightarrow> set (wr_Cookies w) \<subseteq> set (wr_Cookies w')"
  by (auto simp: identify_def writeCookie_def Let_def split: option.splits if_splits)

text \<open>The cookie that carries a session.\<close>

definition session_cookie :: "server_env \<Rightarrow> source \<Rightarrow> token_session \<Rightarrow> string \<Rightarrow> set_cookie" where
  "session_cookie env src s sealed =
     \<lparr>sk_Name = sc_Cookie (src_Session src), sk_Value = sealed, sk_Path = ''/'',
      sk_MaxAge = whole_seconds (unix_time (ts_Expiry s) - sv_Now env), sk_HttpOnly = True, sk_Secure = sv_CookieSecure env,
      sk_SameSite = ''Lax''\<rparr>"

lemma issue_cookie:
  assumes "issue env src s w = (True, w')"
  obtains sealed where "SealSession (sv_Key env) (sv_session_bytes env) (sv_rand_session env) s = Some sealed"
    "session_cookie env src s sealed \<in> set (wr_Cookies w')"
proof -
  obtain sealed where sealed: "SealSession (sv_Key env) (sv_session_bytes env) (sv_rand_session env) s = Some sealed"
    using assms by (auto simp: issue_def split: option.splits)
  define ttl where "ttl = unix_time (ts_Expiry s) - sv_Now env"
  define w1 where "w1 = (let w = dropCookie env (tc_Cookie (src_Ticket src)) (lg_URI (src_Login src))
        (writeCookie env (sc_Cookie (src_Session src)) sealed ''/'' ttl w)
    in (if List_Enabled (src_List src) then writeCookie env (lc_Cookie (src_List src)) (ts_SID s) ''/'' ttl w else w))"
  obtain ok w2 where i: "identify env src s ttl w1 = (ok, w2)" by force
  have "issue env src s w = (if ok then (True, remember env src s w2) else (False, w2))"
    using sealed i by (cases ok) (simp_all add: issue_def w1_def ttl_def Let_def split: if_splits)
  with assms have "w' = remember env src s w2" by (auto split: if_splits)
  moreover have "session_cookie env src s sealed \<in> set (wr_Cookies w1)"
    by (simp add: w1_def session_cookie_def writeCookie_def dropCookie_def ttl_def Let_def)
  ultimately show thesis
    using that sealed identify_cookies [OF i] by auto
qed

lemma issue_lists:
  assumes "issue env src s w = (True, w')" "List_Enabled (src_List src)" "sv_list env"
  shows "\<exists>ttl why. ListAdd (lc_Sessions (src_List src)) (ts_SID s) ttl why \<in> set (wr_published w')"
proof -
  obtain w2 where "w' = remember env src s w2"
    using assms(1) by (cases rule: issue_cases [of env src s w]) auto
  then have "ListAdd (lc_Sessions (src_List src)) (ts_SID s) (min (unix_time (ts_Expiry s) - sv_Now env) (lc_TTL (src_List src)))
      (''AUTH_LOGIN '' @ ts_Sub s) \<in> set (wr_published w')"
    using assms(2,3) by (simp add: remember_def publish_op_def Let_def min_def)
  then show ?thesis by blast
qed

text \<open>What a form went through that signed in.\<close>

lemma submit_signed_in:
  assumes "submit env li ops rq src r d new_writer = (r', d', Some w)" "wr_Location w \<noteq> []"
  obtains f t prov prior i r1 r2 r3 counts r4 w2 sealed where
    "rq_Form rq = Some f"
    "OpenTicket (sv_Key env) (sv_ticket_json env) (rq_cookie rq (tc_Cookie (src_Ticket src))) (sv_Now env) = (Some t, None)"
    "tk_Scope t = src_Name src" "tk_Nonce t = f ''csrf''"
    "fst (lockedFor ops (sv_Now env) (lockScopes env src (credentials_of env rq f)) r) \<le> 0"
    "ro_Burn ops (sv_Now env) ''nonce'' (tk_Nonce t) (tc_TTL (src_Ticket src)) r1 = (Some True, r2)"
    "Provider_Build src = Inr prov" "priorIdentity env rq src = Some prior"
    "reserve ops (sv_Now env) src (lockScopes env src (credentials_of env rq f)) r2 = (counts, False, r3)"
    "Provider_Run (provider_env_of env li) (li_ldap li) prov (credentials_of env rq f) prior d = (Some (Inr i), d')"
    "burnCode ops (sv_Now env) src i (credentials_of env rq f) r3 = (None, r4)"
    "issue env src (new_session env rq src i) new_writer = (True, w2)"
    "SealSession (sv_Key env) (sv_session_bytes env) (sv_rand_session env) (new_session env rq src i) = Some sealed"
    "session_cookie env src (new_session env rq src i) sealed \<in> set (wr_Cookies w)"
    "w = redirectTo (if tk_Return t = [] then backTo rq else tk_Return t) w2"
proof -
  have loc: "wr_Location w \<noteq> wr_Location new_writer" using assms(2) by (simp add: new_writer_def)
  from assms(1) loc obtain f t r1 r2 where s: "rq_Form rq = Some f"
    "OpenTicket (sv_Key env) (sv_ticket_json env) (rq_cookie rq (tc_Cookie (src_Ticket src))) (sv_Now env) = (Some t, None)"
    "tk_Scope t = src_Name src" "tk_Nonce t = f ''csrf''"
    "\<not> fst (lockedFor ops (sv_Now env) (lockScopes env src (credentials_of env rq f)) r) > 0"
    "ro_Burn ops (sv_Now env) ''nonce'' (tk_Nonce t) (tc_TTL (src_Ticket src)) r1 = (Some True, r2)"
    "attempt env li ops rq src t (credentials_of env rq f) r2 d new_writer = (r', d', Some w)"
    by (elim submit_location) auto
  from s(7) loc obtain prov prior counts r3 i where a: "Provider_Build src = Inr prov" "priorIdentity env rq src = Some prior"
    "reserve ops (sv_Now env) src (lockScopes env src (credentials_of env rq f)) r2 = (counts, False, r3)"
    "Provider_Run (provider_env_of env li) (li_ldap li) prov (credentials_of env rq f) prior d = (Some (Inr i), d')"
    "verified env ops rq src t (credentials_of env rq f) (lockScopes env src (credentials_of env rq f)) counts (Inr i) r3 new_writer = (r', w)"
    by (elim attempt_location) auto
  from a(5) loc obtain r4 where v: "burnCode ops (sv_Now env) src i (credentials_of env rq f) r3 = (None, r4)"
    "accepted env ops rq src t i (credentials_of env rq f) r4 new_writer = (r', w)"
    by (elim verified_location) auto
  have "wr_Location (snd (accepted env ops rq src t i (credentials_of env rq f) r4 new_writer)) \<noteq> wr_Location new_writer"
    using v(2) loc by simp
  then obtain w2 where w: "issue env src (new_session env rq src i) new_writer = (True, w2)"
    "w = redirectTo (if tk_Return t = [] then backTo rq else tk_Return t) w2"
    using v(2) by (elim accepted_location) simp
  from issue_cookie [OF w(1)] obtain sealed where
    c: "SealSession (sv_Key env) (sv_session_bytes env) (sv_rand_session env) (new_session env rq src i) = Some sealed"
    "session_cookie env src (new_session env rq src i) sealed \<in> set (wr_Cookies w2)" .
  moreover from w(2) c(2) have "session_cookie env src (new_session env rq src i) sealed \<in> set (wr_Cookies w)"
    by (simp add: redirectTo_def)
  ultimately show thesis
    using that s(1-6) a(1-4) v(1) w c(1) by auto
qed

text \<open>C2: A submitted form signs in, that is, answers with a redirect, only when the form was read,
  its ticket opened for this source and carries the form's nonce, no scope of the client was
  locked, the nonce had not been used, the earlier gate (if the source asks for one) was passed,
  the attempt was within the limit, the provider accepted these credentials, and the code (if
  any) had not been used. Then the answer carries the sealed session of exactly the provider's
  identity, and leads to the ticket's address.\<close>

theorem sign_in_checks:
  assumes "submit env li ops rq src r d new_writer = (r', d', Some w)" "wr_Location w \<noteq> []"
  shows "\<exists>f t prov prior i r1 r2 r3 counts r4 sealed.
    rq_Form rq = Some f \<and>
    OpenTicket (sv_Key env) (sv_ticket_json env) (rq_cookie rq (tc_Cookie (src_Ticket src))) (sv_Now env) = (Some t, None) \<and>
    tk_Scope t = src_Name src \<and> tk_Nonce t = f ''csrf'' \<and>
    fst (lockedFor ops (sv_Now env) (lockScopes env src (credentials_of env rq f)) r) \<le> 0 \<and>
    ro_Burn ops (sv_Now env) ''nonce'' (tk_Nonce t) (tc_TTL (src_Ticket src)) r1 = (Some True, r2) \<and>
    Provider_Build src = Inr prov \<and> priorIdentity env rq src = Some prior \<and>
    reserve ops (sv_Now env) src (lockScopes env src (credentials_of env rq f)) r2 = (counts, False, r3) \<and>
    Provider_Run (provider_env_of env li) (li_ldap li) prov (credentials_of env rq f) prior d = (Some (Inr i), d') \<and>
    burnCode ops (sv_Now env) src i (credentials_of env rq f) r3 = (None, r4) \<and>
    SealSession (sv_Key env) (sv_session_bytes env) (sv_rand_session env) (new_session env rq src i) = Some sealed \<and>
    session_cookie env src (new_session env rq src i) sealed \<in> set (wr_Cookies w) \<and>
    wr_Location w = (if tk_Return t = [] then backTo rq else tk_Return t)"
proof -
  obtain f t prov prior i r1 r2 r3 counts r4 w2 sealed where
    "rq_Form rq = Some f"
    "OpenTicket (sv_Key env) (sv_ticket_json env) (rq_cookie rq (tc_Cookie (src_Ticket src))) (sv_Now env) = (Some t, None)"
    "tk_Scope t = src_Name src" "tk_Nonce t = f ''csrf''"
    "fst (lockedFor ops (sv_Now env) (lockScopes env src (credentials_of env rq f)) r) \<le> 0"
    "ro_Burn ops (sv_Now env) ''nonce'' (tk_Nonce t) (tc_TTL (src_Ticket src)) r1 = (Some True, r2)"
    "Provider_Build src = Inr prov" "priorIdentity env rq src = Some prior"
    "reserve ops (sv_Now env) src (lockScopes env src (credentials_of env rq f)) r2 = (counts, False, r3)"
    "Provider_Run (provider_env_of env li) (li_ldap li) prov (credentials_of env rq f) prior d = (Some (Inr i), d')"
    "burnCode ops (sv_Now env) src i (credentials_of env rq f) r3 = (None, r4)"
    "SealSession (sv_Key env) (sv_session_bytes env) (sv_rand_session env) (new_session env rq src i) = Some sealed"
    "session_cookie env src (new_session env rq src i) sealed \<in> set (wr_Cookies w)"
    "w = redirectTo (if tk_Return t = [] then backTo rq else tk_Return t) w2"
    using assms by (rule submit_signed_in)
  then show ?thesis
    by (intro exI conjI) (assumption | simp add: redirectTo_def)+
qed

section \<open>Tickets and codes are good once\<close>

text \<open>C14: A ticket is good for one login: once its nonce is burned, whatever requests do to the
  roster in between, no form with that ticket ever signs in again. The nonce stays spent for the
  ticket's time, and after that the ticket no longer opens. This is the roster in memory.\<close>

theorem ticket_single_use:
  assumes "Memory_Burn b ''nonce'' (tk_Nonce t) (tc_TTL (src_Ticket src)) r0 = (Some True, r1)"
    and "tk_Expiry t \<le> unix (b + tc_TTL (src_Ticket src))"
    and "roster_steps memory_ops b r1 (sv_Now env) r"
    and "fst (OpenTicket (sv_Key env) (sv_ticket_json env) (rq_cookie rq (tc_Cookie (src_Ticket src))) (sv_Now env)) = Some t"
    and "submit env li memory_ops rq src r d new_writer = (r', d', Some w)"
  shows "wr_Location w = []"
proof (rule ccontr)
  assume "wr_Location w \<noteq> []"
  then have loc: "wr_Location w \<noteq> wr_Location new_writer" by (simp add: new_writer_def)
  obtain f t' r2 r3 where "rq_Form rq = Some f"
    and open_t: "OpenTicket (sv_Key env) (sv_ticket_json env) (rq_cookie rq (tc_Cookie (src_Ticket src))) (sv_Now env) = (Some t', None)"
    and "tk_Scope t' = src_Name src" "tk_Nonce t' = f ''csrf''"
      "\<not> fst (lockedFor memory_ops (sv_Now env) (lockScopes env src (credentials_of env rq f)) r) > 0"
    and r2: "r2 = snd (lockedFor memory_ops (sv_Now env) (lockScopes env src (credentials_of env rq f)) r)"
    and burn: "ro_Burn memory_ops (sv_Now env) ''nonce'' (tk_Nonce t') (tc_TTL (src_Ticket src)) r2 = (Some True, r3)"
    and "attempt env li memory_ops rq src t' (credentials_of env rq f) r3 d new_writer = (r', d', Some w)"
    by (rule submit_location [OF assms(5) loc])
  from open_t assms(4) have t: "t' = t" by simp
  have "unix (sv_Now env) < tk_Expiry t"
    using open_t by (simp add: OpenTicket_accepts t)
  then have now: "sv_Now env < b + tc_TTL (src_Ticket src)"
    using assms(2) unix_mono [of "b + tc_TTL (src_Ticket src)" "sv_Now env"] by force
  have le: "b \<le> sv_Now env" using assms(3) by (rule roster_steps_time)
  have "mm_spent r1 (sv_Now env) ''nonce'' (tk_Nonce t)"
    using memory.burn_spends [OF assms(1) le now] .
  then have "mm_spent r (sv_Now env) ''nonce'' (tk_Nonce t)"
    by (rule memory.spent_stays [OF memory_ops_def assms(3) _ order_refl])
  then have "mm_spent r2 (sv_Now env) ''nonce'' (tk_Nonce t)"
    by (simp add: r2 lockedFor_def memory.lockedFor_spent [OF memory_ops_def])
  from memory.burn_refused [OF this, of "tc_TTL (src_Ticket src)"] show False
    using burn by (simp add: t memory_ops_def)
qed

lemma step_window:
  assumes "(0::int) < s" "\<bar>unix b div s - step\<bar> \<le> k" "\<bar>unix now div s - step\<bar> \<le> k"
  shows "now < b + s * second * (2 * k + 2)"
proof -
  have "unix now div s \<le> unix b div s + 2 * k" and k: "0 \<le> k" using assms(2,3) by linarith+
  then have "s * (unix now div s) \<le> s * (unix b div s + 2 * k)" using assms(1) by simp
  moreover have "s * (unix b div s) \<le> unix b" "unix now < s * (unix now div s) + s"
    using mult_div_mod_eq [of s "unix b"] mult_div_mod_eq [of s "unix now"] pos_mod_sign [OF assms(1), of "unix b"]
      pos_mod_bound [OF assms(1), of "unix now"] by linarith+
  ultimately have "unix now < unix b + s * (2 * k + 1)" by (simp add: algebra_simps)
  then have "now < unix_time (unix b + s * (2 * k + 1))" by (simp add: unix_less_iff)
  also have "\<dots> = unix_time (unix b) + s * second * (2 * k + 1)" by (simp add: unix_time_def algebra_simps)
  also have "\<dots> \<le> b + s * second * (2 * k + 1)" using unix_time_unix(1) [of b] by simp
  also have "\<dots> \<le> b + s * second * (2 * k + 2)" using assms(1) by (simp add: second_def)
  finally show ?thesis .
qed

text \<open>Whatever a submit does to the roster is a sequence of its operations.\<close>

lemma roster_steps_trans:
  assumes "roster_steps ops t0 r0 t r" "roster_steps ops t r u r'"
  shows "roster_steps ops t0 r0 u r'"
  using assms(2) by (induction rule: roster_steps.induct) (auto intro: roster_steps.intros assms(1))

lemma lockedFor_steps: "roster_steps ops t0 r0 t r \<Longrightarrow> roster_steps ops t0 r0 t (snd (lockedFor_loop ops t scopes worst r))"
proof (induction scopes arbitrary: worst r)
  case (Cons s ss)
  then show ?case
    using roster_steps.looks [OF Cons.prems, of s] by (cases "ro_LockedFor ops t s r") (auto split: option.splits)
qed simp

lemma reserve_steps: "roster_steps ops t0 r0 t r \<Longrightarrow> roster_steps ops t0 r0 t (snd (snd (reserve ops t src scopes r)))"
proof -
  have scope: "roster_steps ops t0 r0 t (snd (snd (reserve_scope ops t src s r)))" if "roster_steps ops t0 r0 t r" for s r
  proof -
    obtain n r1 where F: "ro_Fail ops t s (lk_Window (src_Lockout src)) r = (n, r1)" by force
    have f: "roster_steps ops t0 r0 t r1"
      using roster_steps.fails [OF that, of s "lk_Window (src_Lockout src)"] F by simp
    show ?thesis
      using f roster_steps.locks [OF f, of s "lk_Lock (src_Lockout src)"] roster_steps.looks [OF f, of s]
      by (cases "ro_LockedFor ops t s r1") (auto simp: reserve_scope_def lock_scope_def F split: option.splits)
  qed
  have "roster_steps ops t0 r0 t (snd (snd (reserve_loop ops t src scopes r)))" if "roster_steps ops t0 r0 t r" for r
    using that
  proof (induction scopes arbitrary: r)
    case (Cons s ss)
    obtain n over r1 where s: "reserve_scope ops t src s r = (n, over, r1)" by (metis prod_cases3)
    then have "roster_steps ops t0 r0 t (snd (snd (reserve_loop ops t src ss r1)))"
      using Cons.IH [of r1] scope [OF Cons.prems, of s] by simp
    then show ?case by (cases "reserve_loop ops t src ss r1") (simp add: s)
  qed simp
  then show "roster_steps ops t0 r0 t r \<Longrightarrow> ?thesis" by (simp add: reserve_def)
qed

lemma clear_steps: "roster_steps ops t0 r0 t r \<Longrightarrow> roster_steps ops t0 r0 t (clear_scopes ops t scopes r)"
  by (induction scopes arbitrary: r) (auto intro: roster_steps.clears)

lemma signed_in_code:
  assumes "submit env li ops rq src r d new_writer = (r', d', Some w)" "wr_Location w \<noteq> []"
  obtains f prov prior i ra rb where "rq_Form rq = Some f" "Provider_Build src = Inr prov" "priorIdentity env rq src = Some prior"
    "Provider_Run (provider_env_of env li) (li_ldap li) prov (credentials_of env rq f) prior d = (Some (Inr i), d')"
    "roster_steps ops (sv_Now env) r (sv_Now env) ra"
    "burnCode ops (sv_Now env) src i (credentials_of env rq f) ra = (None, rb)"
    "roster_steps ops (sv_Now env) rb (sv_Now env) r'"
proof -
  let ?t = "sv_Now env"
  have loc: "wr_Location w \<noteq> wr_Location new_writer" using assms(2) by (simp add: new_writer_def)
  obtain f t r1 r2 where form: "rq_Form rq = Some f"
    and "OpenTicket (sv_Key env) (sv_ticket_json env) (rq_cookie rq (tc_Cookie (src_Ticket src))) (sv_Now env) = (Some t, None)"
      "tk_Scope t = src_Name src" "tk_Nonce t = f ''csrf''"
      "\<not> fst (lockedFor ops (sv_Now env) (lockScopes env src (credentials_of env rq f)) r) > 0"
    and r1: "r1 = snd (lockedFor ops ?t (lockScopes env src (credentials_of env rq f)) r)"
    and burn: "ro_Burn ops ?t ''nonce'' (tk_Nonce t) (tc_TTL (src_Ticket src)) r1 = (Some True, r2)"
    and att: "attempt env li ops rq src t (credentials_of env rq f) r2 d new_writer = (r', d', Some w)"
    by (rule submit_location [OF assms(1) loc])
  obtain prov prior counts r3 i where a: "Provider_Build src = Inr prov" "priorIdentity env rq src = Some prior"
    "Provider_Run (provider_env_of env li) (li_ldap li) prov (credentials_of env rq f) prior d = (Some (Inr i), d')"
    and res: "reserve ops ?t src (lockScopes env src (credentials_of env rq f)) r2 = (counts, False, r3)"
    and "li_verify li \<noteq> Some False"
    and v: "verified env ops rq src t (credentials_of env rq f) (lockScopes env src (credentials_of env rq f)) counts (Inr i) r3 new_writer = (r', w)"
    using attempt_location [OF att loc] by metis
  from v loc obtain r4 where code: "burnCode ops ?t src i (credentials_of env rq f) r3 = (None, r4)"
    and acc: "accepted env ops rq src t i (credentials_of env rq f) r4 new_writer = (r', w)"
    by (elim verified_location) auto
  have "roster_steps ops ?t r ?t r1"
    using lockedFor_steps [OF roster_steps.start] by (simp add: r1 lockedFor_def)
  from roster_steps.burns [OF this, of "''nonce''" "tk_Nonce t" "tc_TTL (src_Ticket src)"] burn
  have "roster_steps ops ?t r ?t r2" by simp
  from reserve_steps [OF this, of src "lockScopes env src (credentials_of env rq f)"] res
  have before: "roster_steps ops ?t r ?t r3" by simp
  have "r' = clear_scopes ops ?t (lockScopes env src (credentials_of env rq f)) r4"
    using acc by (auto simp: accepted_def Let_def split: prod.splits bool.splits)
  then have "roster_steps ops ?t r4 ?t r'" using clear_steps [OF roster_steps.start] by simp
  with that form a before code show thesis by blast
qed

lemma code_window:
  assumes "second \<le> p" "\<bar>unix b div (p div second) - step\<bar> \<le> k" "\<bar>unix now div (p div second) - step\<bar> \<le> k"
  shows "now < b + p * (2 * k + 2)"
proof -
  have s: "(0::int) < p div second" using assms(1) by (simp add: second_def pos_imp_zdiv_pos_iff)
  have k: "0 \<le> k" using assms(2) by linarith
  have "p div second * second \<le> p" by (simp add: second_def minus_mod_eq_div_mult [symmetric])
  then have "p div second * second * (2 * k + 2) \<le> p * (2 * k + 2)" using k by (intro mult_right_mono) auto
  then show ?thesis using step_window [OF s assms(2,3)] by linarith
qed

text \<open>A code is burned before it counts, so this holds of interleaved submits as well.\<close>

lemma code_burned_once:
  assumes "pr_Code (src_Providers src) = Some c" "src_Provider src = ProviderCode" "cp_Kind c = CodeTOTP"
    and "second \<le> cp_Period c" "cr_Code creds \<noteq> []"
    and "burnCode memory_ops b src i creds r0 = (None, r1)"
    and "\<bar>unix b div (cp_Period c div second) - step\<bar> \<le> cp_Skew c" "\<bar>unix now div (cp_Period c div second) - step\<bar> \<le> cp_Skew c"
    and "roster_steps memory_ops b r1 now r"
    and "id_Subject i' = id_Subject i" "cr_Code creds' = cr_Code creds"
  shows "fst (burnCode memory_ops now src i' creds' r) = Some ErrInvalid"
proof -
  have burned: "Memory_Burn b ''totp'' (id_Subject i @ '':'' @ cr_Code creds) (cp_Period c * (2 * cp_Skew c + 2)) r0 = (Some True, r1)"
    using assms(6) by (auto simp: burnCode_def assms(1-3,5) memory_ops_def split: prod.splits option.splits if_splits)
  have now: "now < b + cp_Period c * (2 * cp_Skew c + 2)"
    using assms(4,7,8) by (rule code_window)
  have le: "b \<le> now" using assms(9) by (rule roster_steps_time)
  have "mm_spent r now ''totp'' (id_Subject i @ '':'' @ cr_Code creds)"
    by (rule memory.spent_stays [OF memory_ops_def assms(9) memory.burn_spends [OF burned le now] order_refl])
  then have "fst (Memory_Burn now ''totp'' (id_Subject i @ '':'' @ cr_Code creds) (cp_Period c * (2 * cp_Skew c + 2)) r) = Some False"
    by (auto simp: mm_spent_def Memory_Burn_def Let_def split: option.splits)
  then show ?thesis
    by (cases "Memory_Burn now ''totp'' (id_Subject i @ '':'' @ cr_Code creds) (cp_Period c * (2 * cp_Skew c + 2)) r")
      (simp add: burnCode_def assms(1-3,5,10,11) memory_ops_def)
qed

lemma code_signs_in:
  assumes "pr_Code (src_Providers src) = Some c" "src_Provider src = ProviderCode" "cp_Kind c = CodeTOTP"
    and "submit env li ops rq src r d new_writer = (r', d', Some w)" "wr_Location w \<noteq> []"
    and "rq_Form rq = Some f" "priorIdentity env rq src = Some (Some q)"
  obtains i ra rb where "id_Subject i = id_Subject q" "cr_Code (credentials_of env rq f) \<noteq> []"
    "roster_steps ops (sv_Now env) r (sv_Now env) ra"
    "burnCode ops (sv_Now env) src i (credentials_of env rq f) ra = (None, rb)" "roster_steps ops (sv_Now env) rb (sv_Now env) r'"
proof -
  obtain f' prov prior i ra rb where s: "rq_Form rq = Some f'" "Provider_Build src = Inr prov" "priorIdentity env rq src = Some prior"
    "Provider_Run (provider_env_of env li) (li_ldap li) prov (credentials_of env rq f') prior d = (Some (Inr i), d')"
    "roster_steps ops (sv_Now env) r (sv_Now env) ra"
    "burnCode ops (sv_Now env) src i (credentials_of env rq f') ra = (None, rb)"
    "roster_steps ops (sv_Now env) rb (sv_Now env) r'"
    using assms(4,5) by (rule signed_in_code)
  have "prov = CodeP (Some c) (src_Users src)" using s(2) assms(1,2) by (simp add: Provider_Build_def)
  then have "code_proof (provider_env_of env li) (Some c) (src_Users src) (credentials_of env rq f) (Some q) i"
    using codes.run_ok [of "provider_env_of env li" "Some c" "src_Users src" "credentials_of env rq f" "Some q" d i d'] s(1,3,4) assms(6,7)
    by (simp add: Provider_Run_def)
  then have "totp_proof (provider_env_of env li) c (src_Users src) (credentials_of env rq f) (Some q) i"
    using assms(3) by (simp add: code_proof_def)
  from totp_proof_subject [OF this] have q: "id_Subject i = id_Subject q" "cr_Code (credentials_of env rq f) \<noteq> []"
    using TrimSpace_not_Nil by blast+
  have "f' = f" using s(1) assms(6) by simp
  then show thesis using q s(5-7) by (intro that [of i ra rb]) simp_all
qed

text \<open>C15: A one-time code signs in once for a subject: after a form that signed in with a code, no form
  with the same code (whatever white space is around it) of a client that an earlier gate knows
  under the same subject, spelled alike, signs in as long as a time step for which the first was in
  the skew still is, whatever requests do to the roster in between: the time that a code is kept
  covers the time it is valid, for every period of at least a second, whole or not. This is the
  roster in memory; a subject spelled otherwise is another key there (the lemma \<open>code_replay_by_case\<close>
  below).\<close>

theorem code_single_use:
  assumes "pr_Code (src_Providers src) = Some c" "src_Provider src = ProviderCode" "cp_Kind c = CodeTOTP" "second \<le> cp_Period c"
    and "submit env li memory_ops rq src r0 d new_writer = (r1, d1, Some w)" "wr_Location w \<noteq> []"
    and "rq_Form rq = Some f" "priorIdentity env rq src = Some (Some q)"
    and "roster_steps memory_ops (sv_Now env) r1 (sv_Now env') r"
    and "\<bar>unix (sv_Now env) div (cp_Period c div second) - step\<bar> \<le> cp_Skew c"
      "\<bar>unix (sv_Now env') div (cp_Period c div second) - step\<bar> \<le> cp_Skew c"
    and "rq_Form rq' = Some f'" "priorIdentity env' rq' src = Some (Some q')"
    and "id_Subject q' = id_Subject q" "TrimSpace (f' ''code'') = TrimSpace (f ''code'')"
    and "submit env' li' memory_ops rq' src r d' new_writer = (r2, d2, Some w')"
  shows "wr_Location w' = []"
proof (rule ccontr)
  assume again: "wr_Location w' \<noteq> []"
  obtain i ra rb where first: "id_Subject i = id_Subject q" "cr_Code (credentials_of env rq f) \<noteq> []"
    "burnCode memory_ops (sv_Now env) src i (credentials_of env rq f) ra = (None, rb)"
    "roster_steps memory_ops (sv_Now env) rb (sv_Now env) r1"
    by (rule code_signs_in [OF assms(1-3,5-8)])
  obtain i' rc rd where second: "id_Subject i' = id_Subject q'" "roster_steps memory_ops (sv_Now env') r (sv_Now env') rc"
    "burnCode memory_ops (sv_Now env') src i' (credentials_of env' rq' f') rc = (None, rd)"
    by (rule code_signs_in [OF assms(1-3,16) again assms(12,13)])
  have "roster_steps memory_ops (sv_Now env) rb (sv_Now env') rc"
    using first(4) assms(9) second(2) by (blast intro: roster_steps_trans)
  from code_burned_once [OF assms(1-4) first(2,3) assms(10,11) this, of i' "credentials_of env' rq' f'"]
  show False using first(1) second(1,3) assms(14,15) by (simp add: credentials_of_def)
qed

text \<open>The code is kept under the subject as it is spelled, while the account is looked up without
  regard to case and surrounding space: under another spelling of the same account (which an
  earlier gate that takes the login as typed hands on) the same code is accepted again.\<close>

theorem code_replay_by_case:
  assumes "burnCode memory_ops b src i creds r0 = (None, r1)"
    and "id_Subject i' \<noteq> id_Subject i" "user_key (pe_ct env) (id_Subject i') = user_key (pe_ct env) (id_Subject i)"
    and "\<not> mm_spent r0 now ''totp'' (id_Subject i' @ '':'' @ cr_Code creds)"
  shows "fst (burnCode memory_ops now src i' creds r1) = None \<and>
    secretOf env users (id_Subject i') = secretOf env users (id_Subject i)"
proof -
  have other: "burn_key ''totp'' (id_Subject i @ '':'' @ cr_Code creds) \<noteq> burn_key ''totp'' (id_Subject i' @ '':'' @ cr_Code creds)"
    using assms(2) by (simp add: burn_key_def)
  have "mm_burned r1 = mm_burned r0 \<or> (\<exists>u. mm_burned r1 = (mm_burned r0)(burn_key ''totp'' (id_Subject i @ '':'' @ cr_Code creds) \<mapsto> u))"
    using assms(1) by (auto simp: burnCode_def memory_ops_def Memory_Burn_def Let_def split: option.splits if_splits prod.splits)
  then have "mm_burned r1 (burn_key ''totp'' (id_Subject i' @ '':'' @ cr_Code creds)) =
      mm_burned r0 (burn_key ''totp'' (id_Subject i' @ '':'' @ cr_Code creds))"
    using other by auto
  then have "fst (Memory_Burn now ''totp'' (id_Subject i' @ '':'' @ cr_Code creds) ttl r1) = Some True" for ttl
    using assms(4) by (auto simp: Memory_Burn_def mm_spent_def Let_def split: option.splits)
  then have "fst (burnCode memory_ops now src i' creds r1) = None"
    by (cases "pr_Code (src_Providers src)")
      (auto simp: burnCode_def memory_ops_def split: prod.splits option.splits, (metis fst_conv option.distinct(1) option.inject)+)
  moreover have "secretOf env users (id_Subject i') = secretOf env users (id_Subject i)"
    by (simp add: secretOf_def assms(3))
  ultimately show ?thesis by simp
qed


section \<open>Attempts and locks\<close>

lemma memory_counts_nonneg:
  assumes "roster_steps memory_ops t0 NewMemory t r"
  shows "0 \<le> mm_counted r u scope"
proof -
  have "\<forall>s c. mm_fails r s = Some c \<longrightarrow> 0 \<le> ctr_n c"
    using assms
    by (induction rule: roster_steps.induct)
      (auto simp: memory_ops_def NewMemory_def Memory_Burn_def Memory_Fail_def Memory_Clear_def Memory_Lock_def
        Memory_LockedFor_def Let_def split: option.splits if_splits)
  then show ?thesis by (auto simp: mm_counted_def split: option.splits)
qed

lemma memory_looks: "\<exists>left r'. Memory_LockedFor t s r = (Some left, r')"
  by (auto simp: Memory_LockedFor_def Let_def split: option.splits)

lemma reserve_scope_guessing:
  assumes "guessing memory_ops src scope t0 r0 t r c p" "reserve_scope memory_ops t src scope r = (n, over, r')"
  shows "guessing memory_ops src scope t0 r0 t r' c (if over then p else Suc p)"
proof -
  obtain k r1 where F: "ro_Fail memory_ops t scope (lk_Window (src_Lockout src)) r = (Some k, r1)"
    by (simp add: memory_ops_def Memory_Fail_def Let_def)
  show ?thesis
  proof (cases "k > lk_Attempts (src_Lockout src)")
    case True
    have "ro_Lock memory_ops t scope (lk_Lock (src_Lockout src)) r1 = (Some (), lock_scope memory_ops t src scope r1)"
      by (simp add: lock_scope_def memory_ops_def Memory_Lock_def)
    from guessing.lock [OF guessing.over [OF assms(1) F True] this] show ?thesis
      using assms(2) F True by (auto simp: reserve_scope_def)
  next
    case False
    obtain left r2 where L: "ro_LockedFor memory_ops t scope r1 = (Some left, r2)"
      using memory_looks [of t scope r1] by (auto simp: memory_ops_def)
    note counted = guessing.count [OF assms(1) F]
    show ?thesis
      using assms(2) F L False counted guessing.pass [OF counted L] guessing.refuse [OF counted L]
      by (auto simp: reserve_scope_def)
  qed
qed

text \<open>C11: Within one counting window that is shorter than the lock, at most \<open>attempts\<close> guesses at one
  scope pass to the provider unless one of them is right, however the steps of concurrent
  submits interleave (each counts itself, then reads the lock; whoever finds the limit reached
  sets it). \<open>reserve\<close> takes exactly these steps. This is the roster in memory, whose operations
  do not fail; a count that a Redis server fails to take does not hold an attempt up.\<close>

theorem guess_bound:
  assumes "roster_steps memory_ops tn NewMemory t0 r0" "guessing memory_ops src scope t0 r0 t r c p"
    and "t \<le> t0 + lk_Window (src_Lockout src)" "t < t0 + lk_Lock (src_Lockout src)" "0 < lk_Attempts (src_Lockout src)"
  shows "int p \<le> lk_Attempts (src_Lockout src) \<and>
    (\<forall>n over r'. reserve_scope memory_ops t src scope r = (n, over, r') \<longrightarrow>
       guessing memory_ops src scope t0 r0 t r' c (if over then p else Suc p))"
  using memory.guesses_bounded [OF memory_ops_def assms(2-4)] assms(5) memory_counts_nonneg [OF assms(1)]
    reserve_scope_guessing [OF assms(2)] by auto

text \<open>C23: While any scope of a client (its address or network, or the login it names) is locked, a
  submitted form reaches no provider, signs nobody in, and does not spend its ticket. This is the
  roster in memory; a lock that a Redis server fails to tell is not seen.\<close>

theorem locked_scope_waits:
  assumes "rq_Form rq = Some f" "scope \<in> set (lockScopes env src (credentials_of env rq f))"
    and "mm_locked r (sv_Now env) scope"
    and "submit env li memory_ops rq src r d new_writer = (r', d', Some w)"
  shows "d' = d \<and> wr_Location w = [] \<and> mm_burned r' = mm_burned r"
proof -
  obtain left r1 where lk: "lockedFor memory_ops (sv_Now env) (lockScopes env src (credentials_of env rq f)) r = (left, r1)" by force
  have "fst (Memory_LockedFor t s q) \<noteq> None" for t s q
    by (simp add: Memory_LockedFor_def Let_def split: option.splits)
  from memory.lockedFor_locked [OF memory_ops_def this assms(2,3)] have left: "0 < left"
    using lk by (simp add: lockedFor_def) (metis fst_conv)
  have keeps: "mm_burned (snd (lockedFor_loop memory_ops t scopes worst q)) = mm_burned q" for t scopes worst q
    by (induction scopes arbitrary: worst q)
      (auto simp: memory_ops_def Memory_LockedFor_def Let_def split: prod.splits option.splits if_splits)
  have burned: "mm_burned r1 = mm_burned r"
    using keeps [of "sv_Now env" "lockScopes env src (credentials_of env rq f)" 0 r] lk by (simp add: lockedFor_def)
  show ?thesis
    using assms(1,4) lk left burned
    by (auto simp: submit_def Let_def new_writer_def split: prod.splits option.splits if_splits)
qed

section \<open>Examples\<close>

text \<open>A form of the sample source, with its ticket.\<close>

definition login_source :: source where
  "login_source = sample_source\<lparr>src_Users := sample_users\<rparr>"

definition sample_ticket :: ticket where
  "sample_ticket = \<lparr>tk_Nonce = ''n1'', tk_Return = ''/app'', tk_Scope = ''main'', tk_Expiry = 2700\<rparr>"

definition sample_ticket_cookie :: string where
  "sample_ticket_cookie = ticketPrefix @ CHR ''.'' # b64_encode (sample_nonce @ gcm_Seal sample_aead sample_nonce ''T'' ticketPrefix)"

definition login_env :: "time \<Rightarrow> server_env" where
  "login_env now = (sample_senv now)\<lparr>sv_ticket_json := (\<lambda>b. if b = ''T'' then Some sample_ticket else None),
     sv_session_bytes := sample_marshal\<rparr>"

definition login_tools :: "(unit, unit, nat) login_env" where
  "login_tools = \<lparr>li_hmac_sha1 = (\<lambda>k m. []), li_bcrypt = (=), li_Secrets = None, li_Getenv = (\<lambda>_. []),
     li_ldap = sample_ldap, li_verify = None\<rparr>"

definition login_fields :: "string \<Rightarrow> string" where
  "login_fields name = (if name = ''csrf'' then ''n1'' else if name = ''login'' then ''alice''
     else if name = ''password'' then ''pw'' else [])"

definition login_req :: http_req where
  "login_req = \<lparr>rq_Method = ''POST'', rq_Path = ''/login'', rq_Query = [], rq_cookie = (\<lambda>_. sample_ticket_cookie),
     rq_RealIP = [], rq_RemoteAddr = ''192.0.2.1'', rq_UserAgent = [], rq_Form = Some login_fields\<rparr>"

lemma sample_ticket_opens: "OpenTicket (sv_Key (login_env (2500 * second))) (sv_ticket_json (login_env (2500 * second)))
    (rq_cookie login_req (tc_Cookie (src_Ticket login_source))) (sv_Now (login_env (2500 * second))) = (Some sample_ticket, None)"
proof -
  have "Key_open sample_aead (sv_ticket_json (login_env (2500 * second))) ticketPrefix sample_ticket_cookie = Inr sample_ticket"
    by (rule Key_open_seal [OF sample_aead_ok, where marshal = "\<lambda>_. Some ''T''" and body = "''T''" and nonce = sample_nonce])
      (simp_all add: login_env_def sample_nonce_def NonceSize_def Key_seal_def sample_ticket_cookie_def)
  then show ?thesis
    by (simp add: OpenTicket_accepts login_req_def sample_ticket_def login_env_def sample_senv_def unix_def second_def)
qed

lemma login_creds: "credentials_of (login_env now) login_req login_fields =
    \<lparr>cr_Login = ''alice'', cr_Password = ''pw'', cr_Code = [], cr_ClientIP = ''192.0.2.1''\<rparr>"
  by (simp add: credentials_of_def login_fields_def visible_alice clientIP_def forwardedAddr_def login_req_def
      SplitHostPort_def)

lemma login_scopes: "lockScopes (login_env now) login_source sample_creds = [''main/ip:192.0.2.1'', ''main/user:alice'']"
  by (simp add: lockScopes_def sample_creds_def login_env_def sample_senv_def Subnet_def visible_alice
      ascii_tables_def ascii_lower_char_def login_source_def sample_source_def)

lemma login_run: "Provider_Run (provider_env_of (login_env now) login_tools) (li_ldap login_tools) (LocalP sample_users) sample_creds None () =
    (Some (Inr \<lparr>id_Subject = ''alice'', id_Display = ''Alice'', id_Groups = [''ops''], id_AMR = [''pwd''],
       id_Cred = Credential id ''pw''\<rparr>), ())"
  by (simp add: Provider_Run_def checked_def Local_Verify_def provider_env_of_def login_env_def sample_senv_def login_tools_def
      sample_users_def sample_creds_def sample_user_key sample_user_def User_Active_def identity_or_new_def zero_identity_def
      id_with_def)

lemma login_lockout: "src_Lockout login_source = \<lparr>lk_Attempts = 3, lk_Window = 60 * second, lk_Lock = 300 * second\<rparr>"
  by (simp add: login_source_def sample_source_def)

lemma login_creds_sample: "credentials_of (login_env now) login_req login_fields = sample_creds"
  by (simp add: login_creds sample_creds_def)

lemma login_unlocked: "lockedFor memory_ops t scopes NewMemory = (0, NewMemory)"
proof -
  have "lockedFor_loop memory_ops t scopes 0 NewMemory = (0, NewMemory)"
    by (induction scopes) (simp_all add: memory_ops_def Memory_LockedFor_def NewMemory_def)
  then show ?thesis by (simp add: lockedFor_def)
qed

lemma login_issues:
  "\<exists>w'. issue (login_env now) login_source s w = (True, w')"
  by (simp add: issue_def login_env_def sample_senv_def SealSession_def Key_seal_def sample_marshal_def identify_def Let_def)

lemma submit_accepts:
  assumes "rq_Form rq = Some f"
    and "OpenTicket (sv_Key env) (sv_ticket_json env) (rq_cookie rq (tc_Cookie (src_Ticket src))) (sv_Now env) = (Some t, None)"
    and "tk_Scope t = src_Name src" "tk_Nonce t = f ''csrf''"
    and "lockedFor ops (sv_Now env) (lockScopes env src (credentials_of env rq f)) r = (left, r0)" "left \<le> 0"
    and "ro_Burn ops (sv_Now env) ''nonce'' (tk_Nonce t) (tc_TTL (src_Ticket src)) r0 = (Some True, r1)"
    and "li_verify li = None" "Provider_Build src = Inr prov" "priorIdentity env rq src = Some prior"
    and "reserve ops (sv_Now env) src (lockScopes env src (credentials_of env rq f)) r1 = (counts, False, r2)"
    and "Provider_Run (provider_env_of env li) (li_ldap li) prov (credentials_of env rq f) prior d = (Some (Inr i), d')"
    and "burnCode ops (sv_Now env) src i (credentials_of env rq f) r2 = (None, r3)"
    and "issue env src (new_session env rq src i) w = (True, w')"
  shows "submit env li ops rq src r d w =
    (clear_scopes ops (sv_Now env) (lockScopes env src (credentials_of env rq f)) r3, d',
     Some (redirectTo (if tk_Return t = [] then backTo rq else tk_Return t) w'))"
proof -
  let ?c = "credentials_of env rq f"
  have "attempt env li ops rq src t ?c r1 d w =
      (clear_scopes ops (sv_Now env) (lockScopes env src ?c) r3, d',
       Some (redirectTo (if tk_Return t = [] then backTo rq else tk_Return t) w'))"
    using assms(8-14) by (simp add: attempt_def verified_def accepted_def Let_def)
  then show ?thesis using assms(1-7) by (simp add: submit_def Let_def)
qed

lemma sample_sign_in: "\<exists>r' w. submit (login_env (2500 * second)) login_tools memory_ops login_req login_source NewMemory () new_writer =
    (r', (), Some w) \<and> wr_Location w = ''/app''"
proof -
  let ?env = "login_env (2500 * second)"
  have form: "rq_Form login_req = Some login_fields" by (simp add: login_req_def)
  have t: "tk_Scope sample_ticket = src_Name login_source" "tk_Nonce sample_ticket = login_fields ''csrf''" "tk_Return sample_ticket = ''/app''"
    by (simp_all add: sample_ticket_def login_source_def sample_source_def login_fields_def)
  obtain r1 where burn: "ro_Burn memory_ops (sv_Now ?env) ''nonce'' (tk_Nonce sample_ticket) (tc_TTL (src_Ticket login_source)) NewMemory = (Some True, r1)"
    and r1: "mm_fails r1 = Map.empty" "mm_locks r1 = Map.empty"
    by (simp add: memory_ops_def Memory_Burn_def NewMemory_def)
  have slot: "li_verify login_tools = None" by (simp add: login_tools_def)
  have prov: "Provider_Build login_source = Inr (LocalP sample_users)"
    by (simp add: Provider_Build_def login_source_def sample_source_def)
  have prior: "priorIdentity ?env login_req login_source = Some None"
    by (simp add: priorIdentity_def login_source_def sample_source_def)
  obtain counts r2 where res: "reserve memory_ops (sv_Now ?env) login_source (lockScopes ?env login_source sample_creds) r1 = (counts, False, r2)"
    by (simp add: login_scopes login_lockout reserve_def reserve_scope_def memory_ops_def Memory_Fail_def
        Memory_LockedFor_def r1)
  obtain i where run: "Provider_Run (provider_env_of ?env login_tools) (li_ldap login_tools) (LocalP sample_users) sample_creds None () = (Some (Inr i), ())"
    using login_run by blast
  have code: "burnCode memory_ops (sv_Now ?env) login_source i sample_creds r2 = (None, r2)"
    by (simp add: burnCode_def login_source_def sample_source_def)
  obtain w' where w': "issue ?env login_source (new_session ?env login_req login_source i) new_writer = (True, w')"
    using login_issues by blast
  show ?thesis
    using submit_accepts [OF form sample_ticket_opens t(1,2) login_unlocked order_refl burn slot prov prior
        res [folded login_creds_sample [of "2500 * second"]] run [folded login_creds_sample [of "2500 * second"]] code [folded login_creds_sample [of "2500 * second"]] w']
    by (simp add: redirectTo_def t(3))
qed

theorem sign_in_checks_witness:
  "\<exists>i. Provider_Run (provider_env_of (login_env (2500 * second)) login_tools) (li_ldap login_tools) (LocalP sample_users)
     (credentials_of (login_env (2500 * second)) login_req login_fields) None () = (Some (Inr i), ())"
proof -
  obtain r' w where sub: "submit (login_env (2500 * second)) login_tools memory_ops login_req login_source NewMemory () new_writer = (r', (), Some w)"
    and loc: "wr_Location w = ''/app''" using sample_sign_in by blast
  have "wr_Location w \<noteq> []" using loc by simp
  from sign_in_checks [OF sub this] show ?thesis
    by (auto simp: login_req_def Provider_Build_def priorIdentity_def login_source_def sample_source_def)
qed

theorem ticket_single_use_witness:
  "map_option wr_Location (snd (snd (submit (login_env (2500 * second)) login_tools memory_ops login_req login_source
     (snd (Memory_Burn (2500 * second) ''nonce'' ''n1'' (300 * second) NewMemory)) () new_writer))) \<in> {None, Some []}"
proof -
  let ?r1 = "snd (Memory_Burn (2500 * second) ''nonce'' ''n1'' (300 * second) NewMemory)"
  have ttl: "tc_TTL (src_Ticket login_source) = 300 * second" and now: "sv_Now (login_env (2500 * second)) = 2500 * second"
    by (simp_all add: login_source_def sample_source_def login_env_def sample_senv_def)
  have burn: "Memory_Burn (2500 * second) ''nonce'' (tk_Nonce sample_ticket) (tc_TTL (src_Ticket login_source)) NewMemory = (Some True, ?r1)"
    by (simp add: Memory_Burn_def NewMemory_def ttl sample_ticket_def)
  have exp: "tk_Expiry sample_ticket \<le> unix (2500 * second + tc_TTL (src_Ticket login_source))"
    by (simp add: ttl sample_ticket_def unix_def second_def)
  have steps: "roster_steps memory_ops (2500 * second) ?r1 (sv_Now (login_env (2500 * second))) ?r1"
    unfolding now by (rule roster_steps.start)
  obtain r' d' w' where sub: "submit (login_env (2500 * second)) login_tools memory_ops login_req login_source ?r1 () new_writer = (r', d', w')"
    by (metis prod_cases3)
  have "wr_Location w = []" if "w' = Some w" for w
    using ticket_single_use [OF burn exp steps _ sub [unfolded that]] sample_ticket_opens by simp
  then show ?thesis by (cases w') (simp_all add: sub)
qed

definition sample_code_source :: source where
  "sample_code_source = sample_source\<lparr>src_Provider := ProviderCode,
     src_Providers := (src_Providers sample_source)\<lparr>pr_Code := Some sample_code_cfg\<rparr>\<rparr>"

definition sample_code_creds :: credentials where
  "sample_code_creds = sample_creds\<lparr>cr_Code := ''843009''\<rparr>"

lemma sample_code_source: "pr_Code (src_Providers sample_code_source) = Some sample_code_cfg" "src_Provider sample_code_source = ProviderCode"
    "cp_Kind sample_code_cfg = CodeTOTP" "cp_Period sample_code_cfg = 30 * second" "cp_Skew sample_code_cfg = 1"
    "cr_Code sample_code_creds = ''843009''"
  by (simp_all add: sample_code_source_def sample_code_cfg_def sample_code_creds_def)

lemma sample_code_burns: "burnCode memory_ops b sample_code_source i sample_code_creds NewMemory =
    (None, snd (burnCode memory_ops b sample_code_source i sample_code_creds NewMemory))"
  by (simp add: burnCode_def sample_code_source memory_ops_def Memory_Burn_def NewMemory_def)

text \<open>A second gate that asks for a code, two of its tickets, and a client that the first gate knows.\<close>

definition second_source :: source where
  "second_source = sample_source\<lparr>src_Name := ''second'', src_IdentityFrom := ''main'', src_Provider := ProviderCode,
     src_Providers := (src_Providers sample_source)\<lparr>pr_Code := Some sample_code_cfg\<rparr>, src_Users := sample_users\<rparr>"

definition second_ticket :: "string \<Rightarrow> ticket" where
  "second_ticket nonce = sample_ticket\<lparr>tk_Nonce := nonce, tk_Scope := ''second''\<rparr>"

definition second_env :: "string \<Rightarrow> time \<Rightarrow> server_env" where
  "second_env nonce now = (login_env now)\<lparr>sv_ticket_json := (\<lambda>b. if b = ''T'' then Some (second_ticket nonce) else None)\<rparr>"

definition second_tools :: "(unit, unit, nat) login_env" where
  "second_tools = login_tools\<lparr>li_hmac_sha1 := pe_hmac_sha1 sample_penv\<rparr>"

definition second_fields :: "string \<Rightarrow> string \<Rightarrow> string" where
  "second_fields nonce name = (if name = ''csrf'' then nonce else if name = ''code'' then ''843009'' else [])"

definition second_req :: "string \<Rightarrow> http_req" where
  "second_req nonce = login_req\<lparr>rq_Form := Some (second_fields nonce),
     rq_cookie := (\<lambda>n. if n = ''waftick'' then sample_ticket_cookie else sample_cookie)\<rparr>"

lemma second_source_simps: "pr_Code (src_Providers second_source) = Some sample_code_cfg" "src_Provider second_source = ProviderCode"
    "cp_Kind sample_code_cfg = CodeTOTP" "second \<le> cp_Period sample_code_cfg" "src_Name second_source = ''second''"
    "src_Ticket second_source = \<lparr>tc_Cookie = ''waftick'', tc_TTL = 300 * second\<rparr>"
  by (simp_all add: second_source_def sample_code_cfg_def second_def sample_source_def)

lemma second_env_simps: "sv_Key (second_env nonce now) = sample_aead" "sv_Now (second_env nonce now) = now"
    "rq_Form (second_req nonce) = Some (second_fields nonce)" "sv_ct (second_env nonce now) = ascii_tables"
  by (simp_all add: second_env_def login_env_def sample_senv_def second_req_def)

lemma second_opens: "OpenTicket (sv_Key (second_env ''n1'' (2500 * second))) (sv_ticket_json (second_env ''n1'' (2500 * second)))
    (rq_cookie (second_req ''n1'') (tc_Cookie (src_Ticket second_source))) (sv_Now (second_env ''n1'' (2500 * second))) =
    (Some (second_ticket ''n1''), None)"
proof -
  have "Key_open sample_aead (sv_ticket_json (second_env ''n1'' (2500 * second))) ticketPrefix sample_ticket_cookie = Inr (second_ticket ''n1'')"
    by (rule Key_open_seal [OF sample_aead_ok, where marshal = "\<lambda>_. Some ''T''" and body = "''T''" and nonce = sample_nonce])
      (simp_all add: second_env_def sample_nonce_def NonceSize_def Key_seal_def sample_ticket_cookie_def)
  then show ?thesis
    by (simp add: OpenTicket_accepts second_env_simps second_source_simps)
      (simp add: second_req_def second_ticket_def sample_ticket_def unix_def second_def)
qed

definition second_prior :: identity where
  "second_prior = \<lparr>id_Subject = ''alice'', id_Display = [], id_Groups = [''ops''], id_AMR = [''pwd'', ''otp''], id_Cred = []\<rparr>"

lemma second_prior:
  assumes "now = 2500 * second \<or> now = 2515 * second"
  shows "priorIdentity (second_env nonce now) (second_req nonce') second_source = Some (Some second_prior)"
proof -
  have src: "Snapshot_Source (sv_snapshot (second_env nonce now)) ''main'' = Some sample_source"
    by (simp add: second_env_def login_env_def sample_senv_def Snapshot_Source_def sample_snapshot_def)
  have "OpenSession sample_aead sample_unmarshal sample_cookie now \<lparr>bd_Net = [], bd_UA = []\<rparr> = (Some sample_session, None)"
    unfolding OpenSession_accepts using sample_cookie_opens assms
    by (auto simp: sample_session_def unix_def second_def)
  moreover have "bindOf (second_env nonce now) (second_req nonce') sample_source = \<lparr>bd_Net = [], bd_UA = []\<rparr>"
    by (simp add: bindOf_def BindsNet_def BindsUA_def hasBind_def sample_source_def)
  moreover have "rq_cookie (second_req nonce') ''wafsess'' = sample_cookie" "sc_Cookie (src_Session sample_source) = ''wafsess''"
      "src_IdentityFrom second_source = ''main''" "src_Name sample_source = ''main''" "\<not> List_Enabled (src_List sample_source)"
      "sv_session_json (second_env nonce now) = sample_unmarshal"
    by (simp_all add: second_req_def second_source_def sample_source_def List_Enabled_def second_env_def login_env_def sample_senv_def)
  ultimately show ?thesis
    by (simp add: priorIdentity_def src second_env_simps alive_def)
      (simp add: sample_session_def second_prior_def)
qed

lemma second_creds: "credentials_of (second_env nonce now) (second_req nonce') (second_fields nonce') =
    \<lparr>cr_Login = [], cr_Password = [], cr_Code = ''843009'', cr_ClientIP = ''192.0.2.1''\<rparr>"
  by (simp add: credentials_of_def second_fields_def tidy_visible visible_def clientIP_def forwardedAddr_def second_req_def login_req_def
      SplitHostPort_def)

lemma second_scopes: "lockScopes (second_env nonce now) second_source
    \<lparr>cr_Login = [], cr_Password = [], cr_Code = ''843009'', cr_ClientIP = ''192.0.2.1''\<rparr> = [''second/ip:192.0.2.1'']"
  by (simp add: lockScopes_def second_env_def login_env_def sample_senv_def Subnet_def second_source_simps ascii_tables_def)

lemma second_run:
  assumes "now = 2500 * second"
  shows "Provider_Run (provider_env_of (second_env nonce now) second_tools) (li_ldap second_tools) (CodeP (Some sample_code_cfg) sample_users)
    \<lparr>cr_Login = [], cr_Password = [], cr_Code = ''843009'', cr_ClientIP = ''192.0.2.1''\<rparr> (Some second_prior) () =
    (Some (Inr (id_with ''totp'' second_prior)), ())"
proof -
  let ?p = "provider_env_of (second_env nonce now) second_tools"
  have p: "pe_ct ?p = ascii_tables" "pe_hmac_sha1 ?p = pe_hmac_sha1 sample_penv" "pe_Now ?p = 2500 * second"
    by (simp_all add: provider_env_of_def second_env_simps second_tools_def assms)
  have "secretOf ?p sample_users (id_Subject second_prior) = Inr ''MFRGG''"
    by (simp add: secretOf_def second_prior_def p sample_user_key sample_users_def sample_user_def User_Active_def)
  then have "Code_totp ?p sample_code_cfg sample_users ''843009'' (Some second_prior) = Some (Inr (id_with ''totp'' second_prior))"
    using sample_secret sample_code [of "''abc''" "unix (pe_Now ?p) div 30 + 0"]
    by (subst Code_totp_accepts [of _ 30])
      (auto simp: sample_code_cfg_def p second_def second_prior_def intro!: exI [of _ 0])
  moreover have "TrimSpace ''843009'' = ''843009''" by (simp add: tidy_visible visible_def)
  ultimately show ?thesis
    by (simp add: Provider_Run_def checked_def Code_Verify_def second_source_simps Let_def)
      (simp add: second_prior_def)
qed

lemma second_sign_in: "\<exists>r' w. submit (second_env ''n1'' (2500 * second)) second_tools memory_ops (second_req ''n1'') second_source
    NewMemory () new_writer = (r', (), Some w) \<and> wr_Location w = ''/app''"
proof -
  let ?env = "second_env ''n1'' (2500 * second)"
  let ?c = "credentials_of ?env (second_req ''n1'') (second_fields ''n1'')"
  have t: "tk_Scope (second_ticket ''n1'') = src_Name second_source" "tk_Nonce (second_ticket ''n1'') = second_fields ''n1'' ''csrf''"
      "tk_Return (second_ticket ''n1'') = ''/app''"
    by (simp_all add: second_ticket_def second_source_simps second_fields_def sample_ticket_def)
  define r1 where "r1 = NewMemory\<lparr>mm_burned := [burn_key ''nonce'' ''n1'' \<mapsto> 2800 * second]\<rparr>"
  have burn: "ro_Burn memory_ops (sv_Now ?env) ''nonce'' (tk_Nonce (second_ticket ''n1'')) (tc_TTL (src_Ticket second_source)) NewMemory = (Some True, r1)"
    and r1: "mm_fails r1 = Map.empty" "mm_locks r1 = Map.empty" "mm_burned r1 = [burn_key ''nonce'' ''n1'' \<mapsto> 2800 * second]"
    by (simp_all add: memory_ops_def Memory_Burn_def NewMemory_def second_ticket_def second_env_simps second_source_simps r1_def second_def)
  have slot: "li_verify second_tools = None" by (simp add: second_tools_def login_tools_def)
  have prov: "Provider_Build second_source = Inr (CodeP (Some sample_code_cfg) sample_users)"
    by (simp add: Provider_Build_def second_source_def)
  obtain counts r2 where res: "reserve memory_ops (sv_Now ?env) second_source (lockScopes ?env second_source ?c) r1 = (counts, False, r2)"
    and r2: "mm_burned r2 = mm_burned r1"
    unfolding second_creds second_scopes
    by (simp add: second_source_def sample_source_def reserve_def reserve_scope_def memory_ops_def Memory_Fail_def
        Memory_LockedFor_def r1)
  have other: "burn_key ''totp'' (''alice'' @ '':'' @ ''843009'') \<noteq> burn_key ''nonce'' ''n1''"
    by (simp add: burn_key_def)
  obtain r3 where code: "burnCode memory_ops (sv_Now ?env) second_source (id_with ''totp'' second_prior) ?c r2 = (None, r3)"
    unfolding second_creds using other
    by (simp add: burnCode_def second_source_simps memory_ops_def Memory_Burn_def r2 r1 second_prior_def)
  obtain w' where w': "issue ?env second_source (new_session ?env (second_req ''n1'') second_source (id_with ''totp'' second_prior)) new_writer = (True, w')"
    by (simp add: issue_def second_env_def login_env_def sample_senv_def SealSession_def Key_seal_def sample_marshal_def identify_def Let_def)
  show ?thesis
    using submit_accepts [OF second_env_simps(3) second_opens t(1,2) login_unlocked order_refl burn slot prov second_prior
        res second_run [OF refl, folded second_creds [of "''n1''" "2500 * second" "''n1''"]] code w']
    by (simp add: redirectTo_def t(3))
qed

theorem code_single_use_witness:
  "\<exists>r'. \<forall>w. snd (snd (submit (second_env ''n2'' (2515 * second)) second_tools memory_ops (second_req ''n2'') second_source r' () new_writer)) = Some w
     \<longrightarrow> wr_Location w = []"
proof -
  obtain r' w where sub: "submit (second_env ''n1'' (2500 * second)) second_tools memory_ops (second_req ''n1'') second_source
      NewMemory () new_writer = (r', (), Some w)" and loc: "wr_Location w \<noteq> []"
    using second_sign_in by force
  have steps: "roster_steps memory_ops (sv_Now (second_env ''n1'' (2500 * second))) r' (sv_Now (second_env ''n2'' (2515 * second))) r'"
    by (rule roster_steps.waits [OF roster_steps.start]) (simp add: second_def second_env_simps)
  have "wr_Location w' = []"
    if "submit (second_env ''n2'' (2515 * second)) second_tools memory_ops (second_req ''n2'') second_source r' () new_writer = (r2, d2, Some w')"
    for r2 d2 w'
    by (rule code_single_use [OF second_source_simps(1-4) sub loc second_env_simps(3) second_prior steps _ _ second_env_simps(3) second_prior
        refl _ that, where step = 83])
      (simp_all add: second_env_simps second_fields_def sample_code_cfg_def unix_def second_def)
  then show ?thesis by (metis prod.collapse)
qed

theorem code_replay_by_case_witness:
  "fst (burnCode memory_ops (1015 * second) sample_code_source (sample_prior\<lparr>id_Subject := ''Alice''\<rparr>) sample_code_creds
     (snd (burnCode memory_ops (1000 * second) sample_code_source sample_prior sample_code_creds NewMemory))) = None \<and>
   secretOf sample_penv sample_users ''Alice'' = secretOf sample_penv sample_users ''alice''"
proof -
  have "user_key (pe_ct sample_penv) ''Alice'' = user_key (pe_ct sample_penv) ''alice''"
    by (simp add: user_key_def sample_penv_def tidy_visible visible_def ascii_tables_def ascii_lower_char_def char_of_def bit_Suc_0_iff)
  then show ?thesis
    using code_replay_by_case [OF sample_code_burns, of "sample_prior\<lparr>id_Subject := ''Alice''\<rparr>" sample_prior sample_penv "1015 * second"
        "1000 * second" sample_users]
    by (simp add: sample_prior_def mm_spent_def NewMemory_def)
qed

theorem guess_bound_witness: "int 1 \<le> lk_Attempts (src_Lockout login_source)"
proof -
  let ?r = "snd (snd (reserve_scope memory_ops 10 login_source ''main/user:alice'' NewMemory))"
  have res: "reserve_scope memory_ops 10 login_source ''main/user:alice'' NewMemory = (1, False, ?r)"
    by (simp add: reserve_scope_def memory_ops_def Memory_Fail_def Memory_LockedFor_def NewMemory_def login_lockout)
  have "guessing memory_ops login_source ''main/user:alice'' 10 NewMemory 10 ?r 0 1"
    using reserve_scope_guessing [OF guessing.start res] by simp
  from guess_bound [OF roster_steps.start this] show ?thesis
    by (simp add: login_lockout second_def)
qed

theorem locked_scope_waits_witness:
  "map_option wr_Location (snd (snd (submit (login_env (2500 * second)) login_tools memory_ops login_req login_source
     (snd (Memory_Lock (2500 * second) ''main/user:alice'' second NewMemory)) () new_writer))) \<in> {None, Some []}"
proof -
  let ?r = "snd (Memory_Lock (2500 * second) ''main/user:alice'' second NewMemory)"
  have form: "rq_Form login_req = Some login_fields" by (simp add: login_req_def)
  have scope: "''main/user:alice'' \<in> set (lockScopes (login_env (2500 * second)) login_source
      (credentials_of (login_env (2500 * second)) login_req login_fields))"
    by (simp add: login_creds_sample login_scopes)
  have locked: "mm_locked ?r (sv_Now (login_env (2500 * second))) ''main/user:alice''"
    by (simp add: mm_locked_def Memory_Lock_def login_env_def sample_senv_def second_def)
  obtain r' d' w' where sub: "submit (login_env (2500 * second)) login_tools memory_ops login_req login_source ?r () new_writer = (r', d', w')"
    by (metis prod_cases3)
  have "wr_Location w = []" if "w' = Some w" for w
    using locked_scope_waits [OF form scope locked sub [unfolded that]] by simp
  then show ?thesis by (cases w') (simp_all add: sub)
qed

end
