(* ===== verification/Store.thy ===== *)
theory Store
  imports Config
begin

text \<open>
  Reading the module's store (\<open>internal/store/store.go\<close>): the request's headers, arguments
  and body by locator, with the reason when they are not there, and the header and cookie
  readings. The Redis client is the record \<open>redis\<close>: one \<open>GET\<close> gives a value, a miss or an
  error, one \<open>MGET\<close> the values or an error. The context's timeout is part of the error.
\<close>

datatype get_result = Got bytes | GotNil | GotErr

record redis =
  rd_Get :: "string \<Rightarrow> get_result"
  rd_MGet :: "string list \<Rightarrow> bytes option list option"

datatype store_error = StoreNil | StoreUnknownDriver | StoreFailed

abbreviation "UnavailableNoStore \<equiv> ''store_unconfigured''"
abbreviation "UnavailableError \<equiv> ''store_error''"
abbreviation "UnavailableDriver \<equiv> ''unknown_driver''"
abbreviation "UnavailableNotFound \<equiv> ''store_miss''"
abbreviation "UnavailableEncrypted \<equiv> ''store_encrypted''"


section \<open>Objects by locator\<close>

definition Redis_Get :: "redis \<Rightarrow> string \<Rightarrow> string \<Rightarrow> store_error + bytes" where
  "Redis_Get s driver key =
     (if driver \<noteq> ''redis'' then Inl StoreUnknownDriver
      else (case rd_Get s key of
              Got v \<Rightarrow> Inr v | GotNil \<Rightarrow> Inl StoreNil | GotErr \<Rightarrow> Inl StoreFailed))"

definition Store_Headers :: "(bytes \<Rightarrow> header list option) \<Rightarrow> redis option \<Rightarrow> locator option
    \<Rightarrow> header list \<times> string \<times> bool" where
  "Store_Headers unmarshal s loc =
     (case loc of
        None \<Rightarrow> ([], [], False)
      | Some l \<Rightarrow>
          (if loc_Unavailable l \<noteq> [] then ([], loc_Unavailable l, False)
           else if loc_Driver l = [] then ([], [], False)
           else (case s of
                   None \<Rightarrow> ([], UnavailableNoStore, True)
                 | Some r \<Rightarrow>
                     (case Redis_Get r (loc_Driver l) (loc_Key l) of
                        Inl StoreNil \<Rightarrow> ([], UnavailableNotFound, True)
                      | Inl StoreUnknownDriver \<Rightarrow> ([], UnavailableDriver, True)
                      | Inl StoreFailed \<Rightarrow> ([], UnavailableError, True)
                      | Inr raw \<Rightarrow>
                          (case unmarshal raw of
                             None \<Rightarrow> ([], UnavailableError, True)
                           | Some pairs \<Rightarrow> (pairs, [], False))))))"

definition argsOf :: "redis option \<Rightarrow> locator option \<Rightarrow> string" where
  "argsOf s loc =
     (case (s, loc) of
        (Some r, Some l) \<Rightarrow>
          (if loc_Driver l = [] \<or> loc_Unavailable l \<noteq> [] then []
           else (case Redis_Get r (loc_Driver l) (loc_Key l) of Inl _ \<Rightarrow> [] | Inr raw \<Rightarrow> raw))
      | _ \<Rightarrow> [])"

definition str_of :: "bytes option \<Rightarrow> string" where
  "str_of v = (case v of None \<Rightarrow> [] | Some s \<Rightarrow> s)"

definition in_redis :: "locator \<Rightarrow> bool" where
  "in_redis l \<longleftrightarrow> loc_Driver l = ''redis'' \<and> loc_Unavailable l = []"

text \<open>\<open>Pair\<close> reads both objects in one round trip when both are in Redis.\<close>

definition Store_Pair :: "(bytes \<Rightarrow> header list option) \<Rightarrow> redis option \<Rightarrow> locator option \<Rightarrow> locator option
    \<Rightarrow> header list \<times> string \<times> string \<times> bool" where
  "Store_Pair unmarshal s hdr args =
     (case (s, hdr, args) of
        (Some r, Some h, Some a) \<Rightarrow>
          (if \<not> in_redis h \<or> \<not> in_redis a then
             (let (pairs, why, fault) = Store_Headers unmarshal s hdr
              in (pairs, argsOf s args, why, fault))
           else (case rd_MGet r [loc_Key h, loc_Key a] of
                   Some [v0, v1] \<Rightarrow>
                     (case v0 of
                        None \<Rightarrow> ([], str_of v1, UnavailableNotFound, True)
                      | Some raw \<Rightarrow>
                          (case unmarshal raw of
                             None \<Rightarrow> ([], str_of v1, UnavailableError, True)
                           | Some pairs \<Rightarrow> (pairs, str_of v1, [], False)))
                 | _ \<Rightarrow> ([], [], UnavailableError, True)))
      | _ \<Rightarrow> (let (pairs, why, fault) = Store_Headers unmarshal s hdr
              in (pairs, argsOf s args, why, fault)))"

definition Store_Args :: "redis option \<Rightarrow> locator option \<Rightarrow> string" where
  "Store_Args s loc = argsOf s loc"

text \<open>A body of \<open>None\<close> is Go's \<open>nil\<close>.\<close>

definition Store_Body :: "redis option \<Rightarrow> locator option \<Rightarrow> bytes option \<times> string" where
  "Store_Body s loc =
     (case loc of
        None \<Rightarrow> (None, [])
      | Some l \<Rightarrow>
          (if loc_Unavailable l \<noteq> [] then (None, loc_Unavailable l)
           else if loc_Driver l = [] then (None, [])
           else if loc_Encrypted l then (None, UnavailableEncrypted)
           else (case s of
                   None \<Rightarrow> (None, UnavailableNoStore)
                 | Some r \<Rightarrow>
                     (case Redis_Get r (loc_Driver l) (loc_Key l) of
                        Inl StoreNil \<Rightarrow> (None, UnavailableNotFound)
                      | Inl StoreUnknownDriver \<Rightarrow> (None, UnavailableDriver)
                      | Inl StoreFailed \<Rightarrow> (None, UnavailableError)
                      | Inr raw \<Rightarrow> (Some raw, [])))))"


section \<open>Headers and cookies\<close>

fun Store_Value :: "case_tables \<Rightarrow> header list \<Rightarrow> string \<Rightarrow> string" where
  "Store_Value ct [] name = []"
| "Store_Value ct ((n, v) # pairs) name =
     (if EqualFold ct n name then v else Store_Value ct pairs name)"

function cookieFrom :: "string \<Rightarrow> string \<Rightarrow> string" where
  "cookieFrom line name =
     (if line = [] then []
      else (let (part, rest) = (case Cut (CHR '';'') line of Some pr \<Rightarrow> pr | None \<Rightarrow> (line, []))
            in case Cut (CHR ''='') (TrimSpace part) of
                 None \<Rightarrow> cookieFrom rest name
               | Some (key, value) \<Rightarrow>
                   (if TrimSpace key \<noteq> name then cookieFrom rest name
                    else TrimBytes [CHR 0x22] (TrimSpace value))))"
  by pat_completeness auto
termination
  by (relation "measure (\<lambda>(line, name). length line)") (auto simp: Cut_Some split: option.splits)

declare cookieFrom.simps [simp del]

fun Store_Cookie :: "case_tables \<Rightarrow> header list \<Rightarrow> string \<Rightarrow> string" where
  "Store_Cookie ct [] name = []"
| "Store_Cookie ct ((n, v) # pairs) name =
     (if \<not> EqualFold ct n ''cookie'' then Store_Cookie ct pairs name
      else (let c = cookieFrom v name in if c \<noteq> [] then c else Store_Cookie ct pairs name))"


section \<open>Facts\<close>

text \<open>A store that answers: no error, and \<open>MGET\<close> says what the two \<open>GET\<close>s say.\<close>

definition answers :: "redis \<Rightarrow> string \<Rightarrow> string \<Rightarrow> bool" where
  "answers r k1 k2 \<longleftrightarrow>
     rd_Get r k1 \<noteq> GotErr \<and> rd_Get r k2 \<noteq> GotErr \<and>
     rd_MGet r [k1, k2] =
       Some (map (\<lambda>k. case rd_Get r k of Got v \<Rightarrow> Some v | _ \<Rightarrow> None) [k1, k2])"

lemma Store_Pair_batched:
  assumes "in_redis h" "in_redis a" "answers r (loc_Key h) (loc_Key a)"
  shows "Store_Pair unmarshal (Some r) (Some h) (Some a) =
    (let (pairs, why, fault) = Store_Headers unmarshal (Some r) (Some h)
     in (pairs, argsOf (Some r) (Some a), why, fault))"
  using assms
  by (cases "rd_Get r (loc_Key h)"; cases "rd_Get r (loc_Key a)")
    (auto simp: Store_Pair_def Store_Headers_def argsOf_def Redis_Get_def answers_def in_redis_def
       str_of_def split: option.splits)

lemma Store_Headers_fault: "Store_Headers u s loc = (pairs, why, fault) \<Longrightarrow> why \<noteq> [] \<Longrightarrow> pairs = []"
  by (auto simp: Store_Headers_def split: option.splits if_splits sum.splits store_error.splits)

lemma cookieFrom_Nil [simp]: "cookieFrom [] name = []"
  by (simp add: cookieFrom.simps)

text \<open>A cookie pair as browsers send it.\<close>

definition cookie_name :: "string \<Rightarrow> bool" where
  "cookie_name k \<longleftrightarrow> k \<noteq> [] \<and> list_all visible k \<and> CHR '';'' \<notin> set k \<and> CHR ''='' \<notin> set k"

definition cookie_value :: "string \<Rightarrow> bool" where
  "cookie_value v \<longleftrightarrow> list_all visible v \<and> CHR '';'' \<notin> set v \<and> CHR 0x22 \<notin> set v"

definition cookie_line :: "(string \<times> string) list \<Rightarrow> string" where
  "cookie_line kvs = Join ''; '' (map (\<lambda>(k, v). k @ ''='' @ v) kvs)"

lemma TrimBytes_id: "set cs \<inter> set s = {} \<Longrightarrow> TrimBytes cs s = s"
proof -
  assume no: "set cs \<inter> set s = {}"
  have "dropWhile (\<lambda>c. c \<in> set cs) t = t" if "set t \<subseteq> set s" for t
    using no that by (cases t) auto
  from this [of s] this [of "rev s"] show ?thesis
    by (simp add: TrimBytes_def TrimRightBytes_def)
qed

lemma cookie_pair_tidy: "cookie_name k \<Longrightarrow> cookie_value v \<Longrightarrow> tidy (k @ CHR ''='' # v)"
  by (intro tidy_visible) (auto simp: cookie_name_def cookie_value_def list_all_iff visible_def)

lemma cookieFrom_pair:
  assumes "cookie_name k" "cookie_value v"
  shows "cookieFrom (k @ CHR ''='' # v) name = (if k = name then v else [])"
    and "cookieFrom (k @ CHR ''='' # v @ CHR '';'' # line) name =
      (if k = name then v else cookieFrom line name)"
    and "cookieFrom (CHR '' '' # k @ CHR ''='' # v) name = (if k = name then v else [])"
    and "cookieFrom (CHR '' '' # k @ CHR ''='' # v @ CHR '';'' # line) name =
      (if k = name then v else cookieFrom line name)"
proof -
  have no: "CHR '';'' \<notin> set (k @ CHR ''='' # v)" "CHR '';'' \<notin> set (CHR '' '' # k @ CHR ''='' # v)"
    using assms by (auto simp: cookie_name_def cookie_value_def)
  have cut: "Cut (CHR ''='') (k @ CHR ''='' # v) = Some (k, v)"
    using assms(1) by (intro Cut_append) (simp add: cookie_name_def)
  have trim: "TrimSpace (k @ CHR ''='' # v) = k @ CHR ''='' # v" "TrimSpace k = k" "TrimSpace v = v"
    "TrimBytes [CHR 0x22] v = v"
    using assms cookie_pair_tidy by (auto simp: cookie_name_def cookie_value_def tidy_visible TrimBytes_id)
  note none = no [unfolded Cut_None [symmetric]]
  show "cookieFrom (k @ CHR ''='' # v) name = (if k = name then v else [])"
    by (subst cookieFrom.simps) (simp add: none cut trim)
  show "cookieFrom (CHR '' '' # k @ CHR ''='' # v) name = (if k = name then v else [])"
    using none(2) by (subst cookieFrom.simps) (simp add: cut trim)
  have "Cut (CHR '';'') ((k @ CHR ''='' # v) @ CHR '';'' # line) = Some (k @ CHR ''='' # v, line)"
    and "Cut (CHR '';'') ((CHR '' '' # k @ CHR ''='' # v) @ CHR '';'' # line) =
      Some (CHR '' '' # k @ CHR ''='' # v, line)"
    by (rule Cut_append, rule no)+
  then show "cookieFrom (k @ CHR ''='' # v @ CHR '';'' # line) name =
      (if k = name then v else cookieFrom line name)"
    and "cookieFrom (CHR '' '' # k @ CHR ''='' # v @ CHR '';'' # line) name =
      (if k = name then v else cookieFrom line name)"
    by (subst cookieFrom.simps, simp add: cut trim)+
qed

definition first_value :: "(string \<times> string) list \<Rightarrow> string \<Rightarrow> string" where
  "first_value kvs name = (case map_of kvs name of Some v \<Rightarrow> v | None \<Rightarrow> [])"

lemma cookieFrom_line_aux:
  assumes "list_all (\<lambda>(k, v). cookie_name k \<and> cookie_value v) kvs"
  shows "cookieFrom (cookie_line kvs) name = first_value kvs name \<and>
    (kvs \<noteq> [] \<longrightarrow> cookieFrom (CHR '' '' # cookie_line kvs) name = first_value kvs name)"
  using assms
proof (induction kvs)
  case Nil
  then show ?case by (simp add: cookie_line_def first_value_def)
next
  case (Cons kv kvs)
  obtain k v where kv: "kv = (k, v)" by force
  with Cons.prems have ok: "cookie_name k" "cookie_value v" by auto
  show ?case
  proof (cases kvs)
    case Nil
    then show ?thesis
      using cookieFrom_pair(1,3) [OF ok] by (auto simp: cookie_line_def first_value_def kv)
  next
    case (Cons kv' kvs')
    then have line: "cookie_line (kv # kvs) = k @ CHR ''='' # v @ CHR '';'' # CHR '' '' # cookie_line kvs"
      by (simp add: cookie_line_def kv)
    have "cookieFrom (CHR '' '' # cookie_line kvs) name = first_value kvs name"
      using Cons.IH Cons.prems Cons by auto
    then show ?thesis
      unfolding line using cookieFrom_pair(2,4) [OF ok] by (auto simp: first_value_def kv)
  qed
qed

end
