(* ===== verification/Inspector.thy ===== *)
theory Inspector
  imports Decide Store Profiles Queue
begin

text \<open>
  The inspector's handler (\<open>cmd/inspector/handler.go\<close>, \<open>learn.go\<close>, \<open>lists.go\<close>, \<open>form.go\<close>): a message is
  parsed and queued or answered, a queued request is decided and answered, and the rules of the
  profile add asks to the answer and addresses to lists.

  What a handler does to the outside is collected in the record \<open>outside\<close>. The bus, the store,
  the publisher of lists, the geo coder, the form's HTTP client and the JSON forms come in as
  the record \<open>inspector_env\<close>; one handler reads the clock once. A result of \<open>None\<close> is a panic, which
  \<open>evaluate\<close> recovers from.
\<close>

section \<open>The process and what it acts on\<close>

datatype list_write =
    AddMany string "string list" duration string
  | AddSession string string duration string
  | RemoveSession string string string

record outside =
  ou_submitted :: "(request \<times> string) list"
  ou_published :: "(string \<times> bytes) list"
  ou_writes :: "list_write list"
  ou_puts :: "(string \<times> bytes) list"
  ou_audit :: sink

text \<open>
  \<open>ie_lists\<close>: what the publisher answers, \<open>None\<close> for success; without one the rules skip their
  lists, while \<open>observe\<close> would call a nil pointer (\<open>main\<close> always makes one). \<open>ie_Do\<close> gets the URL and
  the headers of the request for the form and gives an error's text, or status, body and content
  type. The elapsed time is in microseconds, like the budget in the engine's map.
\<close>

record inspector_env =
  ie_decide :: decide_env
  ie_Name :: string
  ie_Versions :: "int list"
  ie_snapshot :: "snapshot option"
  ie_store :: "redis option"
  ie_Put :: "string \<Rightarrow> bytes \<Rightarrow> duration \<Rightarrow> string option"
  ie_header_json :: "bytes \<Rightarrow> header list option"
  ie_json :: "bytes \<Rightarrow> json option"
  ie_request_json :: "bytes \<Rightarrow> request option"
  ie_reply_json :: "reply \<Rightarrow> bytes"
  ie_event_json :: "engine_value event \<Rightarrow> bytes option"
  ie_sessions :: "session_api option"
  ie_lists :: "(list_write \<Rightarrow> string option) option"
  ie_Networked :: "string \<Rightarrow> bool"
  ie_geo :: "string \<Rightarrow> string \<Rightarrow> string + string list"
  ie_forms :: "string option"
  ie_Do :: "string \<Rightarrow> header list \<Rightarrow> string + int \<times> bytes \<times> string"
  ie_Now :: time
  ie_TS :: string
  ie_elapsed :: int

abbreviation "codeUnsupportedVersion \<equiv> ''AUTH_UNSUPPORTED_VERSION''"
abbreviation "codeMalformed \<equiv> ''AUTH_MALFORMED_REQUEST''"
abbreviation "codeInternalError \<equiv> ''AUTH_INTERNAL_ERROR''"

abbreviation no_details :: "engine_value details" where
  "no_details \<equiv> \<lparr>det_EngineMS = 0, det_Findings = [], det_Engine = Map.empty\<rparr>"

definition with_engine :: "(string \<times> engine_value) list \<Rightarrow> engine_value details" where
  "with_engine kvs = \<lparr>det_EngineMS = 0, det_Findings = [], det_Engine = map_of kvs\<rparr>"


section \<open>Sending\<close>

text \<open>A reply that does not marshal is replaced by an error; its own marshalling cannot fail.\<close>

definition send :: "inspector_env \<Rightarrow> string \<Rightarrow> reply \<Rightarrow> request option \<Rightarrow> engine_value details \<Rightarrow> outside \<Rightarrow> outside" where
  "send env subject r req det u =
     (if subject = [] then u
      else (let payload = (case Reply_Marshal (ie_reply_json env) r of
                  Inr b \<Rightarrow> Inr b
                | Inl _ \<Rightarrow> Reply_Marshal (ie_reply_json env)
                    (FallbackReply (rp_RID r) (rp_Inspector r) codeInternalError))
            in case payload of
                 Inl _ \<Rightarrow> u
               | Inr b \<Rightarrow> u\<lparr>ou_published := ou_published u @ [(subject, b)],
                   ou_audit := (case Sink_Add (ie_event_json env) (ie_TS env) req (Some r) det (ou_audit u) of
                                  None \<Rightarrow> ou_audit u | Some s \<Rightarrow> s)\<rparr>))"

definition recoverInto :: "inspector_env \<Rightarrow> string \<Rightarrow> string \<Rightarrow> outside \<Rightarrow> outside" where
  "recoverInto env subject rid u = send env subject (FallbackReply rid (ie_Name env) codeInternalError) None no_details u"


section \<open>Receiving\<close>

definition Supports :: "inspector_env \<Rightarrow> int \<Rightarrow> bool" where
  "Supports env v = member_loop (ie_Versions env) v"

definition receive :: "inspector_env \<Rightarrow> string \<Rightarrow> bytes \<Rightarrow> outside \<Rightarrow> outside" where
  "receive env subject data u =
     (case Parse (ie_request_json env) data of
        Inl pe \<Rightarrow> send env subject (FallbackReply (pe_RID pe) (ie_Name env) codeMalformed) None no_details u
      | Inr req \<Rightarrow>
          (if \<not> Supports env (req_V req) then
             send env subject ((ErrorReply req codeUnsupportedVersion)\<lparr>rp_V := ProtocolVersion\<rparr>) (Some req) no_details u
           else if req_Phase req \<noteq> PhaseRequest \<and> req_Phase req \<noteq> PhaseResponse then
             send env subject (ErrorReply req CodeWrongPhase) (Some req) no_details u
           else u\<lparr>ou_submitted := ou_submitted u @ [(req, subject)]\<rparr>))"


section \<open>Rules\<close>

text \<open>\<open>writeRule\<close>: the address or its networks, to the list; the error is the coder's.\<close>

definition writeRule :: "inspector_env \<Rightarrow> event_rule \<Rightarrow> string \<Rightarrow> string \<Rightarrow> outside \<Rightarrow> string option \<times> outside" where
  "writeRule env r addr why u =
     (let add = (\<lambda>vs. (None, u\<lparr>ou_writes := ou_writes u @ [AddMany (er_List r) vs (er_TTL r) why]\<rparr>))
      in if ie_Networked env (er_Write r) then
           (case ie_geo env (er_Write r) addr of
              Inl e \<Rightarrow> (Some e, u)
            | Inr got \<Rightarrow> (if got = [] then (None, u) else add got))
         else add [addr])"

text \<open>\<open>Seconds\<close> is taken as a whole number; the source goes through a \<open>float64\<close>.\<close>

definition askOf :: "case_tables \<Rightarrow> event_rule \<Rightarrow> action" where
  "askOf ct r =
     (let archive = (er_Do r = DoArchive \<and> er_Set r = ''on'')
      in \<lparr>act_To = er_To r, act_Do = er_Do r, act_Apply = EventRule_Axis r, act_Phase = er_Phase r, act_Code = er_Code r,
          act_Delta = (case er_Delta r of None \<Rightarrow> 0 | Some d \<Rightarrow> d), act_Value = (case er_Value r of None \<Rightarrow> 0 | Some v \<Rightarrow> v),
          act_Counter = er_Counter r, act_Marker = er_Marker r, act_Group = er_Group r, act_Set = er_Set r,
          act_TTL = (if archive \<and> whole_seconds (er_TTL r) > 0 then Some (whole_seconds (er_TTL r)) else None),
          act_When = (if archive \<and> er_When r \<noteq> [] then
                        (case CheckArchiveWhen ct (er_When r) of Inl _ \<Rightarrow> [] | Inr ws \<Rightarrow> ws) else []),
          act_Headers = er_Headers r, act_Args = er_Args r, act_Body = er_Body r\<rparr>)"

text \<open>The loop over the rules: the asks, the first error; a failed rule does not stop the others.\<close>

fun fire_rules :: "inspector_env \<Rightarrow> string \<Rightarrow> string \<Rightarrow> event_rule list \<Rightarrow> outside \<Rightarrow> action list \<times> string option \<times> outside" where
  "fire_rules env why addr [] u = ([], None, u)"
| "fire_rules env why addr (r # rs) u =
     (if er_Do r \<noteq> [] then
        (case fire_rules env why addr rs u of
           (acts, failed, u) \<Rightarrow> (askOf (de_ct (ie_decide env)) r # acts, failed, u))
      else if addr = [] \<or> ie_lists env = None then fire_rules env why addr rs u
      else (case writeRule env r addr (if er_Code r = [] then why else er_Code r) u of
              (err, u) \<Rightarrow>
                (case fire_rules env why addr rs u of
                   (acts, failed, u) \<Rightarrow> (acts, (case err of Some e \<Rightarrow> Some e | None \<Rightarrow> failed), u))))"

definition fireEvent :: "inspector_env \<Rightarrow> profile \<Rightarrow> result \<Rightarrow> string \<Rightarrow> outside \<Rightarrow> action list \<times> string option \<times> outside" where
  "fireEvent env p res addr u =
     (if rs_Event res = [] then ([], None, u)
      else fire_rules env (''AUTH_'' @ ct_upper (de_ct (ie_decide env)) (rs_Event res)) addr (RulesFor p (rs_Event res)) u)"

definition fireOverload :: "inspector_env \<Rightarrow> profile \<Rightarrow> nat \<Rightarrow> bool \<Rightarrow> string \<Rightarrow> outside \<Rightarrow> action list \<times> string option \<times> outside" where
  "fireOverload env p fill shed addr u =
     fire_rules env ReasonQueueLimit addr
       (filter (\<lambda>r. overload_Fires (overload_At (er_At r)) (int fill) shed) (RulesFor p OnOverload)) u"


section \<open>The inline form\<close>

definition formMax :: nat where "formMax = 1048576"
definition formTTL :: duration where "formTTL = 15 * second"

fun cookieOf :: "cookie list \<Rightarrow> string \<Rightarrow> string" where
  "cookieOf [] name = []"
| "cookieOf (c # cs) name = (if ck_Name c = name then ck_Value c else cookieOf cs name)"

text \<open>The form of the login site, asked for with the ticket as the client's cookie.\<close>

definition form_page :: "inspector_env \<Rightarrow> string \<Rightarrow> string \<Rightarrow> string \<Rightarrow> string \<Rightarrow> string \<Rightarrow> string + bytes \<times> string" where
  "form_page env base path c addr agent =
     (case ie_Do env (base @ path)
             ([(''Cookie'', c), (''X-Forwarded-For'', addr), (''Accept'', ''text/html'')] @
              (if agent \<noteq> [] then [(''User-Agent'', agent)] else [])) of
        Inl e \<Rightarrow> Inl e
      | Inr (status, whole, ctype) \<Rightarrow>
          (let body = take (formMax + 1) whole
           in if status \<noteq> 200 then Inl (''auth-http answered '' @ FormatInt status)
              else if length body > formMax then Inl (''form exceeds '' @ FormatInt (int formMax) @ '' bytes'')
              else Inr (body, if ctype = [] \<or> CHR 0x0D \<in> set ctype \<or> CHR 0x0A \<in> set ctype
                              then ''text/html; charset=utf-8'' else ctype)))"

definition inlineForm :: "inspector_env \<Rightarrow> request \<Rightarrow> profile \<Rightarrow> result \<Rightarrow> string \<Rightarrow> outside \<Rightarrow> (string + rewrite) \<times> outside" where
  "inlineForm env req p res agent u =
     (case ie_forms env of
        None \<Rightarrow> (Inl ''WAF_AUTH_HTTP_URL is empty'', u)
      | Some base \<Rightarrow>
          (case pf_Src p of
             None \<Rightarrow> (Inl ''profile without a source'', u)
           | Some src \<Rightarrow>
               (let t = cookieOf (rs_Cookies res) (tc_Cookie (src_Ticket src))
                in if t = [] then (Inl ''no ticket in the result'', u)
                   else (case form_page env base (lg_URI (src_Login src)) (tc_Cookie (src_Ticket src) @ ''='' @ t)
                                (conn_ClientIP (req_Conn req)) agent of
                           Inl e \<Rightarrow> (Inl e, u)
                         | Inr (body, ctype) \<Rightarrow>
                             (let key = req_Node req @ '':'' @ req_RID req @ '':req:form''
                              in case ie_Put env key body formTTL of
                                   Some e \<Rightarrow> (Inl (''store put: '' @ e), u)
                                 | None \<Rightarrow> (Inr \<lparr>rw_Key = key, rw_Size = int (length body),
                                     rw_SHA256 = HexString (de_sha256 (ie_decide env) body), rw_ContentType = ctype\<rparr>,
                                     u\<lparr>ou_puts := ou_puts u @ [(key, body)]\<rparr>))))))"


section \<open>Deciding a request\<close>

text \<open>\<open>SetHeader\<close> drops an empty name; a reply without headers has no map.\<close>

definition set_headers :: "(string \<rightharpoonup> string) \<Rightarrow> reply \<Rightarrow> reply" where
  "set_headers hs r =
     (let hs = hs([] := None) in if hs = Map.empty then r else r\<lparr>rp_HeaderSet := Some hs\<rparr>)"

definition toReply :: "request \<Rightarrow> result \<Rightarrow> reply" where
  "toReply req res =
     (let r = NewReply req (rs_Verdict res);
          r = (if rs_Code res \<noteq> [] then r\<lparr>rp_Reason := Some \<lparr>rsn_Code = rs_Code res, rsn_Class = []\<rparr>\<rparr> else r);
          r = (if rs_Verdict res = VerdictAllow then set_headers (rs_Headers res) r
               else if rs_Verdict res = VerdictRedirect then
                 r\<lparr>rp_Redirect := Some \<lparr>rd_URL = rs_RedirectURL res, rd_Status = rs_RedirectStatus res\<rparr>,
                   rp_Cookies := rs_Cookies res\<rparr>
               else if rs_Verdict res = VerdictDeny then
                 (if rs_Response res \<noteq> [] then r\<lparr>rp_Response := Some (rs_Response res)\<rparr> else r)\<lparr>rp_Cookies := rs_Cookies res\<rparr>
               else r)
      in r\<lparr>rp_Sessions := rs_Sessions res\<rparr>)"

definition base_input :: "inspector_env \<Rightarrow> request \<Rightarrow> profile option \<Rightarrow> decide_input" where
  "base_input env req profile =
     \<lparr>in_Profile = profile, in_Ask = req_Profile req, in_Method = http_Method (req_HTTP req),
      in_URI = http_URI (req_HTTP req), in_Args = [], in_ClientIP = conn_ClientIP (req_Conn req), in_Headers = [],
      in_Cookie = [], in_UserAgent = [], in_Accept = [], in_SecFetchDest = [], in_UpgradeInsecure = False,
      in_Prior = req_Prior req, in_StoreUnavailable = [], in_Now = ie_Now env\<rparr>"

text \<open>What the store adds to the input; \<open>Inl\<close> is a fault with its reason. The outer \<open>None\<close> is the
  panic of a profile in force without its source.\<close>

definition store_input :: "inspector_env \<Rightarrow> request \<Rightarrow> profile \<Rightarrow> (string + decide_input) option" where
  "store_input env req p =
     (case Store_Pair (ie_header_json env) (ie_store env) (st_Headers (req_Store req)) (st_Args (req_Store req)) of
        (pairs, args, why, fault) \<Rightarrow>
          (if fault then Some (Inl why)
           else (case pf_Src p of
                   None \<Rightarrow> None
                 | Some src \<Rightarrow>
                     (let ct = de_ct (ie_decide env)
                      in Some (Inr ((base_input env req (Some p))\<lparr>in_Headers := pairs, in_Args := args,
                           in_StoreUnavailable := why, in_Cookie := Store_Cookie ct pairs (SessionCookie src),
                           in_UserAgent := Store_Value ct pairs ''user-agent'', in_Accept := Store_Value ct pairs ''accept'',
                           in_SecFetchDest := Store_Value ct pairs ''sec-fetch-dest'',
                           in_UpgradeInsecure := (Store_Value ct pairs ''upgrade-insecure-requests'' = ''1'')\<rparr>))))))"

definition in_force :: "profile option \<Rightarrow> bool" where
  "in_force p = (case p of None \<Rightarrow> False | Some p \<Rightarrow> pf_Mode p \<noteq> ModeOff)"

text \<open>The inline form in place of the redirect, or the redirect after all.\<close>

definition place_form :: "inspector_env \<Rightarrow> request \<Rightarrow> profile option \<Rightarrow> result \<Rightarrow> string \<Rightarrow> outside
    \<Rightarrow> result \<times> rewrite option \<times> outside" where
  "place_form env req profile res agent u =
     (if \<not> rs_Inline res then (res, None, u)
      else (case profile of
              None \<Rightarrow> (res, None, u)
            | Some p \<Rightarrow>
                (case inlineForm env req p res agent u of
                   (Inl e, u) \<Rightarrow> (res\<lparr>rs_Verdict := VerdictRedirect, rs_Response := [], rs_Inline := False,
                     rs_Engine := (rs_Engine res)(''inline_fallback'' \<mapsto> EStr e)\<rparr>, None, u)
                 | (Inr rw, u) \<Rightarrow> (res, Some rw, u))))"

text \<open>The asks of the rules: of the event, then of the queue's fill; the first error.\<close>

definition fire_all :: "inspector_env \<Rightarrow> profile option \<Rightarrow> result \<Rightarrow> nat \<Rightarrow> string \<Rightarrow> outside
    \<Rightarrow> (string + action list) \<times> outside" where
  "fire_all env profile res fill addr u =
     (case profile of
        None \<Rightarrow> (Inr [], u)
      | Some p \<Rightarrow>
          (if pf_Mode p = ModeOff then (Inr [], u)
           else (case fireEvent env p res addr u of
                   (fired, Some e, u) \<Rightarrow> (Inl e, u)
                 | (fired, None, u) \<Rightarrow>
                     (case fireOverload env p fill False addr u of
                        (others, Some e, u) \<Rightarrow> (Inl e, u)
                      | (others, None, u) \<Rightarrow> (Inr (fired @ others), u)))))"

text \<open>From the decision on.\<close>

definition answer :: "inspector_env \<Rightarrow> request \<Rightarrow> profile option \<Rightarrow> result \<Rightarrow> string \<Rightarrow> nat \<Rightarrow> outside
    \<Rightarrow> (reply \<times> engine_value details) \<times> outside" where
  "answer env req profile res agent fill u =
     (case place_form env req profile res agent u of
        (res, rw, u) \<Rightarrow>
          (case fire_all env profile res fill (conn_ClientIP (req_Conn req)) u of
             (Inl e, u) \<Rightarrow> ((ErrorReply req CodeGeoUnavailable,
                with_engine [(''profile'', EStr (case profile of Some p \<Rightarrow> pf_Name p | None \<Rightarrow> [])),
                  (''event'', EStr (rs_Event res)), (''geo'', EStr e)]), u)
           | (Inr fired, u) \<Rightarrow>
               (let r = toReply req res
                in ((r\<lparr>rp_Rewrite := rw, rp_Actions := rp_Actions r @ fired\<rparr>,
                     \<lparr>det_EngineMS = ie_elapsed env, det_Findings = rs_Findings res, det_Engine = rs_Engine res\<rparr>), u))))"

definition inspect_request :: "inspector_env \<Rightarrow> request \<Rightarrow> nat \<Rightarrow> outside \<Rightarrow> (reply \<times> engine_value details) option \<times> outside" where
  "inspect_request env req fill u =
     (let profile = Snapshot_Profile (ie_snapshot env) (req_Profile req)
      in case (if in_force profile then store_input env req (the profile) else Some (Inr (base_input env req profile))) of
           None \<Rightarrow> (None, u)
         | Some (Inl why) \<Rightarrow> (Some (ErrorReply req CodeStoreUnavailable,
             with_engine [(''profile'', EStr (pf_Name (the profile))), (''store'', EStr why)]), u)
         | Some (Inr inp) \<Rightarrow>
             (case Check (ie_decide env) inp (ie_sessions env) of
                None \<Rightarrow> (None, u)
              | Some res \<Rightarrow> (case answer env req profile res (in_UserAgent inp) fill u of (r, u) \<Rightarrow> (Some r, u))))"


section \<open>Learning from a response\<close>

definition requestHeaders :: "inspector_env \<Rightarrow> request \<Rightarrow> header list \<times> string" where
  "requestHeaders env req =
     (case req_RequestStore req of
        None \<Rightarrow> ([], [])
      | Some s \<Rightarrow> (case Store_Headers (ie_header_json env) (ie_store env) (st_Headers s) of (pairs, why, _) \<Rightarrow> (pairs, why)))"

definition responseHeaders :: "inspector_env \<Rightarrow> request \<Rightarrow> header list" where
  "responseHeaders env req =
     (if Locator_Placed (st_Headers (req_Store req))
      then fst (Store_Headers (ie_header_json env) (ie_store env) (st_Headers (req_Store req)))
      else (case req_Response req of Some rsp \<Rightarrow> rsp_Headers rsp | None \<Rightarrow> []))"

definition requestBody :: "inspector_env \<Rightarrow> request \<Rightarrow> bytes option \<times> string" where
  "requestBody env req =
     (case req_RequestStore req of
        None \<Rightarrow> (None, UnavailableNotFound)
      | Some s \<Rightarrow> (case Store_Body (ie_store env) (st_Body s) of
                     (None, why) \<Rightarrow> (None, if why = [] then UnavailableNotFound else why)
                   | r \<Rightarrow> r))"

definition learned :: "inspector_env \<Rightarrow> request \<Rightarrow> profile \<Rightarrow> reply \<Rightarrow> (string \<times> engine_value) list \<Rightarrow> string
    \<Rightarrow> reply \<times> engine_value details" where
  "learned env req p r extra step =
     (r, \<lparr>det_EngineMS = ie_elapsed env, det_Findings = [],
          det_Engine = map_of ([(''profile'', EStr (pf_Name p)), (''phase'', EStr (req_Phase req))] @ extra @ [(''learn'', EStr step)])\<rparr>)"

text \<open>A call of the publisher; the outer \<open>None\<close> is the panic without one.\<close>

definition on_list :: "inspector_env \<Rightarrow> list_write \<Rightarrow> outside \<Rightarrow> string option option \<times> outside" where
  "on_list env op u =
     (case ie_lists env of None \<Rightarrow> (None, u) | Some f \<Rightarrow> (Some (f op), u\<lparr>ou_writes := ou_writes u @ [op]\<rparr>))"

definition observed_status :: "request \<Rightarrow> int" where
  "observed_status req = (case req_Response req of None \<Rightarrow> 0 | Some rsp \<Rightarrow> rsp_Status rsp)"

definition observe_logout :: "inspector_env \<Rightarrow> request \<Rightarrow> profile \<Rightarrow> source \<Rightarrow> app_provider \<Rightarrow> reply \<Rightarrow> outside
    \<Rightarrow> (reply \<times> engine_value details) option \<times> outside" where
  "observe_logout env req p src a r u =
     (let c = Store_Cookie (de_ct (ie_decide env)) (fst (requestHeaders env req)) (ap_Cookie a)
      in if c = [] \<or> observed_status req < 200 \<or> observed_status req \<ge> 400
         then (Some (learned env req p r [] ''logout_skipped''), u)
         else (case on_list env (RemoveSession (lc_Sessions (src_List src)) (Learn_Hash (de_sha256 (ie_decide env)) c) ''AUTH_LOGOUT'') u of
                 (None, u) \<Rightarrow> (None, u)
               | (Some (Some e), u) \<Rightarrow> (Some (learned env req p r [(''error'', EStr e)] ''logout_list_error''), u)
               | (Some None, u) \<Rightarrow> (Some (learned env req p r [] ''logout''), u)))"

text \<open>Who signed in: the body (with the reason when it is missing) or the arguments the field needs.\<close>

definition learn_content :: "inspector_env \<Rightarrow> request \<Rightarrow> app_provider \<Rightarrow> string + bytes option \<times> string" where
  "learn_content env req a =
     (let place = af_From (al_User (ap_Learn a))
      in if place = FieldBodyForm \<or> place = FieldBodyJSON then
           (case requestBody env req of (body, why) \<Rightarrow> if why \<noteq> [] then Inl why else Inr (body, []))
         else if place = FieldArgs then
           Inr (None, case req_RequestStore req of None \<Rightarrow> [] | Some s \<Rightarrow> Store_Args (ie_store env) (st_Args s))
         else Inr (None, []))"

definition error_text :: "learn_error \<Rightarrow> string" where
  "error_text e =
     (case e of
        ErrNoField \<Rightarrow> ''learn: login field is absent'' | ErrBadBody \<Rightarrow> ''learn: body does not parse'' | ErrNoContent \<Rightarrow> ''learn: request body is not available''
      | ErrUnknownSource from \<Rightarrow> ''learn: unknown source '' @ [CHR 0x22] @ from @ [CHR 0x22])"

definition app_session :: "inspector_env \<Rightarrow> source \<Rightarrow> string \<Rightarrow> string \<Rightarrow> psession" where
  "app_session env src user i =
     \<lparr>ps_Source = src_Name src, ps_Kind = SessionApp, ps_User = user, ps_ID = i, ps_Verified = True,
      ps_Issued = unix (ie_Now env), ps_Expires = unix (ie_Now env + lc_TTL (src_List src)), ps_Groups = []\<rparr>"

text \<open>
  What a response teaches: the user and the cookie's value, with what is told in the engine's map
  so far, or the step that ends it.
\<close>

definition learn_login :: "inspector_env \<Rightarrow> request \<Rightarrow> app_provider
    \<Rightarrow> ((string \<times> engine_value) list \<times> string) + (string \<times> string \<times> (string \<times> engine_value) list)" where
  "learn_login env req a =
     (let ct = de_ct (ie_decide env)
      in case Learn_Issued ct (responseHeaders env req) (ap_Cookie a) of
           (issued, False) \<Rightarrow> Inl ([], ''no_cookie'')
         | (issued, True) \<Rightarrow>
             (case requestHeaders env req of (pairs, why) \<Rightarrow>
               let stored = (if why \<noteq> [] then [(''store'', EStr why)] else []);
                   requested = Store_Cookie ct pairs (ap_Cookie a) in
               case learn_content env req a of
                 Inl bwhy \<Rightarrow> Inl (stored @ [(''body'', EStr bwhy)], ''no_body'')
               | Inr (body, args) \<Rightarrow>
                   (case Learn_Extract ct (ie_json env) (al_User (ap_Learn a)) body args pairs of
                      Inl e \<Rightarrow> Inl (stored @ [(''error'', EStr (error_text e))], ''no_user'')
                    | Inr user \<Rightarrow>
                        let named = stored @ [(''sub'', EStr user)];
                            respBody = (if as_JSON (al_Success (ap_Learn a)) \<noteq> None
                                        then fst (Store_Body (ie_store env) (st_Body (req_Store req))) else None) in
                        if \<not> Learn_Succeeded (ie_json env) (al_Success (ap_Learn a)) (observed_status req) respBody (issued \<noteq> requested)
                        then Inl (named @ [(''status'', EInt (observed_status req))], ''rejected'')
                        else Inr (user, issued, named))))"

definition observe_login :: "inspector_env \<Rightarrow> request \<Rightarrow> profile \<Rightarrow> source \<Rightarrow> app_provider \<Rightarrow> reply \<Rightarrow> outside
    \<Rightarrow> (reply \<times> engine_value details) option \<times> outside" where
  "observe_login env req p src a r u =
     (case learn_login env req a of
        Inl (extra, step) \<Rightarrow> (Some (learned env req p r extra step), u)
      | Inr (user, issued, extra) \<Rightarrow>
          (let sid = Learn_Hash (de_sha256 (ie_decide env)) issued
           in case on_list env (AddSession (lc_Sessions (src_List src)) sid (lc_TTL (src_List src)) (Learn_Reason user)) u of
                (None, u) \<Rightarrow> (None, u)
              | (Some (Some e), u) \<Rightarrow> (Some (learned env req p r (extra @ [(''error'', EStr e)]) ''list_error''), u)
              | (Some None, u) \<Rightarrow>
                  (Some (learned env req p (r\<lparr>rp_Sessions := [app_session env src user sid]\<rparr>)
                     (extra @ [(''sid'', EStr sid)]) ''ok''), u)))"

definition observe :: "inspector_env \<Rightarrow> request \<Rightarrow> outside \<Rightarrow> (reply \<times> engine_value details) option \<times> outside" where
  "observe env req u =
     (let refused = (Some ((NewReply req VerdictDeny)\<lparr>rp_Reason := Some \<lparr>rsn_Code = CodeWrongPhase, rsn_Class = []\<rparr>\<rparr>, no_details), u);
          r = (NewReply req VerdictAllow)\<lparr>rp_Reason := Some \<lparr>rsn_Code = CodeOK, rsn_Class = []\<rparr>\<rparr>
      in case Snapshot_Profile (ie_snapshot env) (req_Profile req) of
           None \<Rightarrow> refused
         | Some p \<Rightarrow>
             (case pf_Src p of
                None \<Rightarrow> refused
              | Some src \<Rightarrow>
                  (if \<not> Learns src then refused
                   else (case pr_App (src_Providers src) of
                           None \<Rightarrow> refused
                         | Some a \<Rightarrow>
                             (let m = http_Method (req_HTTP req); i = http_URI (req_HTTP req); ct = de_ct (ie_decide env)
                              in if Learn_Matches ct (al_Logout (ap_Learn a)) m i then observe_logout env req p src a r u
                                 else if \<not> Learn_Matches ct (al_Login (ap_Learn a)) m i
                                   then (Some (learned env req p r [] ''skip''), u)
                                 else observe_login env req p src a r u)))))"


section \<open>Evaluating a queued request\<close>

definition inspect :: "inspector_env \<Rightarrow> request \<Rightarrow> nat \<Rightarrow> outside \<Rightarrow> (reply \<times> engine_value details) option \<times> outside" where
  "inspect env req fill u = (if req_Phase req = PhaseResponse then observe env req u else inspect_request env req fill u)"

definition overloadOnShed :: "inspector_env \<Rightarrow> task \<Rightarrow> string \<Rightarrow> reply \<Rightarrow> engine_value details \<Rightarrow> outside
    \<Rightarrow> reply \<times> engine_value details \<times> outside" where
  "overloadOnShed env t shed r det u =
     (if shed \<noteq> ReasonQueueLimit \<or> req_Phase (qt_Req t) \<noteq> PhaseRequest then (r, det, u)
      else (case Snapshot_Profile (ie_snapshot env) (req_Profile (qt_Req t)) of
              None \<Rightarrow> (r, det, u)
            | Some p \<Rightarrow>
                (if pf_Mode p = ModeOff then (r, det, u)
                 else (case fireOverload env p (qt_Fill t) True (conn_ClientIP (req_Conn (qt_Req t))) u of
                         (acts, err, u) \<Rightarrow>
                           (if acts \<noteq> [] then r\<lparr>rp_Actions := acts\<rparr> else r,
                            (case err of None \<Rightarrow> det | Some e \<Rightarrow> det\<lparr>det_Engine := (det_Engine det)(''geo'' \<mapsto> EStr e)\<rparr>), u)))))"

definition evaluate :: "inspector_env \<Rightarrow> task \<Rightarrow> duration \<Rightarrow> string \<Rightarrow> outside \<Rightarrow> outside" where
  "evaluate env t budget shed u =
     (if shed \<noteq> [] then
        (case overloadOnShed env t shed (ShedReply (qt_Req t) shed)
                (with_engine [(''shed'', EStr shed), (''budget_ms'', EInt (sgn budget * (\<bar>budget\<bar> div 1000)))]) u of
           (r, det, u) \<Rightarrow> send env (qt_Reply t) r (Some (qt_Req t)) det u)
      else (case inspect env (qt_Req t) (qt_Fill t) u of
              (None, u) \<Rightarrow> recoverInto env (qt_Reply t) (req_RID (qt_Req t)) u
            | (Some (r, det), u) \<Rightarrow> send env (qt_Reply t) r (Some (qt_Req t)) det u))"

end
