(* ===== verification/Decide_Props.thy ===== *)
theory Decide_Props
  imports Decide
begin

text \<open>
  What the decision promises: who passes an enforcing gate, what observing never does, when a
  client is sent to the form, what the application is told, which event is reported, and how a
  bearer token is accepted.
\<close>

section \<open>Who passes\<close>

lemma allowed_by:
  assumes "in_Profile inp = Some p" "pf_Mode p = ModeEnforce" "pf_Src p = Some src"
    and "\<not> OwnPath p (in_URI inp)"
    and "Check env inp ses = Some r" "rs_Verdict r = VerdictAllow"
  shows "(\<exists>s. rs_Session r = Some s \<and> credential_valid env inp src ses s \<and>
            GroupsAllow (de_ct env) (ts_Groups s) (gt_Groups (pf_Gate p))) \<or>
         (asks_for p (in_Prior inp) DoSkip \<and> rs_Session r = None \<and> rs_Code r = CodeSkipped)"
  using assms(1,5)
proof (cases rule: Check_cases)
  case (forbidden src' s)
  then show ?thesis using assms(2,6) by (simp add: not_allowed_verdict)
next
  case (signed_in src' s)
  then show ?thesis
    using assms(3,6) with_session_verdict(2) [where eng = "check_engine inp p" and fs = "[]"]
    by (auto simp: Profile_Allows_def)
next
  case (anonymous src' code fs)
  let ?res = "without_session env inp p src' (priorAsk (in_Prior inp) p) (check_engine inp p) code fs"
  have "rs_Verdict ?res = VerdictAllow" using anonymous assms(6) by simp
  from without_session_verdict(2) [OF this] assms(2)
  have skip: "ask_skip (priorAsk (in_Prior inp) p)" "rs_Code ?res = CodeSkipped" by auto
  then have "rs_Session ?res = None" by (simp add: without_session_def)
  with skip anonymous show ?thesis
    by (simp add: priorAsk_skip)
qed (use assms in simp_all)

text \<open>C1: behind an enforcing profile no request for a protected path is allowed without a
credential that is valid for the profile's source and whose groups the gate accepts, unless an
earlier inspector that the profile trusts asked to skip the check.\<close>

theorem allow_needs_credential:
  assumes "in_Profile inp = Some p" "pf_Mode p = ModeEnforce" "pf_Src p = Some src"
    and "\<not> OwnPath p (in_URI inp)"
    and "Check env inp ses = Some r" "rs_Verdict r = VerdictAllow"
  shows "(\<exists>s. rs_Session r = Some s \<and> credential_valid env inp src ses s \<and>
            GroupsAllow (de_ct env) (ts_Groups s) (gt_Groups (pf_Gate p))) \<or>
         (asks_for p (in_Prior inp) DoSkip \<and> rs_Session r = None \<and> rs_Code r = CodeSkipped)"
  using assms by (rule allowed_by)

theorem allow_needs_credential_witness:
  "(\<exists>s. rs_Session (allow (sample_profile ModeEnforce) (Some sample_session) CodeOK
          (check_engine (sample_input ModeEnforce sample_cookie (1000 * second)) (sample_profile ModeEnforce))) = Some s \<and>
      credential_valid sample_env (sample_input ModeEnforce sample_cookie (1000 * second)) sample_source None s)"
  using allow_needs_credential [OF _ _ _ _ sample_checks, of "sample_profile ModeEnforce" sample_source]
    sample_not_own_path [of ModeEnforce]
  by (simp add: sample_input_def sample_profile_def)

lemma own_valid_allows:
  assumes "in_Profile inp = Some p" "pf_Mode p \<noteq> ModeOff" "pf_Src p = Some src"
    and "\<not> OwnPath p (in_URI inp)"
    and "src_Provider src \<noteq> ProviderJWT" "src_Provider src \<noteq> ProviderApp"
    and "in_Cookie inp \<noteq> []" "own_valid env inp src ses s"
    and "GroupsAllow (de_ct env) (ts_Groups s) (gt_Groups (pf_Gate p))"
    and "\<not> asks_for p (in_Prior inp) DoReauth" "\<not> NeedsRenew s (in_Now inp)"
  shows "Check env inp ses = Some ((allow p (Some s) CodeOK (check_engine inp p))\<lparr>rs_Event := OnAuthenticated\<rparr>)"
proof -
  have "openOwn env inp src ses = (Some s, CodeOK, [])"
    using assms(7,8) openOwn_Some by blast
  then have o: "open_cred env inp p ses = Some (Some s, CodeOK, [])"
    using assms(3,5,6) by (simp add: open_cred_def)
  have "\<not> ask_reauth (priorAsk (in_Prior inp) p)"
    using assms(10) by (simp add: priorAsk_reauth)
  then show ?thesis
    using assms o by (simp add: Check_def Let_def with_session_def Profile_Allows_def eventOf_def)
qed

text \<open>a valid session is let through: with the groups accepted, no re-authentication asked for
and no renewal due, the request is allowed with the session's user, groups and methods set as
headers for the application.\<close>

theorem valid_session_passes:
  assumes "in_Profile inp = Some p" "pf_Mode p \<noteq> ModeOff" "pf_Src p = Some src"
    and "\<not> OwnPath p (in_URI inp)"
    and "src_Provider src \<noteq> ProviderJWT" "src_Provider src \<noteq> ProviderApp"
    and "in_Cookie inp \<noteq> []" "own_valid env inp src ses s"
    and "GroupsAllow (de_ct env) (ts_Groups s) (gt_Groups (pf_Gate p))"
    and "\<not> asks_for p (in_Prior inp) DoReauth" "\<not> NeedsRenew s (in_Now inp)"
  shows "\<exists>r. Check env inp ses = Some r \<and> rs_Verdict r = VerdictAllow \<and> rs_Code r = CodeOK \<and>
    rs_Session r = Some s \<and> rs_Event r = OnAuthenticated \<and>
    rs_Headers r = setHeader (up_Method (src_Upstream src)) (Join ''+'' (ts_AMR s))
      (setHeader (up_Groups (src_Upstream src)) (Join '','' (ts_Groups s))
        (setHeader (up_User (src_Upstream src)) (ts_Sub s) Map.empty))"
  using own_valid_allows [OF assms] assms(3) by (simp add: allow_def Let_def)

theorem valid_session_passes_witness:
  "\<exists>r. Check sample_env (sample_input ModeEnforce sample_cookie (1000 * second)) None = Some r \<and>
     rs_Verdict r = VerdictAllow \<and> rs_Headers r ''X-User'' = Some ''alice''"
proof -
  have "\<exists>r. Check sample_env (sample_input ModeEnforce sample_cookie (1000 * second)) None = Some r \<and>
      rs_Verdict r = VerdictAllow \<and> rs_Code r = CodeOK \<and> rs_Session r = Some sample_session \<and>
      rs_Event r = OnAuthenticated \<and>
      rs_Headers r = setHeader (up_Method (src_Upstream sample_source)) (Join ''+'' (ts_AMR sample_session))
        (setHeader (up_Groups (src_Upstream sample_source)) (Join '','' (ts_Groups sample_session))
          (setHeader (up_User (src_Upstream sample_source)) (ts_Sub sample_session) Map.empty))"
    using sample_not_own_path [of ModeEnforce] sample_own_valid [of ModeEnforce]
    by (intro valid_session_passes [where p = "sample_profile ModeEnforce"])
      (simp_all add: sample_input_def sample_profile_def sample_source_def GroupsAllow_def asks_for_def
        NeedsRenew_def sample_session_def unix_def second_def)
  then show ?thesis
    by (auto simp: sample_source_def sample_session_def setHeader_def)
qed


section \<open>What is never done\<close>

text \<open>C26: an observing profile never blocks, redirects or shows the form: its verdict is allow, or
an error when the list of sessions cannot be asked.\<close>

theorem observe_never_blocks:
  assumes "in_Profile inp = Some p" "pf_Mode p = ModeObserve" "Check env inp ses = Some r"
  shows "(rs_Verdict r = VerdictAllow \<or> (rs_Verdict r = VerdictError \<and> rs_Code r = CodeListUnavailable)) \<and>
    \<not> rs_Inline r \<and> rs_Cookies r = []"
  using assms(1,3)
proof (cases rule: Check_cases)
  case (forbidden src s)
  then show ?thesis using assms(2) by (simp add: not_allowed_def allow_def Let_def)
next
  case (signed_in src s)
  then show ?thesis using assms(2) by (auto simp: with_session_def allow_def Let_def)
next
  case (anonymous src code fs)
  then show ?thesis using assms(2) by (auto simp: without_session_def allow_def Let_def)
qed (simp_all add: allow_def Let_def)

theorem observe_never_blocks_witness:
  "\<exists>r. Check sample_env (sample_input ModeObserve [] 0) None = Some r \<and>
     (rs_Verdict r = VerdictAllow \<or> (rs_Verdict r = VerdictError \<and> rs_Code r = CodeListUnavailable)) \<and>
     \<not> rs_Inline r \<and> rs_Cookies r = []"
proof -
  have "\<exists>r. Check sample_env (sample_input ModeObserve [] 0) None = Some r"
    using sample_anonymous [of ModeObserve 0] sample_not_own_path [of ModeObserve]
    by (simp add: Check_def sample_input_def sample_profile_def Let_def)
  then obtain r where r: "Check sample_env (sample_input ModeObserve [] 0) None = Some r" by blast
  have "in_Profile (sample_input ModeObserve [] 0) = Some (sample_profile ModeObserve)"
    "pf_Mode (sample_profile ModeObserve) = ModeObserve"
    by (simp_all add: sample_input_def sample_profile_def)
  from observe_never_blocks [OF this r] r show ?thesis by blast
qed

text \<open>C24: a client is sent to the login form, or shown it inline, only by an enforcing profile, only
for a method it redirects, and, when the profile asks for it, only for a request whose answer is
shown as a page.\<close>

theorem form_only_for_pages:
  assumes "in_Profile inp = Some p" "Check env inp ses = Some r" "rs_Verdict r = VerdictRedirect \<or> rs_Inline r"
  shows "pf_Mode p \<notin> {ModeOff, ModeObserve} \<and> in_Method inp \<in> set (gt_RedirectMethods (pf_Gate p)) \<and>
    (gt_HTMLOnly (pf_Gate p) \<longrightarrow> showsPage inp)"
proof -
  have nav: "navigational inp p \<Longrightarrow> in_Method inp \<in> set (gt_RedirectMethods (pf_Gate p)) \<and>
      (gt_HTMLOnly (pf_Gate p) \<longrightarrow> showsPage inp)"
    by (auto simp: navigational_def RedirectsMethod_def split: if_splits)
  from assms(1,2) show ?thesis
  proof (cases rule: Check_cases)
    case (forbidden src s)
    then show ?thesis using assms(3) by (auto simp: not_allowed_def Let_def split: if_splits)
  next
    case (signed_in src s)
    then show ?thesis using assms(3) nav by (auto simp: with_session_def Let_def split: if_splits)
  next
    case (anonymous src code fs)
    then show ?thesis using assms(3) nav by (auto simp: without_session_def Let_def split: if_splits)
  qed (use assms(3) in \<open>simp_all\<close>)
qed

text \<open>The sample request without a session is sent to the form.\<close>

lemma sample_redirects:
  "\<exists>r. Check sample_env (sample_input ModeEnforce [] 0) None = Some r \<and> rs_Verdict r = VerdictRedirect \<and> rs_Code r = CodeNoSession"
  using sample_anonymous [of ModeEnforce 0] sample_not_own_path [of ModeEnforce]
  by (simp add: Check_def sample_input_def sample_profile_def Let_def without_session_def priorAsk_def
      navigational_def RedirectsMethod_def showsPage_def gate_def redirect_def External_def
      sample_source_def SealTicket_def Key_seal_def sample_env_def FormInline_def)

theorem form_only_for_pages_witness:
  "\<exists>r. Check sample_env (sample_input ModeEnforce [] 0) None = Some r \<and> rs_Verdict r = VerdictRedirect \<and>
     in_Method (sample_input ModeEnforce [] 0) \<in> set (gt_RedirectMethods (pf_Gate (sample_profile ModeEnforce)))"
proof -
  obtain r where r: "Check sample_env (sample_input ModeEnforce [] 0) None = Some r" "rs_Verdict r = VerdictRedirect"
    using sample_redirects by blast
  have "in_Profile (sample_input ModeEnforce [] 0) = Some (sample_profile ModeEnforce)"
    by (simp add: sample_input_def)
  from form_only_for_pages [OF this r(1)] r show ?thesis by blast
qed

text \<open>The identity headers of an allowed request, by name.\<close>

definition identity_headers :: "source \<Rightarrow> token_session option \<Rightarrow> string \<Rightarrow> string option" where
  "identity_headers src s name =
     (if name = [] then None
      else if name = up_Method (src_Upstream src) then Some (case s of None \<Rightarrow> [] | Some s \<Rightarrow> Join ''+'' (ts_AMR s))
      else if name = up_Groups (src_Upstream src) then Some (case s of None \<Rightarrow> [] | Some s \<Rightarrow> Join '','' (ts_Groups s))
      else if name = up_User (src_Upstream src) then Some (case s of None \<Rightarrow> [] | Some s \<Rightarrow> ts_Sub s)
      else None)"

text \<open>C25: whenever a request is allowed, the headers the source names are set, so that what a client
sent under these names is overwritten, and set from the session: the user's name, the groups
separated by commas, the methods separated by plus signs, and nothing where there is no session;
the session is that of a valid credential; no other header is set. (Where a source gives one name
to several, the methods win over the groups and those over the user.)\<close>

theorem upstream_headers_overwritten:
  assumes "in_Profile inp = Some p" "pf_Src p = Some src" "Check env inp ses = Some r"
    and "rs_Verdict r = VerdictAllow"
  shows "rs_Headers r = identity_headers src (rs_Session r) \<and>
    (\<forall>s. rs_Session r = Some s \<longrightarrow> credential_valid env inp src ses s)"
proof -
  have set: "rs_Headers (allow p s code eng) = identity_headers src s" for s code eng
    by (cases s) (auto simp: allow_def Let_def assms(2) setHeader_get identity_headers_def fun_eq_iff)
  have gate: "rs_Verdict (gate env inp p src' code eng) \<noteq> VerdictAllow" for src' code eng
    using gate_simps(1) [of env inp p src' code eng] by auto
  from assms(1,3) show ?thesis
  proof (cases rule: Check_cases)
    case (forbidden src' s)
    then show ?thesis using assms(2,4) set by (auto simp: not_allowed_def Let_def split: if_split_asm)
  next
    case (signed_in src' s)
    then show ?thesis using assms(2,4) set gate by (auto simp: with_session_def Let_def split: if_split_asm)
  next
    case (anonymous src' code fs)
    then show ?thesis using assms(4) set gate by (auto simp: without_session_def Let_def split: if_split_asm)
  qed (use assms(4) set in \<open>simp_all\<close>)
qed

theorem upstream_headers_overwritten_witness:
  "rs_Headers ((allow (sample_profile ModeEnforce) (Some sample_session) CodeOK
       (check_engine (sample_input ModeEnforce sample_cookie (1000 * second)) (sample_profile ModeEnforce)))
       \<lparr>rs_Event := OnAuthenticated\<rparr>) ''X-User'' = Some ''alice''"
  using upstream_headers_overwritten [OF _ _ sample_checks, of "sample_profile ModeEnforce" sample_source]
  by (auto simp: sample_input_def sample_profile_def sample_source_def sample_session_def identity_headers_def)


section \<open>What is reported\<close>

text \<open>The session a reply reports, as a reader of the reply expects it.\<close>

definition reported :: "source \<Rightarrow> token_session \<Rightarrow> psession" where
  "reported src s =
     \<lparr>ps_Source = src_Name src,
      ps_Kind = (if src_Provider src = ProviderJWT then SessionJWT else if src_Provider src = ProviderApp then SessionApp else SessionOwn),
      ps_User = ts_Sub s, ps_ID = ts_SID s,
      ps_Verified = (src_Provider src = ProviderJWT \<longrightarrow> (\<exists>j. pr_JWT (src_Providers src) = Some j \<and> jv_Alg (jp_Verify j) \<noteq> JWTAlgNone)),
      ps_Issued = ts_Issued s, ps_Expires = ts_Expiry s, ps_Groups = ts_Groups s\<rparr>"

lemma sessionsOf_reported: "sessionsOf (Some src) (Some s) = [reported src s]"
  by (auto simp: sessionsOf_def reported_def Let_def split: option.splits)

text \<open>C38: the event of a decision tells what the decision was: nothing where the gate did not look (it
is off, or the path is the login site's own) or could not (the list of sessions cannot be asked);
else that the client is signed in exactly when it has a valid credential whose groups the gate
accepts, that it is forbidden when it has one and the gate does not, and without a valid
credential that it is anonymous when it shows none, and invalid when the one it shows is not good.
The sessions a reply reports are exactly the session the request goes on with, which is that of a
valid credential.\<close>

theorem event_is_true:
  assumes "in_Profile inp = Some p" "pf_Src p = Some src" "Check env inp ses = Some r"
  shows "rs_Event r =
      (if pf_Mode p = ModeOff \<or> OwnPath p (in_URI inp) \<or> rs_Verdict r = VerdictError then []
       else if \<exists>s. credential_valid env inp src ses s \<and> Profile_Allows (de_ct env) p (ts_Groups s) then OnAuthenticated
       else if \<exists>s. credential_valid env inp src ses s then OnForbidden
       else if anonymous_client env inp src ses then OnAnonymous
       else OnInvalid) \<and>
    rs_Sessions r = (case rs_Session r of None \<Rightarrow> [] | Some s \<Rightarrow> [reported src s]) \<and>
    (\<forall>s. rs_Session r = Some s \<longrightarrow> credential_valid env inp src ses s)"
proof -
  have gate: "rs_Verdict (gate env inp p src' code eng) \<noteq> VerdictError" for src' code eng
    using gate_simps(1) [of env inp p src' code eng] by auto
  have gate_session: "rs_Session (gate env inp p src' code eng) = None" for src' code eng
    by (simp add: gate_def redirect_def Let_def split: option.splits)
  have groups: "ts_Groups s' = ts_Groups s"
    if "credential_valid env inp src ses s'" "open_cred env inp p ses = Some (Some s, CodeOK, [])" for s s'
    by (rule credential_valid_opens [OF that(1) assms(2)]) (use that(2) in auto)
  have invalid: "\<not> credential_valid env inp src ses s" if "open_cred env inp p ses = Some (None, code, fs)" for s code fs
    using credential_valid_opens [OF _ assms(2), of env inp ses s thesis for thesis] that by auto
  from assms(1,3) show ?thesis
  proof (cases rule: Check_cases)
    case (forbidden src' s)
    have "\<not> Profile_Allows (de_ct env) p (ts_Groups s')" if "credential_valid env inp src ses s'" for s'
      using groups [OF that forbidden(4)] forbidden(6) by simp
    moreover have "credential_valid env inp src ses s" using forbidden assms(2) by simp
    ultimately show ?thesis
      using forbidden(1,2,7) assms(2) by (auto simp: not_allowed_def Let_def sessionsOf_reported)
  next
    case (signed_in src' s)
    have src: "src' = src" using signed_in(3) assms(2) by simp
    have "rs_Verdict r \<noteq> VerdictError" "rs_Session r \<in> {None, Some s}"
      "rs_Sessions r = (case rs_Session r of None \<Rightarrow> [] | Some s \<Rightarrow> [reported src s])"
      unfolding signed_in(7) using gate gate_session gate_simps(3) assms(2)
      by (auto simp: with_session_def Let_def sessionsOf_reported renew_redirect_def)
    with signed_in show ?thesis unfolding src by auto
  next
    case (anonymous src' code fs)
    have "rs_Verdict r \<noteq> VerdictError" "rs_Session r = None" "rs_Sessions r = []"
      unfolding anonymous(8) using gate gate_session gate_simps(3)
      by (auto simp: without_session_def Let_def deny_def)
    then show ?thesis
      using anonymous(1,2,8) invalid [OF anonymous(4)] open_cred_anonymous [OF anonymous(4) assms(2)] by simp
  qed simp_all
qed

theorem event_is_true_witness:
  "\<exists>s. credential_valid sample_env (sample_input ModeEnforce sample_cookie (1000 * second)) sample_source None s"
  using event_is_true [OF _ _ sample_checks, of "sample_profile ModeEnforce" sample_source]
  by (auto simp: sample_input_def sample_profile_def)

text \<open>C39: a skip or a re-authentication takes effect exactly when an earlier verdict of the request
phase carries an action that asks for it and that one of the profile's rules hears: from that
inspector, with a verb the rule accepts, about a scope and with a code that it names where it names
any; and every action of those verdicts is reported in order as it was, with the outcome applied
when a rule heard it and no_rule when none did.\<close>

theorem prior_asks_heard:
  "(ask_skip (priorAsk prior p) \<longleftrightarrow> asks_for p prior DoSkip) \<and>
   (ask_reauth (priorAsk prior p) \<longleftrightarrow> asks_for p prior DoReauth) \<and>
   ask_outcomes (priorAsk prior p) =
     concat (map (\<lambda>v. map (heard p (pv_Inspector v)) (pv_Actions v)) (filter in_request_phase prior))"
  unfolding priorAsk_skip priorAsk_reauth by (simp add: priorAsk_fold priorAsk_spec_aux(3))


section \<open>The way back\<close>

text \<open>C37: the address a client is sent back to after the login is a path of this site: it starts with
one slash, never with two, has at most 1024 bytes, all of them printable ASCII and none a
backslash; and it is the request's own address.\<close>

theorem returnPath_safe:
  "returnPath uri args = [] \<or>
   (returnPath uri args = (if args \<noteq> [] then uri @ ''?'' @ args else uri) \<and>
    length (returnPath uri args) \<le> 1024 \<and> hd (returnPath uri args) = CHR ''/'' \<and>
    \<not> HasPrefix (returnPath uri args) ''//'' \<and>
    list_all (\<lambda>c. visible c \<and> c \<noteq> CHR 0x5C) (returnPath uri args))"
proof (cases "returnPath uri args = []")
  case False
  define out where "out = (if args \<noteq> [] then uri @ ''?'' @ args else uri)"
  from False have uri: "uri \<noteq> []" "hd uri = CHR ''/''" "\<not> HasPrefix uri ''//''"
    and out: "returnPath uri args = out" "length out \<le> 1024"
    "\<not> list_ex (\<lambda>c. byte_val c < 0x21 \<or> byte_val c > 0x7e \<or> c = CHR 0x5C) out"
    by (auto simp: returnPath_def returnPath_max_def out_def [symmetric] Let_def not_less split: if_splits)
  have "\<not> HasPrefix out ''//''"
    using uri by (cases uri rule: remdups_adj.cases) (auto simp: out_def)
  moreover have "list_all (\<lambda>c. visible c \<and> c \<noteq> CHR 0x5C) out"
    using out(3) by (auto simp: list_ex_iff list_all_iff visible_def not_less)
  ultimately show ?thesis
    using uri out by (auto simp: out_def)
qed simp


section \<open>Bearer tokens\<close>


definition sample_jwt :: jwt_provider where
  "sample_jwt =
     \<lparr>jp_Cookie = ''jwt'', jp_Header = [], jp_Prefix = [],
      jp_Verify = \<lparr>jv_Alg = ''HS256'', jv_KeyFile = [], jv_SecretEnv = ''K'', jv_Issuer = [], jv_Audience = [],
        jv_Leeway = 0\<rparr>,
      jp_Claims = \<lparr>jc_User = ''sub'', jc_Session = ''sid'', jc_Groups = ''groups'', jc_Issued = ''iat'',
        jc_Expiry = ''exp''\<rparr>, jp_Key = ''key''\<rparr>"

definition sample_bearer :: "(string \<times> json) list \<Rightarrow> string" where
  "sample_bearer claims =
     b64_encode ''h'' @ ''.'' @ b64_encode ''b'' @ ''.'' @
     b64_encode (''key'' @ rev (b64_encode ''h'' @ ''.'' @ b64_encode ''b''))"

definition sample_jwt_env :: "(string \<times> json) list \<Rightarrow> decide_env" where
  "sample_jwt_env claims =
     sample_env\<lparr>de_jwt_json := (\<lambda>b. Some (if b = ''h'' then [(''alg'', JStr ''HS256'')] else claims))\<rparr>"

definition sample_token :: "(string \<times> json) list \<Rightarrow> jwt_token" where
  "sample_token claims =
     \<lparr>jt_Header = [(''alg'', JStr ''HS256'')], jt_Claims = claims, jt_raw = sample_bearer claims,
      jt_signing = b64_encode ''h'' @ ''.'' @ b64_encode ''b'',
      jt_signature = ''key'' @ rev (b64_encode ''h'' @ ''.'' @ b64_encode ''b'')\<rparr>"

lemma sample_jwt_parse:
  "Jwt_Parse (de_jwt_json (sample_jwt_env claims)) (sample_bearer claims) = Inr (sample_token claims)"
proof -
  have "Split (CHR ''.'') (sample_bearer claims) =
      [b64_encode ''h'', b64_encode ''b'', b64_encode (''key'' @ rev (b64_encode ''h'' @ ''.'' @ b64_encode ''b''))]"
    by (simp add: sample_bearer_def Split_append b64_encode_no_dot Split_single del: append_Cons)
      (simp add: Split_append Split_single b64_encode_no_dot)
  then show ?thesis
    by (simp add: Jwt_Parse_def sample_jwt_env_def sample_token_def)
qed

lemma sample_jwt_raw:
  "jwt_raw (sample_jwt_env claims) (sample_input mode (sample_bearer claims) now) sample_jwt = sample_bearer claims"
  by (simp add: jwt_raw_def sample_jwt_def sample_input_def)

lemma sample_jwt_verify:
  "Jwt_Verify (de_crypto (sample_jwt_env claims)) (sample_token claims) ''HS256'' ''key'' = None"
  by (simp add: Jwt_Verify_def Jwt_Alg_def sample_token_def sample_jwt_env_def sample_env_def sample_crypto_def
      hashOf_def)

lemma sample_bearer_not_Nil: "sample_bearer claims \<noteq> []"
  by (simp add: sample_bearer_def)

lemma sample_jwt_accepted:
  assumes "map_of claims ''exp'' = Some (JNum e t)" "map_of claims ''nbf'' = None"
    and "unix now \<le> e" "- (2 ^ 63) \<le> e" "e < 2 ^ 63"
  shows "\<exists>s. openJWT (sample_jwt_env claims) (sample_input mode (sample_bearer claims) now) sample_source sample_jwt =
    (Some s, CodeOK, [])"
proof -
  have "jwt_valid (sample_jwt_env claims) (sample_input mode (sample_bearer claims) now) sample_jwt (sample_token claims)"
    unfolding jwt_valid_def sample_jwt_raw sample_jwt_parse
    using sample_jwt_verify [of claims] assms
    by (simp add: sample_jwt_def Jwt_Int_def Jwt_claim_def sample_token_def whole_seconds_def sample_input_def)
  then show ?thesis
    using sample_jwt_raw sample_bearer_not_Nil by (auto simp: openJWT_Some)
qed


text \<open>a token is accepted only inside its lifetime, widened by the leeway on both sides, and only
from the issuer and for the audience the source asks for, as long as the sums with the leeway fit
64 bits.\<close>

theorem jwt_lifetime:
  assumes "openJWT env inp src j = (Some s, code, fs)"
    and "Jwt_Parse (de_jwt_json env) (jwt_raw env inp j) = Inr tok"
    and "leeway = whole_seconds (jv_Leeway (jp_Verify j))"
    and "\<And>e. Jwt_Int tok (jc_Expiry (jp_Claims j)) = Some e \<Longrightarrow> - (2 ^ 63) \<le> e + leeway \<and> e + leeway < 2 ^ 63"
    and "\<And>n. Jwt_Int tok ''nbf'' = Some n \<Longrightarrow> - (2 ^ 63) \<le> n - leeway \<and> n - leeway < 2 ^ 63"
  shows "(\<forall>e. Jwt_Int tok (jc_Expiry (jp_Claims j)) = Some e \<longrightarrow> unix (in_Now inp) \<le> e + leeway) \<and>
    (\<forall>n. Jwt_Int tok ''nbf'' = Some n \<longrightarrow> n \<le> unix (in_Now inp) + leeway) \<and>
    (jv_Issuer (jp_Verify j) = [] \<or> Jwt_String tok ''iss'' = jv_Issuer (jp_Verify j)) \<and>
    (jv_Audience (jp_Verify j) = [] \<or> jv_Audience (jp_Verify j) \<in> set (Jwt_Strings tok ''aud''))"
proof -
  from assms(1,2) have v: "jwt_valid env inp j tok"
    by (auto simp: openJWT_Some jwt_valid_def)
  have "unix (in_Now inp) \<le> e + leeway" if "Jwt_Int tok (jc_Expiry (jp_Claims j)) = Some e" for e
    using v assms(4) [OF that] that i64_id [of "e + leeway"] by (simp add: jwt_valid_def assms(3))
  moreover have "n \<le> unix (in_Now inp) + leeway" if "Jwt_Int tok ''nbf'' = Some n" for n
    using v assms(5) [OF that] that i64_id [of "n - leeway"] by (simp add: jwt_valid_def assms(3))
  ultimately show ?thesis
    using v by (simp add: jwt_valid_def)
qed

theorem jwt_lifetime_witness:
  "Jwt_Int (sample_token [(''exp'', JNum 100 ''100'')]) ''exp'' = Some 100 \<and> unix 0 \<le> 100 + 0"
proof -
  let ?c = "[(''exp'', JNum 100 ''100'')]"
  obtain s where s: "openJWT (sample_jwt_env ?c) (sample_input ModeEnforce (sample_bearer ?c) 0) sample_source sample_jwt =
      (Some s, CodeOK, [])"
    using sample_jwt_accepted [of ?c 100 "''100''" 0 ModeEnforce] by (auto simp: unix_def second_def)
  have parse: "Jwt_Parse (de_jwt_json (sample_jwt_env ?c))
      (jwt_raw (sample_jwt_env ?c) (sample_input ModeEnforce (sample_bearer ?c) 0) sample_jwt) = Inr (sample_token ?c)"
    by (simp only: sample_jwt_raw sample_jwt_parse)
  have e: "Jwt_Int (sample_token ?c) ''exp'' = Some 100" "Jwt_Int (sample_token ?c) ''nbf'' = None"
    by (simp_all add: Jwt_Int_def Jwt_claim_def sample_token_def)
  have "\<forall>e. Jwt_Int (sample_token ?c) (jc_Expiry (jp_Claims sample_jwt)) = Some e \<longrightarrow>
      unix (in_Now (sample_input ModeEnforce (sample_bearer ?c) 0)) \<le> e + 0"
    by (rule jwt_lifetime [OF s parse, of 0, THEN conjunct1])
      (use e in \<open>simp_all add: sample_jwt_def whole_seconds_def\<close>)
  then show ?thesis
    using e by (simp add: sample_jwt_def sample_input_def)
qed

text \<open>the sum of expiry and leeway is taken in 64 bits and wraps: a correctly signed token whose
expiry is the largest 64-bit second, far in the future, is refused as expired as soon as the source
allows any leeway.\<close>

theorem jwt_expiry_wraps:
  assumes "Jwt_Parse (de_jwt_json env) (jwt_raw env inp j) = Inr tok" "jwt_raw env inp j \<noteq> []"
    and "Jwt_Verify (de_crypto env) tok (jv_Alg (jp_Verify j)) (jp_Key j) = None"
    and "Jwt_Int tok (jc_Expiry (jp_Claims j)) = Some (2 ^ 63 - 1)"
    and "second \<le> jv_Leeway (jp_Verify j)" "jv_Leeway (jp_Verify j) < 2 ^ 63" "0 \<le> unix (in_Now inp)"
  shows "openJWT env inp src j = (None, CodeSessionExpired, [])"
proof -
  let ?l = "whole_seconds (jv_Leeway (jp_Verify j))"
  have l: "1 \<le> ?l" "?l < 2 ^ 63"
    using assms(5,6) by (simp_all add: whole_seconds_def second_def)
  have "2 ^ 63 - 1 + ?l + 2 ^ 63 = (?l - 1) + 2 ^ 64" by simp
  then have "(2 ^ 63 - 1 + ?l + 2 ^ 63) mod 2 ^ 64 = (?l - 1) mod 2 ^ 64"
    by (simp only: mod_add_self2)
  also have "\<dots> = ?l - 1" using l by (intro mod_pos_pos_trivial) simp_all
  finally have "i64 (2 ^ 63 - 1 + ?l) = ?l - 1 - 2 ^ 63"
    by (simp only: i64_def)
  then have "i64 (2 ^ 63 - 1 + ?l) < unix (in_Now inp)"
    using l assms(7) by simp
  then show ?thesis
    using assms(1-4) by (simp add: openJWT_def jwt_raw_def [symmetric] jwt_checks_def Let_def)
qed

theorem jwt_expiry_wraps_witness:
  "openJWT (sample_jwt_env [(''exp'', JNum (2 ^ 63 - 1) [])])
     (sample_input ModeEnforce (sample_bearer [(''exp'', JNum (2 ^ 63 - 1) [])]) 0) sample_source
     (sample_jwt\<lparr>jp_Verify := (jp_Verify sample_jwt)\<lparr>jv_Leeway := 60 * second\<rparr>\<rparr>) = (None, CodeSessionExpired, [])"
proof -
  let ?c = "[(''exp'', JNum (2 ^ 63 - 1) [])]"
  let ?j = "sample_jwt\<lparr>jp_Verify := (jp_Verify sample_jwt)\<lparr>jv_Leeway := 60 * second\<rparr>\<rparr>"
  have raw: "jwt_raw (sample_jwt_env ?c) (sample_input ModeEnforce (sample_bearer ?c) 0) ?j = sample_bearer ?c"
    by (simp add: jwt_raw_def sample_jwt_def sample_input_def)
  show ?thesis
    by (rule jwt_expiry_wraps [where tok = "sample_token ?c"], unfold raw)
      (use sample_jwt_parse [of ?c] sample_jwt_verify [of ?c] sample_bearer_not_Nil in
        \<open>simp_all add: sample_jwt_def second_def sample_token_def Jwt_Int_def Jwt_claim_def sample_input_def unix_def\<close>)
qed

end
