(* ===== verification/Inspector_Props.thy ===== *)
theory Inspector_Props
  imports Inspector Decide_Props
begin

text \<open>
  What the inspector promises of its answers: every message is answered once, in the right
  place and for the right request; an answer that lets a request through rests on a valid
  credential in the request's own store; what goes wrong answers an error; and a login learned
  from a response is found again by the next request.
\<close>

section \<open>What a step touches\<close>

definition same_bus :: "outside \<Rightarrow> outside \<Rightarrow> bool" where
  "same_bus u u' \<longleftrightarrow> ou_published u' = ou_published u \<and> ou_submitted u' = ou_submitted u \<and> ou_audit u' = ou_audit u"

lemma same_bus_refl [simp]: "same_bus u u"
  by (simp add: same_bus_def)

lemma same_bus_trans: "same_bus u v \<Longrightarrow> same_bus v w \<Longrightarrow> same_bus u w"
  by (simp add: same_bus_def)

lemma same_bus_writes [simp]: "same_bus u (u\<lparr>ou_writes := ws\<rparr>)" "same_bus u (u\<lparr>ou_puts := ps\<rparr>)"
  by (simp_all add: same_bus_def)

lemma writeRule_bus: "same_bus u (snd (writeRule env r addr why u))"
  by (simp add: writeRule_def Let_def split: sum.splits)

lemma fire_rules_bus: "same_bus u (snd (snd (fire_rules env why addr rs u)))"
proof (induction env why addr rs u rule: fire_rules.induct)
  case (2 env why addr r rs u)
  show ?case
  proof (cases "er_Do r \<noteq> [] \<or> addr = [] \<or> ie_lists env = None")
    case True
    then show ?thesis using 2(1,2) by (auto split: prod.splits)
  next
    case False
    obtain err v where w: "writeRule env r addr (if er_Code r = [] then why else er_Code r) u = (err, v)" by force
    have "same_bus u v" using writeRule_bus [of u env r addr] w by (metis snd_conv)
    moreover have "same_bus v (snd (snd (fire_rules env why addr rs v)))" using 2(3) False w by simp
    ultimately show ?thesis using False w by (auto split: prod.splits intro: same_bus_trans)
  qed
qed simp

lemma fireEvent_bus: "same_bus u (snd (snd (fireEvent env p res addr u)))"
  by (simp add: fireEvent_def fire_rules_bus)

lemma fireOverload_bus: "same_bus u (snd (snd (fireOverload env p fill shed addr u)))"
  by (simp add: fireOverload_def fire_rules_bus)

lemma inlineForm_bus: "same_bus u (snd (inlineForm env req p res agent u))"
  by (simp add: inlineForm_def Let_def split: option.splits sum.splits)

lemma place_form_bus: "place_form env req profile res agent u = (res', rw, u') \<Longrightarrow> same_bus u u'"
  using inlineForm_bus [of u env req "the profile" res agent]
  by (auto simp: place_form_def split: if_splits option.splits sum.splits prod.splits)

lemma fire_all_bus: "same_bus u (snd (fire_all env profile res fill addr u))"
proof (cases profile)
  case (Some p)
  obtain a e v where f: "fireEvent env p res addr u = (a, e, v)" by (metis prod_cases3)
  obtain b e' w where o: "fireOverload env p fill False addr v = (b, e', w)" by (metis prod_cases3)
  have "same_bus u v" "same_bus v w"
    using fireEvent_bus [of u env p res addr] fireOverload_bus [of v env p fill False addr] f o by simp_all
  then show ?thesis
    using same_bus_trans [of u v w] by (simp add: fire_all_def Some f o split: option.splits)
qed (simp add: fire_all_def)

lemma answer_bus: "same_bus u (snd (answer env req profile res agent fill u))"
proof -
  obtain res' rw v where p: "place_form env req profile res agent u = (res', rw, v)" by (metis prod_cases3)
  have "same_bus u v" using p by (rule place_form_bus)
  moreover have "same_bus v (snd (fire_all env profile res' fill (conn_ClientIP (req_Conn req)) v))" by (rule fire_all_bus)
  ultimately show ?thesis
    by (auto simp: answer_def p Let_def split: prod.splits sum.splits intro: same_bus_trans)
qed

lemma inspect_request_bus: "same_bus u (snd (inspect_request env req fill u))"
proof -
  have "same_bus u v" if "answer env req profile res agent fill u = (r, v)" for profile res agent r v
    using answer_bus [of u env req profile res agent fill] that by simp
  then show ?thesis
    by (auto simp: inspect_request_def Let_def split: option.splits sum.splits prod.splits)
qed

lemma on_list_bus: "on_list env op u = (r, u') \<Longrightarrow> same_bus u u'"
  by (auto simp: on_list_def split: option.splits)

lemma observe_logout_bus: "same_bus u (snd (observe_logout env req p src a r u))"
  by (auto simp: observe_logout_def Let_def split: option.splits prod.splits dest: on_list_bus)

lemma observe_login_bus: "same_bus u (snd (observe_login env req p src a r u))"
  by (auto simp: observe_login_def Let_def split: option.splits prod.splits sum.splits dest: on_list_bus)

lemma observe_bus: "same_bus u (snd (observe env req u))"
  by (simp add: observe_def observe_logout_bus observe_login_bus Let_def split: option.splits)

lemma inspect_bus: "inspect env req fill u = (r, u') \<Longrightarrow> same_bus u u'"
  using observe_bus [of u env req] inspect_request_bus [of u env req fill]
  by (auto simp: inspect_def split: if_splits)

lemma overloadOnShed_bus: "overloadOnShed env t shed r det u = (r', det', u') \<Longrightarrow> same_bus u u'"
  using fireOverload_bus
  by (auto simp: overloadOnShed_def split: if_splits option.splits prod.splits) (metis snd_conv)+
section \<open>Replies\<close>

lemma send_publishes:
  assumes "rp_Score r = None" "subject \<noteq> []"
  shows "ou_published (send env subject r req det u) = ou_published u @ [(subject, ie_reply_json env r)]"
    "ou_submitted (send env subject r req det u) = ou_submitted u"
  using assms by (simp_all add: send_def Reply_Marshal_def)

lemma reply_simps [simp]:
  "rp_Score (NewReply req v) = None" "rp_RID (NewReply req v) = req_RID req" "rp_Verdict (NewReply req v) = v"
  "rp_Score (ErrorReply req c) = None" "rp_RID (ErrorReply req c) = req_RID req" "rp_Verdict (ErrorReply req c) = VerdictError"
  "rp_Score (ShedReply req c) = None" "rp_RID (ShedReply req c) = req_RID req" "rp_Verdict (ShedReply req c) = VerdictError"
  "rp_Score (FallbackReply rid n c) = None" "rp_RID (FallbackReply rid n c) = rid" "rp_Verdict (FallbackReply rid n c) = VerdictError"
  "rp_Actions (NewReply req v) = []" "rp_Sessions (NewReply req v) = []"
  by (simp_all add: NewReply_def ErrorReply_def ShedReply_def FallbackReply_def blank_reply_def)

lemma toReply_simps [simp]:
  "rp_Score (toReply req res) = None" "rp_RID (toReply req res) = req_RID req" "rp_Verdict (toReply req res) = rs_Verdict res"
  by (simp_all add: toReply_def set_headers_def Let_def)

lemma answer_reply:
  assumes "answer env req profile res agent fill u = ((r, det), u')"
  obtains "r = ErrorReply req CodeGeoUnavailable"
  | res' rw v fired where "place_form env req profile res agent u = (res', rw, v)"
      "r = (toReply req res')\<lparr>rp_Rewrite := rw, rp_Actions := rp_Actions (toReply req res') @ fired\<rparr>"
proof -
  obtain res' rw v where p: "place_form env req profile res agent u = (res', rw, v)" by (metis prod_cases3)
  show thesis
    using assms that p by (auto simp: answer_def Let_def split: prod.splits sum.splits)
qed

lemma inspect_request_reply:
  assumes "inspect_request env req fill u = (Some (r, det), u')"
  shows "rp_Score r = None \<and> rp_RID r = req_RID req"
proof -
  have a: "rp_Score r = None \<and> rp_RID r = req_RID req"
    if "answer env req profile res agent fill u = ((r, det), u')" for profile res agent r det u'
    using that by (rule answer_reply) simp_all
  show ?thesis
    using assms by (auto simp: inspect_request_def Let_def split: option.splits sum.splits prod.splits dest: a)
qed

lemma observe_login_reply:
  assumes "observe_login env req p src a r0 u = (Some (r, det), u')"
  shows "rp_Score r = rp_Score r0 \<and> rp_RID r = rp_RID r0"
  using assms by (auto simp: observe_login_def learned_def Let_def split: option.splits prod.splits sum.splits)

lemma observe_logout_reply:
  assumes "observe_logout env req p src a r0 u = (Some (r, det), u')"
  shows "r = r0"
  using assms by (auto simp: observe_logout_def learned_def Let_def split: option.splits prod.splits if_splits)

lemma observe_reply:
  assumes "observe env req u = (Some (r, det), u')"
  shows "rp_Score r = None \<and> rp_RID r = req_RID req"
  using assms
  by (auto simp: observe_def learned_def Let_def split: option.splits if_splits dest!: observe_login_reply observe_logout_reply)

lemma inspect_reply: "inspect env req fill u = (Some (r, det), u') \<Longrightarrow> rp_Score r = None \<and> rp_RID r = req_RID req"
  by (auto simp: inspect_def split: if_splits dest: observe_reply inspect_request_reply)

lemma shed_reply:
  assumes "overloadOnShed env t shed (ShedReply (qt_Req t) shed) det u = (r, det', u')"
  shows "rp_Score r = None \<and> rp_RID r = req_RID (qt_Req t) \<and> rp_Verdict r = VerdictError"
  using assms by (auto simp: overloadOnShed_def split: if_splits option.splits prod.splits)

lemma evaluate_publishes:
  assumes "qt_Reply t \<noteq> []"
  obtains r where "ou_published (evaluate env t budget shed u) = ou_published u @ [(qt_Reply t, ie_reply_json env r)]"
    "ou_submitted (evaluate env t budget shed u) = ou_submitted u" "rp_RID r = req_RID (qt_Req t)"
    "shed \<noteq> [] \<or> fst (inspect env (qt_Req t) (qt_Fill t) u) = None \<longrightarrow> rp_Verdict r = VerdictError"
    "shed = [] \<and> fst (inspect env (qt_Req t) (qt_Fill t) u) \<noteq> None \<longrightarrow> (\<exists>det. fst (inspect env (qt_Req t) (qt_Fill t) u) = Some (r, det))"
proof (cases "shed = []")
  case False
  obtain r det u' where o: "overloadOnShed env t shed (ShedReply (qt_Req t) shed)
      (with_engine [(''shed'', EStr shed), (''budget_ms'', EInt (sgn budget * (\<bar>budget\<bar> div 1000)))]) u = (r, det, u')"
    by (metis prod_cases3)
  show thesis
    using that [of r] False o shed_reply [OF o] overloadOnShed_bus [OF o] assms
    by (simp add: evaluate_def send_publishes same_bus_def)
next
  case True
  obtain res u' where i: "inspect env (qt_Req t) (qt_Fill t) u = (res, u')" by force
  show thesis
  proof (cases res)
    case None
    then show thesis
      using that [of "FallbackReply (req_RID (qt_Req t)) (ie_Name env) codeInternalError"] True i inspect_bus [OF i] assms
      by (simp add: evaluate_def recoverInto_def send_publishes same_bus_def)
  next
    case (Some rd)
    obtain r det where rd: "rd = (r, det)" by force
    show thesis
      using that [of r] True i Some rd inspect_bus [OF i] inspect_reply [OF i [unfolded Some rd]] assms
      by (simp add: evaluate_def send_publishes same_bus_def)
  qed
qed


section \<open>Properties\<close>

text \<open>C6: Every message is answered exactly once. What arrives is either queued, once, when it
  parses, is of a known version and of a phase the inspector handles, or answered at once with an
  error; and a queued request is answered by exactly one reply to its own subject, with its own
  identifier, whatever the evaluation does, even when it panics.\<close>

theorem every_message_answered:
  assumes "subject \<noteq> []" "qt_Reply t \<noteq> []"
  shows "(case Parse (ie_request_json env) data of
      Inr req \<Rightarrow> (if Supports env (req_V req) \<and> req_Phase req \<in> {PhaseRequest, PhaseResponse}
        then ou_submitted (receive env subject data u) = ou_submitted u @ [(req, subject)] \<and>
             ou_published (receive env subject data u) = ou_published u
        else ou_submitted (receive env subject data u) = ou_submitted u \<and>
          (\<exists>r. ou_published (receive env subject data u) = ou_published u @ [(subject, ie_reply_json env r)] \<and>
             rp_Verdict r = VerdictError \<and> rp_RID r = req_RID req))
    | Inl e \<Rightarrow> ou_submitted (receive env subject data u) = ou_submitted u \<and>
        (\<exists>r. ou_published (receive env subject data u) = ou_published u @ [(subject, ie_reply_json env r)] \<and>
           rp_Verdict r = VerdictError \<and> rp_RID r = pe_RID e)) \<and>
   (\<exists>r. ou_published (evaluate env t budget shed u) = ou_published u @ [(qt_Reply t, ie_reply_json env r)] \<and>
      rp_RID r = req_RID (qt_Req t) \<and> ou_submitted (evaluate env t budget shed u) = ou_submitted u)"
proof -
  have one: "\<exists>r. ou_published (send env subject r' req det u) = ou_published u @ [(subject, ie_reply_json env r)] \<and>
      rp_Verdict r = rp_Verdict r' \<and> rp_RID r = rp_RID r'" if "rp_Score r' = None" for r' req det
    using send_publishes(1) [OF that assms(1)] by blast
  have "\<exists>r. ou_published (evaluate env t budget shed u) = ou_published u @ [(qt_Reply t, ie_reply_json env r)] \<and>
      rp_RID r = req_RID (qt_Req t) \<and> ou_submitted (evaluate env t budget shed u) = ou_submitted u"
    using evaluate_publishes [OF assms(2), of env budget shed u] by metis
  moreover note one [of "FallbackReply (pe_RID e) (ie_Name env) codeMalformed" None no_details for e]
    one [of "(ErrorReply req codeUnsupportedVersion)\<lparr>rp_V := ProtocolVersion\<rparr>" "Some req" no_details for req]
    one [of "ErrorReply req CodeWrongPhase" "Some req" no_details for req]
  ultimately show ?thesis
    by (auto simp: receive_def send_publishes(2) assms(1) split: sum.splits)
qed

lemma place_form_allow:
  "place_form env req profile res agent u = (res', rw, u') \<Longrightarrow> rs_Verdict res' = VerdictAllow \<Longrightarrow> res' = res"
  by (auto simp: place_form_def split: if_splits option.splits prod.splits sum.splits)

lemma place_form_error:
  "place_form env req profile res agent u = (res', rw, u') \<Longrightarrow> \<not> rs_Inline res \<Longrightarrow> res' = res"
  by (auto simp: place_form_def)

text \<open>C16: Whatever keeps the inspector from deciding is answered with an error, never with an allow: a
  request that was shed, an evaluation that panicked, a profile that is not known, and a store
  that cannot be read.\<close>

theorem failures_answer_error:
  assumes "qt_Reply t \<noteq> []"
    and "shed \<noteq> [] \<or> fst (inspect env (qt_Req t) (qt_Fill t) u) = None \<or>
      (req_Phase (qt_Req t) \<noteq> PhaseResponse \<and>
        (case Snapshot_Profile (ie_snapshot env) (req_Profile (qt_Req t)) of
           None \<Rightarrow> True
         | Some p \<Rightarrow> pf_Mode p \<noteq> ModeOff \<and> (\<exists>why. store_input env (qt_Req t) p = Some (Inl why))))"
  shows "\<exists>r. ou_published (evaluate env t budget shed u) = ou_published u @ [(qt_Reply t, ie_reply_json env r)] \<and>
    rp_Verdict r = VerdictError"
proof -
  obtain r where r: "ou_published (evaluate env t budget shed u) = ou_published u @ [(qt_Reply t, ie_reply_json env r)]"
    and "ou_submitted (evaluate env t budget shed u) = ou_submitted u" "rp_RID r = req_RID (qt_Req t)"
    and failed: "shed \<noteq> [] \<or> fst (inspect env (qt_Req t) (qt_Fill t) u) = None \<longrightarrow> rp_Verdict r = VerdictError"
    and decided: "shed = [] \<and> fst (inspect env (qt_Req t) (qt_Fill t) u) \<noteq> None \<longrightarrow>
      (\<exists>det. fst (inspect env (qt_Req t) (qt_Fill t) u) = Some (r, det))"
    by (rule evaluate_publishes [OF assms(1), of env budget shed u])
  show ?thesis
  proof (cases "shed \<noteq> [] \<or> fst (inspect env (qt_Req t) (qt_Fill t) u) = None")
    case True
    with r failed show ?thesis by blast
  next
    case False
    with decided obtain det u' where i: "inspect env (qt_Req t) (qt_Fill t) u = (Some (r, det), u')"
      by (metis prod.collapse)
    with assms(2) False have phase: "inspect_request env (qt_Req t) (qt_Fill t) u = (Some (r, det), u')"
      by (auto simp: inspect_def split: if_splits)
    have "rp_Verdict r = VerdictError"
    proof (cases "Snapshot_Profile (ie_snapshot env) (req_Profile (qt_Req t))")
      case None
      then obtain res where c: "answer env (qt_Req t) None (unknown_profile (base_input env (qt_Req t) None)) [] (qt_Fill t) u = ((r, det), u')"
        using phase by (auto simp: inspect_request_def in_force_def Check_def base_input_def split: prod.splits)
      then show ?thesis
      proof (rule answer_reply)
        fix res' rw v fired
        assume "place_form env (qt_Req t) None (unknown_profile (base_input env (qt_Req t) None)) [] u = (res', rw, v)"
        then have "res' = unknown_profile (base_input env (qt_Req t) None)"
          by (rule place_form_error) (simp add: unknown_profile_def zero_result_def)
        moreover assume "r = (toReply (qt_Req t) res')\<lparr>rp_Rewrite := rw, rp_Actions := rp_Actions (toReply (qt_Req t) res') @ fired\<rparr>"
        ultimately show ?thesis by (simp add: unknown_profile_def)
      qed simp
    next
      case (Some p)
      with assms(2) False obtain why where "pf_Mode p \<noteq> ModeOff" "store_input env (qt_Req t) p = Some (Inl why)"
        by auto
      with phase Some show ?thesis
        by (auto simp: inspect_request_def in_force_def)
    qed
    with r show ?thesis by blast
  qed
qed

text \<open>C8: An answer that allows a request under an enforcing profile rests on a valid credential read
  from that request's own store, of a group the gate accepts, or on a skip that the profile takes
  from an earlier inspector. The answer to a request never allows what the decision did not.\<close>

theorem allow_reply_needs_credential:
  assumes "inspect env req fill u = (Some (r, det), u')" "req_Phase req \<noteq> PhaseResponse" "rp_Verdict r = VerdictAllow"
    and "Snapshot_Profile (ie_snapshot env) (req_Profile req) = Some p" "pf_Mode p = ModeEnforce" "pf_Src p = Some src"
    and "\<not> OwnPath p (http_URI (req_HTTP req))"
  shows "\<exists>inp. store_input env req p = Some (Inr inp) \<and>
    ((\<exists>s. credential_valid (ie_decide env) inp src (ie_sessions env) s \<and>
        GroupsAllow (de_ct (ie_decide env)) (ts_Groups s) (gt_Groups (pf_Gate p))) \<or>
     asks_for p (req_Prior req) DoSkip)"
proof -
  have req: "inspect_request env req fill u = (Some (r, det), u')"
    using assms(1,2) by (simp add: inspect_def)
  obtain inp where inp: "store_input env req p = Some (Inr inp)"
    using req assms(3,4,5) by (auto simp: inspect_request_def in_force_def Let_def split: option.splits sum.splits)
  have fields: "in_Profile inp = Some p" "in_URI inp = http_URI (req_HTTP req)" "in_Prior inp = req_Prior req"
    using inp by (auto simp: store_input_def base_input_def Let_def split: prod.splits if_splits option.splits)
  obtain res where check: "Check (ie_decide env) inp (ie_sessions env) = Some res"
    and ans: "answer env req (Some p) res (in_UserAgent inp) fill u = ((r, det), u')"
    using req inp assms(4,5) by (auto simp: inspect_request_def in_force_def split: option.splits prod.splits)
  from ans have "rs_Verdict res = VerdictAllow"
  proof (rule answer_reply)
    fix res' rw v fired
    assume p: "place_form env req (Some p) res (in_UserAgent inp) u = (res', rw, v)"
      and "r = (toReply req res')\<lparr>rp_Rewrite := rw, rp_Actions := rp_Actions (toReply req res') @ fired\<rparr>"
    then have "rs_Verdict res' = VerdictAllow" using assms(3) by simp
    with place_form_allow [OF p] show ?thesis by simp
  qed (use assms(3) in simp)
  from allowed_by [OF fields(1) assms(5,6) _ check this] assms(7) show ?thesis
    using inp fields by auto
qed

text \<open>C30: A login learned from a response is found again. The session that the answer reports is put on
  the source's list under the hash of the cookie the response has set, and when a later request
  carries that cookie and the list has the entry, the decision opens it as that user's session.
  It is learned only from a response that sets a cookie of the application, with an accepted
  status.\<close>

theorem learned_session_found:
  assumes "observe env req u = (Some (r, det), u')" "rp_Sessions r = [s]"
  shows "\<exists>p src a issued.
    Snapshot_Profile (ie_snapshot env) (req_Profile req) = Some p \<and> pf_Src p = Some src \<and> pr_App (src_Providers src) = Some a \<and>
    Learn_Issued (de_ct (ie_decide env)) (responseHeaders env req) (ap_Cookie a) = (issued, True) \<and>
    observed_status req \<in> set (as_Status (al_Success (ap_Learn a))) \<and>
    ps_ID s = Learn_Hash (de_sha256 (ie_decide env)) issued \<and> ps_Kind s = SessionApp \<and> ps_Source s = src_Name src \<and>
    ou_writes u' = ou_writes u @ [AddSession (lc_Sessions (src_List src)) (ps_ID s) (lc_TTL (src_List src)) (Learn_Reason (ps_User s))] \<and>
    (\<forall>inp api entry. in_Cookie inp = issued \<and> sa_Lookup api (lc_Sessions (src_List src)) (ps_ID s) = (entry, True, True) \<and>
       en_Reason entry = Learn_Reason (ps_User s) \<longrightarrow>
       (\<exists>t. openApp (ie_decide env) inp src (Some api) = (Some t, CodeOK, []) \<and> ts_SID t = ps_ID s \<and>
          ts_Sub t = TrimSpace (ps_User s)))"
proof -
  obtain p src a where prof: "Snapshot_Profile (ie_snapshot env) (req_Profile req) = Some p" "pf_Src p = Some src"
    "pr_App (src_Providers src) = Some a"
    and login: "observe_login env req p src a ((NewReply req VerdictAllow)\<lparr>rp_Reason := Some \<lparr>rsn_Code = CodeOK, rsn_Class = []\<rparr>\<rparr>) u = (Some (r, det), u')"
    using assms
    by (auto simp: observe_def learned_def Let_def split: option.splits if_splits dest!: observe_logout_reply)
  obtain user issued extra where learn: "learn_login env req a = Inr (user, issued, extra)"
    and s: "s = app_session env src user (Learn_Hash (de_sha256 (ie_decide env)) issued)"
    and writes: "ou_writes u' = ou_writes u @ [AddSession (lc_Sessions (src_List src)) (ps_ID s) (lc_TTL (src_List src)) (Learn_Reason user)]"
    using login assms(2)
    by (auto simp: observe_login_def learned_def on_list_def app_session_def Let_def split: sum.splits prod.splits option.splits)
  have issued: "Learn_Issued (de_ct (ie_decide env)) (responseHeaders env req) (ap_Cookie a) = (issued, True)"
    "observed_status req \<in> set (as_Status (al_Success (ap_Learn a)))"
    using learn by (auto simp: learn_login_def Learn_Succeeded_def Let_def split: prod.splits bool.splits sum.splits if_splits)
  then have "issued \<noteq> []" using issued_scan_found by (fastforce simp: Learn_Issued_def)
  with prof issued writes s show ?thesis
    by (intro exI [of _ p] exI [of _ src] exI [of _ a] exI [of _ issued])
      (auto simp: app_session_def openApp_def UserOf_Reason_trim)
qed

section \<open>Examples\<close>

definition sample_conf :: snapshot where
  "sample_conf = empty_snapshot\<lparr>sn_profiles := [''site'' \<mapsto> sample_profile ModeEnforce]\<rparr>"

definition sample_ienv :: inspector_env where
  "sample_ienv =
     \<lparr>ie_decide = sample_env, ie_Name = ''auth'', ie_Versions = [2], ie_snapshot = Some sample_conf, ie_store = None,
      ie_Put = (\<lambda>_ _ _. None), ie_header_json = (\<lambda>_. None), ie_json = (\<lambda>_. None), ie_request_json = (\<lambda>_. None),
      ie_reply_json = rp_Verdict, ie_event_json = (\<lambda>_. None), ie_sessions = None, ie_lists = Some (\<lambda>_. None),
      ie_Networked = (\<lambda>_. False), ie_geo = (\<lambda>_ _. Inr []), ie_forms = None, ie_Do = (\<lambda>_ _. Inl []),
      ie_Now = 1000 * second, ie_TS = [], ie_elapsed = 0\<rparr>"

definition nothing :: outside where
  "nothing = \<lparr>ou_submitted = [], ou_published = [], ou_writes = [], ou_puts = [], ou_audit = NewSink\<rparr>"

lemma sample_task_parts: "qt_Reply (sample_task n) = ''inbox''" "qt_Req (sample_task n) = sample_request" "req_RID sample_request = ''ab''"
    "ou_published nothing = []"
  by (simp_all add: sample_task_def sample_request_def nothing_def)

theorem every_message_answered_witness:
  "\<exists>r. ou_published (evaluate sample_ienv (sample_task 0) second [] nothing) = [(''inbox'', ie_reply_json sample_ienv r)] \<and>
     rp_RID r = ''ab''"
  using every_message_answered [of "''inbox''" "sample_task 0" sample_ienv "[]" nothing second "[]", THEN conjunct2]
  by (auto simp: sample_task_parts)

theorem failures_answer_error_witness:
  "\<exists>r. ou_published (evaluate sample_ienv (sample_task 0) second ReasonQueueLimit nothing) = [(''inbox'', ie_reply_json sample_ienv r)] \<and>
     rp_Verdict r = VerdictError"
  using failures_answer_error [of "sample_task 0" ReasonQueueLimit sample_ienv nothing second]
  by (simp add: sample_task_parts)

text \<open>A request that an earlier inspector asks to skip.\<close>

definition sample_skip :: action where
  "sample_skip = \<lparr>act_To = ''auth'', act_Do = DoSkip, act_Apply = [], act_Phase = [], act_Code = [], act_Delta = 0,
     act_Value = 0, act_Counter = [], act_Marker = [], act_Group = [], act_Set = [], act_TTL = None, act_When = [],
     act_Headers = None, act_Args = None, act_Body = None\<rparr>"

definition skipped_request :: request where
  "skipped_request = sample_request\<lparr>req_Prior := [\<lparr>pv_Phase = PhaseRequest, pv_Inspector = ''bot'', pv_Verdict = VerdictAllow,
     pv_Actions = [sample_skip]\<rparr>]\<rparr>"

lemma skipped_input: "store_input sample_ienv skipped_request (sample_profile ModeEnforce) =
    Some (Inr (base_input sample_ienv skipped_request (Some (sample_profile ModeEnforce))))"
  by (simp add: store_input_def Store_Pair_def Store_Headers_def argsOf_def sample_ienv_def skipped_request_def
      sample_request_def sample_profile_def base_input_def)

lemma skipped_check:
  "\<exists>res. Check sample_env (base_input sample_ienv skipped_request (Some (sample_profile ModeEnforce))) None = Some res \<and>
     rs_Verdict res = VerdictAllow \<and> \<not> rs_Inline res"
proof -
  let ?inp = "base_input sample_ienv skipped_request (Some (sample_profile ModeEnforce))"
  have own: "\<not> OwnPath (sample_profile ModeEnforce) ''/''"
    by (simp add: OwnPath_def sample_profile_def sample_source_def Learns_def under_login_def TrimRightBytes_def HasPrefix_def)
  have skip: "ask_skip (priorAsk (in_Prior ?inp) (sample_profile ModeEnforce))"
    by (simp add: base_input_def skipped_request_def sample_request_def priorAsk_def deliver_def sample_profile_def
        rule_takes_def sample_skip_def PriorRule_Accepts_def PriorRule_WantsAxis_def PriorRule_WantsCode_def Action_Scope_def Let_def)
  have o: "open_cred sample_env ?inp (sample_profile ModeEnforce) None = Some (None, CodeNoSession, [])"
    by (simp add: open_cred_def sample_profile_def sample_source_def openOwn_def base_input_def absent_def)
  have p: "in_Profile ?inp = Some (sample_profile ModeEnforce)" "in_URI ?inp = ''/''" "pf_Mode (sample_profile ModeEnforce) = ModeEnforce"
    "pf_Src (sample_profile ModeEnforce) = Some sample_source"
    by (simp_all add: base_input_def skipped_request_def sample_request_def sample_profile_def)
  show ?thesis
    using own skip o by (simp add: Check_def p without_session_def Let_def)
qed

lemma skipped_inspect: "\<exists>r det u'. inspect sample_ienv skipped_request 0 nothing = (Some (r, det), u') \<and> rp_Verdict r = VerdictAllow"
proof -
  obtain res where c: "Check sample_env (base_input sample_ienv skipped_request (Some (sample_profile ModeEnforce))) None = Some res"
    "rs_Verdict res = VerdictAllow" "\<not> rs_Inline res" using skipped_check by blast
  have snap: "Snapshot_Profile (ie_snapshot sample_ienv) (req_Profile skipped_request) = Some (sample_profile ModeEnforce)"
    "in_force (Some (sample_profile ModeEnforce))"
    by (simp_all add: Snapshot_Profile_def sample_ienv_def sample_conf_def skipped_request_def sample_request_def
        sample_profile_def in_force_def)
  have rules: "RulesFor (sample_profile ModeEnforce) e = []" for e by (simp add: RulesFor_def sample_profile_def)
  have fire: "fire_all sample_ienv (Some (sample_profile ModeEnforce)) res 0 addr nothing = (Inr [], nothing)" for addr
    by (simp add: fire_all_def fireEvent_def fireOverload_def rules)
  have "ie_decide sample_ienv = sample_env" "ie_sessions sample_ienv = None" by (simp_all add: sample_ienv_def)
  moreover have "req_Phase skipped_request \<noteq> PhaseResponse" by (simp add: skipped_request_def sample_request_def)
  ultimately show ?thesis
    using c fire by (simp add: inspect_def inspect_request_def snap skipped_input answer_def place_form_def Let_def)
qed

theorem allow_reply_needs_credential_witness: "asks_for (sample_profile ModeEnforce) (req_Prior skipped_request) DoSkip \<or>
    (\<exists>inp s. credential_valid sample_env inp sample_source None s)"
proof -
  obtain r det u' where i: "inspect sample_ienv skipped_request 0 nothing = (Some (r, det), u')" "rp_Verdict r = VerdictAllow"
    using skipped_inspect by blast
  have "\<not> OwnPath (sample_profile ModeEnforce) (http_URI (req_HTTP skipped_request))"
    by (simp add: skipped_request_def sample_request_def OwnPath_def sample_profile_def sample_source_def Learns_def
        under_login_def TrimRightBytes_def HasPrefix_def)
  from allow_reply_needs_credential [OF i(1) _ i(2) _ _ _ this, of sample_source] show ?thesis
    by (fastforce simp: skipped_request_def sample_request_def Snapshot_Profile_def sample_ienv_def sample_conf_def sample_profile_def)
qed

text \<open>A response of an application that sets its cookie.\<close>

definition sample_app :: app_provider where
  "sample_app = \<lparr>ap_Cookie = ''app'', ap_Learn = \<lparr>al_Login = \<lparr>ar_URI = ''/in'', ar_Method = ''POST''\<rparr>,
     al_Logout = \<lparr>ar_URI = [], ar_Method = []\<rparr>, al_Success = \<lparr>as_Status = [302], as_CookieNew = None, as_JSON = None\<rparr>,
     al_User = \<lparr>af_From = FieldHeader, af_Field = ''x-login''\<rparr>\<rparr>\<rparr>"

definition app_source :: source where
  "app_source = sample_source\<lparr>src_Provider := ProviderApp,
     src_Providers := (src_Providers sample_source)\<lparr>pr_App := Some sample_app\<rparr>,
     src_List := (src_List sample_source)\<lparr>lc_Sessions := ''apps'', lc_TTL := 60 * second\<rparr>\<rparr>"

definition app_env :: inspector_env where
  "app_env = sample_ienv\<lparr>ie_snapshot := Some (empty_snapshot\<lparr>sn_profiles := [''site'' \<mapsto> (sample_profile ModeEnforce)\<lparr>pf_Src := Some app_source\<rparr>]\<rparr>),
     ie_store := Some \<lparr>rd_Get = (\<lambda>_. Got ''H''), rd_MGet = (\<lambda>_. None)\<rparr>,
     ie_header_json := (\<lambda>_. Some [(''x-login'', ''alice'')])\<rparr>"

definition app_response :: request where
  "app_response = sample_request\<lparr>req_Phase := PhaseResponse, req_HTTP := \<lparr>http_Method = ''POST'', http_URI = ''/in''\<rparr>,
     req_Response := Some \<lparr>rsp_Status = 302, rsp_Headers = [(''set-cookie'', ''app=v1'')]\<rparr>,
     req_RequestStore := Some \<lparr>st_Headers = Some \<lparr>loc_Driver = ''redis'', loc_Key = ''k'', loc_Unavailable = [], loc_Encrypted = False\<rparr>,
       st_Args = None, st_Body = None\<rparr>\<rparr>"

lemma app_learns: "learn_login app_env app_response sample_app = Inr (''alice'', ''v1'', [(''sub'', EStr ''alice'')])"
proof -
  have trim: "TrimSpace ''app=v1'' = ''app=v1''" "TrimSpace ''app'' = ''app''" "TrimSpace ''v1'' = ''v1''" "TrimSpace ''alice'' = ''alice''"
    by (simp_all add: tidy_visible visible_def)
  have issued: "Learn_Issued (de_ct (ie_decide app_env)) (responseHeaders app_env app_response) (ap_Cookie sample_app) = (''v1'', True)"
    by (simp add: Learn_Issued_def responseHeaders_def app_response_def sample_request_def Locator_Placed_def sample_app_def
        setCookie_def trim EqualFold_def TrimBytes_def TrimRightBytes_def)
  have pairs: "requestHeaders app_env app_response = ([(''x-login'', ''alice'')], [])"
    by (simp add: requestHeaders_def app_response_def Store_Headers_def app_env_def Redis_Get_def)
  have content: "learn_content app_env app_response sample_app = Inr (None, [])"
    by (simp add: learn_content_def sample_app_def)
  have user: "Learn_Extract ct f (al_User (ap_Learn sample_app)) None [] [(''x-login'', ''alice'')] = Inr ''alice''" for ct f
    by (simp add: Learn_Extract_def sample_app_def EqualFold_def trim)
  have ok: "Learn_Succeeded f (al_Success (ap_Learn sample_app)) (observed_status app_response) body True" for f body
    by (simp add: Learn_Succeeded_def sample_app_def observed_status_def app_response_def RequiresCookieNew_def)
  have requested: "\<not> EqualFold (de_ct (ie_decide app_env)) ''x-login'' ''cookie''"
    by (simp add: app_env_def sample_ienv_def sample_env_def EqualFold_def ascii_tables_def ascii_lower_char_def)
  show ?thesis
    by (simp add: learn_login_def issued pairs content user ok requested Let_def)
qed

lemma app_observed: "\<exists>r det u'. observe app_env app_response nothing = (Some (r, det), u') \<and>
    rp_Sessions r = [app_session app_env app_source ''alice'' (Learn_Hash id ''v1'')]"
proof -
  have snap: "Snapshot_Profile (ie_snapshot app_env) (req_Profile app_response) = Some ((sample_profile ModeEnforce)\<lparr>pf_Src := Some app_source\<rparr>)"
    by (simp add: Snapshot_Profile_def app_env_def app_response_def sample_request_def)
  have src: "pf_Src ((sample_profile ModeEnforce)\<lparr>pf_Src := Some app_source\<rparr>) = Some app_source" by simp
  have app: "Learns app_source" "pr_App (src_Providers app_source) = Some sample_app"
    by (simp_all add: Learns_def app_source_def sample_app_def)
  have routes: "\<not> Learn_Matches ct (al_Logout (ap_Learn sample_app)) m i"
    "Learn_Matches ct (al_Login (ap_Learn sample_app)) (http_Method (req_HTTP app_response)) (http_URI (req_HTTP app_response))" for ct m i
    by (simp_all add: Learn_Matches_def sample_app_def app_response_def EqualFold_def)
  have env: "ie_lists app_env = Some (\<lambda>_. None)" "de_sha256 (ie_decide app_env) = id"
    by (simp_all add: app_env_def sample_ienv_def sample_env_def)
  show ?thesis
    by (simp add: observe_def snap src app routes observe_login_def app_learns on_list_def env learned_def Let_def)
qed

theorem learned_session_found_witness:
  "ou_writes (snd (observe app_env app_response nothing)) =
     [AddSession ''apps'' (Learn_Hash id ''v1'') (60 * second) (Learn_Reason ''alice'')]"
proof -
  obtain r det u' where o: "observe app_env app_response nothing = (Some (r, det), u')"
    and s: "rp_Sessions r = [app_session app_env app_source ''alice'' (Learn_Hash id ''v1'')]"
    using app_observed by blast
  have env: "Snapshot_Profile (ie_snapshot app_env) (req_Profile app_response) = Some ((sample_profile ModeEnforce)\<lparr>pf_Src := Some app_source\<rparr>)"
      "lc_Sessions (src_List app_source) = ''apps''" "lc_TTL (src_List app_source) = 60 * second" "ou_writes nothing = []"
    by (simp_all add: Snapshot_Profile_def app_env_def app_response_def sample_request_def app_source_def nothing_def)
  show ?thesis
    using learned_session_found [OF o s] by (auto simp: env o app_session_def)
qed

end
