(* ===== verification/Siphash_Spec.thy ===== *)
theory Siphash_Spec
  imports Siphash
begin

text \<open>
  SipHash-2-4 as its paper defines it (J.-P. Aumasson, D. J. Bernstein: SipHash, a fast short-input
  PRF), written without the functions of the program: its own round, its own reading of words and
  its own constants. The program's loop is proved to compute it.
\<close>

section \<open>The algorithm of the paper\<close>

definition le_value :: "bytes \<Rightarrow> nat" where
  "le_value s = (\<Sum>i<length s. byte_val (s ! i) * 256 ^ i)"

text \<open>The word at a place of a string, and the word that eight letters are.\<close>

definition word_at :: "bytes \<Rightarrow> nat \<Rightarrow> 64 word" where
  "word_at s i = of_nat (le_value (take 8 (drop i s)))"

definition letters :: "string \<Rightarrow> 64 word" where
  "letters s = of_nat (le_value (rev s))"

fun paper_round :: "64 word \<times> 64 word \<times> 64 word \<times> 64 word \<Rightarrow> 64 word \<times> 64 word \<times> 64 word \<times> 64 word" where
  "paper_round (v0, v1, v2, v3) =
     (let v0 = v0 + v1;               v2 = v2 + v3;
          v1 = word_rotl 13 v1;       v3 = word_rotl 16 v3;
          v1 = v1 XOR v0;             v3 = v3 XOR v2;
          v0 = word_rotl 32 v0;
          v2 = v2 + v1;               v0 = v0 + v3;
          v1 = word_rotl 17 v1;       v3 = word_rotl 21 v3;
          v1 = v1 XOR v2;             v3 = v3 XOR v0;
          v2 = word_rotl 32 v2
      in (v0, v1, v2, v3))"

text \<open>Two rounds for every word of the message, four at the end.\<close>

fun paper_absorb :: "64 word \<Rightarrow> 64 word \<times> 64 word \<times> 64 word \<times> 64 word \<Rightarrow> 64 word \<times> 64 word \<times> 64 word \<times> 64 word" where
  "paper_absorb m (v0, v1, v2, v3) =
     (case (paper_round ^^ 2) (v0, v1, v2, v3 XOR m) of (w0, w1, w2, w3) \<Rightarrow> (w0 XOR m, w1, w2, w3))"

fun paper_finish :: "64 word \<times> 64 word \<times> 64 word \<times> 64 word \<Rightarrow> 64 word" where
  "paper_finish (v0, v1, v2, v3) =
     (case (paper_round ^^ 4) (v0, v1, v2 XOR 0xff, v3) of (w0, w1, w2, w3) \<Rightarrow> w0 XOR w1 XOR w2 XOR w3)"

text \<open>The message ends in zeros up to the last byte of a block, which is the length modulo 256.\<close>

definition paper_pad :: "bytes \<Rightarrow> bytes" where
  "paper_pad b = b @ replicate (7 - length b mod 8) (CHR 0x00) @ [char_of (length b mod 256)]"

definition siphash_2_4 :: "bytes \<Rightarrow> bytes \<Rightarrow> 64 word" where
  "siphash_2_4 k b =
     (let k0 = word_at k 0; k1 = word_at k 8; p = paper_pad b
      in paper_finish (fold (\<lambda>i. paper_absorb (word_at p (8 * i))) [0 ..< length p div 8]
           (k0 XOR letters ''somepseu'', k1 XOR letters ''dorandom'',
            k0 XOR letters ''lygenera'', k1 XOR letters ''tedbytes'')))"


section \<open>The program computes it\<close>

lemma le_nat_value: "le_nat s = le_value s"
  by (induction s) (simp_all add: le_value_def sum.lessThan_Suc_shift sum_distrib_left ac_simps del: sum.lessThan_Suc)

lemma word_at_le64: "word_at s i = le64 (drop i s)"
  by (simp add: word_at_def le64_def le_nat_value)

lemma rotl_rotate:
  assumes k: "0 < k" "k < 64"
  shows "rotl x k = word_rotl k x"
proof (rule bit_word_eqI)
  fix n assume "n < LENGTH(64)"
  then have n: "n < 64" by simp
  have far: "\<not> bit x i" if "64 \<le> i" for i
    using that bit_imp_le_length [of x i] by auto
  show "bit (rotl x k) n \<longleftrightarrow> bit (word_rotl k x) n"
  proof (cases "k \<le> n")
    case True
    then have "(n + (64 - k)) mod 64 = n - k"
      using n k by (simp add: mod_if)
    moreover have "\<not> bit x (64 - k + n)" using far True by simp
    ultimately show ?thesis
      using True n k by (simp add: rotl_def bit_or_iff bit_push_bit_iff bit_drop_bit_eq bit_word_rotl_iff)
  next
    case False
    then have "n + (64 - k) < 64" using k by simp
    then have "(n + (64 - k)) mod 64 = 64 - k + n" by simp
    then show ?thesis
      using False n k by (simp add: rotl_def bit_or_iff bit_push_bit_iff bit_drop_bit_eq bit_word_rotl_iff)
  qed
qed

lemma sipRound_paper: "sipRound v = paper_round v"
  by (cases v) (simp add: rotl_rotate Let_def)

lemma sip_block_paper: "sip_block m v = paper_absorb m v"
  by (cases v) (simp add: sipRound_paper numeral_2_eq_2 del: sipRound.simps paper_round.simps)

lemma sip_finish_paper: "sip_finish v = paper_finish v"
  by (cases v) (simp add: sipRound_paper numeral_eq_Suc del: sipRound.simps paper_round.simps)

lemma letters_init:
  "letters ''somepseu'' = 0x736f6d6570736575" "letters ''dorandom'' = 0x646f72616e646f6d"
  "letters ''lygenera'' = 0x6c7967656e657261" "letters ''tedbytes'' = 0x7465646279746573"
  by (simp_all add: letters_def flip: le_nat_value)

lemma sip_init_paper:
  "sip_init k = (word_at k 0 XOR letters ''somepseu'', word_at k 8 XOR letters ''dorandom'',
     word_at k 0 XOR letters ''lygenera'', word_at k 8 XOR letters ''tedbytes'')"
  by (simp add: sip_init_def word_at_le64 letters_init le64_def Let_def)

lemma sip_words_at: "sip_words p = map (\<lambda>i. word_at p (8 * i)) [0 ..< length p div 8]"
proof (induction p rule: sip_words.induct)
  case (1 p)
  show ?case
  proof (cases "length p < 8")
    case True
    then show ?thesis by (simp add: sip_words.simps)
  next
    case False
    then have n: "length p div 8 = Suc (length (drop 8 p) div 8)"
      using le_div_geq [of 8 "length p"] by simp
    have "map (\<lambda>i. word_at p (8 * i)) [0 ..< length p div 8] =
        word_at p 0 # map (\<lambda>i. word_at (drop 8 p) (8 * i)) [0 ..< length (drop 8 p) div 8]"
      unfolding n by (simp add: upt_conv_Cons map_Suc_upt [symmetric] word_at_def add.commute del: upt_Suc)
    then show ?thesis
      using 1 False by (simp add: sip_words.simps [of p] word_at_le64)
  qed
qed

lemma SipHashBytes_paper: "SipHashBytes k b = siphash_2_4 k b"
proof -
  have "sip_pad b = paper_pad b" by (simp add: sip_pad_def paper_pad_def char_of_def)
  then show ?thesis
    by (simp add: SipHashBytes_padded siphash_2_4_def sip_words_at sip_init_paper sip_finish_paper sip_block_paper
        foldl_conv_fold fold_map comp_def Let_def del: sip_finish.simps sip_block.simps paper_finish.simps paper_absorb.simps)
qed

end
