(* ===== verification/List_Props.thy ===== *)
theory List_Props
  imports Livelist Siphash_Spec
begin

text \<open>
  What the mirror of a list promises: it says what the keeper published, it always comes to an
  end with what it is given, its hash is the published algorithm, and the packed form carries
  every list.
\<close>

section \<open>A list of one entry\<close>

definition sample_head :: pack_head where
  "sample_head = \<lparr>ph_kind = kindSnapshot, ph_typ = typeString, ph_flags = 0, ph_epoch = 5, ph_seq = 7, ph_hash = 0,
     ph_key = replicate 16 (CHR 0x00), ph_count = 1\<rparr>"

definition sample_entry :: pack_record where
  "sample_entry = \<lparr>pk_op = recAdd, pk_prefix = None, pk_value = ''sid'', pk_exp = 0, pk_reason = []\<rparr>"

definition sample_content :: content where
  "sample_content = ([''sid'' \<mapsto> \<lparr>lr_exp = 0, lr_reason = []\<rparr>], Map.empty)"

definition sample_world :: world where
  "sample_world = \<lparr>wd_now = 0, wd_Request = (\<lambda>_. Some (\<lparr>fr_V = frameVersion, fr_Set = [], fr_Epoch = [], fr_Seq = 0,
       fr_Op = opSnapshot, fr_Hash = [], fr_Key = [], fr_Package = [], fr_Inline = [], fr_Object = ''o'', fr_Count = 0\<rparr>, True)),
     wd_blobs = Some \<lparr>bl_Object = (\<lambda>_. Some (Some (pack sample_head [sample_entry]))), bl_Objects = (\<lambda>_. None)\<rparr>\<rparr>"

lemma sample_packable: "packable sample_head [sample_entry]"
  by (simp add: packable_def sample_head_def sample_entry_def record_ok_def int64_range_def typeString_def typeCIDR_def)

lemma sample_unpacks: "unpack (pack sample_head [sample_entry]) = Inr (sample_head, [sample_entry])"
  using sample_packable by (rule unpack_pack)

lemma sample_served: "served sample_world data \<Longrightarrow> data = pack sample_head [sample_entry]"
  by (auto simp: served_def sample_world_def)

lemma sample_typ: "typeString \<noteq> typeCIDR" "kindSnapshot \<noteq> kindPackage"
  by (simp_all add: typeString_def typeCIDR_def kindSnapshot_def kindPackage_def)

lemma sample_genuine: "genuine (\<lambda>_ _. sample_content) (pack sample_head [sample_entry])"
proof -
  have "content_all typeString [sample_entry] (Map.empty, Map.empty) = sample_content"
    by (simp add: content_all_def content_apply_def sample_entry_def sample_content_def sample_typ recAdd_def)
  then have "content_all (ph_typ sample_head) [sample_entry] (Map.empty, Map.empty) = sample_content"
    and "ph_kind sample_head \<noteq> kindPackage"
    using sample_typ by (simp_all add: sample_head_def)
  then show ?thesis by (simp add: genuine_def sample_unpacks)
qed

lemma sample_safe: "safe_world sample_world"
proof -
  have "record_safe (ph_typ sample_head) sample_entry" using sample_typ by (simp add: record_safe_def sample_head_def)
  then have "safe_data (pack sample_head [sample_entry])" by (simp add: safe_data_def sample_unpacks)
  then show ?thesis by (auto simp: safe_world_def dest!: sample_served)
qed

lemma sample_ready:
  "\<exists>st. Mirror_snapshot sample_world (newSet ''s'' 0) = Some st \<and> st_ready st"
proof -
  have "\<exists>c. apply_all k typeString [sample_entry] newComposition = Some c" for k
    by (simp add: comp_apply_def sample_typ)
  then obtain c where "apply_all (ph_key sample_head) (ph_typ sample_head) [sample_entry] newComposition = Some c"
    by (auto simp: sample_head_def)
  moreover have "ph_kind sample_head = kindSnapshot" by (simp add: sample_head_def)
  ultimately show ?thesis
    by (simp add: Mirror_snapshot_def snapshot_body_def newSet_def sample_world_def install_def sample_unpacks
        del: apply_all.simps)
qed


section \<open>Properties\<close>

text \<open>C7: A set that calls itself ready mirrors the keeper: as long as what arrives is what the keeper
  published, its contents are the published list of exactly the state (epoch and number) it names,
  its hash is the hash of that list, and an address is found in it exactly when a network of the
  list that has not expired holds it, through any sequence of frames, snapshots, packages and
  catch-ups.\<close>

theorem mirror_faithful:
  assumes "set_steps ok okf name st" "st_ready st"
    and "\<And>w data. ok w \<Longrightarrow> served w data \<Longrightarrow> genuine T data" "\<And>f data. okf f \<Longrightarrow> inline_data f data \<Longrightarrow> genuine T data"
  shows "content_of (st_comp st) = T (st_epoch st) (st_seq st) \<and>
    cm_hash (st_comp st) = comp_hash (st_key st) (T (st_epoch st) (st_seq st)) \<and>
    (containsAddr (st_comp st) ip now \<longleftrightarrow>
       (\<exists>p e. snd (T (st_epoch st) (st_seq st)) p = Some e \<and> list_alive e now \<and> addr_in (Unmap ip) p))"
proof -
  have c: "content_of (st_comp st) = T (st_epoch st) (st_seq st)"
    using faithful.set_steps_P [OF assms(3,4,1)] assms(2) by (simp add: mirrors_def)
  have "mset_ok st"
    using wf.set_steps_P [OF _ _ assms(1)] by simp
  then have ok: "comp_ok (st_key st) (st_comp st)" by (simp add: mset_ok_def)
  have "cm_nets (st_comp st) = snd (T (st_epoch st) (st_seq st))"
    using c by (metis content_of_def snd_conv)
  with c ok containsAddr_iff [OF ok] show ?thesis
    by (simp add: comp_ok_def)
qed

theorem mirror_faithful_witness:
  "\<exists>st. set_steps (\<lambda>w. w = sample_world) (\<lambda>_. False) ''s'' st \<and> content_of (st_comp st) = sample_content"
proof -
  obtain st where st: "Mirror_snapshot sample_world (newSet ''s'' 0) = Some st" "st_ready st" using sample_ready by blast
  have steps: "set_steps (\<lambda>w. w = sample_world) (\<lambda>_. False) ''s'' st"
    by (rule set_steps.start [OF refl st(1)])
  have "content_of (st_comp st) = sample_content"
    using mirror_faithful [OF steps st(2), where T = "\<lambda>_ _. sample_content"] sample_genuine sample_served by blast
  with steps show ?thesis by blast
qed

text \<open>C29: Handling a frame always comes to an end and never panics, however far behind the set is: every
  read of packages moves it forward or gives up, on objects whose networks have a length and a
  store that answers every key it is asked for.\<close>

theorem mirror_always_returns:
  assumes "safe_world w" "answers_reads w" "\<And>data. inline_data f data \<Longrightarrow> safe_data data"
    and "set_steps ok okf name st"
  shows "\<exists>st'. onFrame w st f = Some st'"
  using onFrame_returns_aux [OF assms(1,3,2)] wf.set_steps_P [OF _ _ assms(4)] by simp

theorem mirror_always_returns_witness: "\<exists>st st'. onFrame sample_world st resync_frame = Some st'"
proof -
  obtain st where "Mirror_snapshot sample_world (newSet ''s'' 0) = Some st" using sample_ready by blast
  then have "set_steps (\<lambda>w. w = sample_world) (\<lambda>_. False) ''s'' st" by (intro set_steps.start) auto
  from mirror_always_returns [OF sample_safe _ _ this, of resync_frame] show ?thesis
    by (auto simp: answers_reads_def sample_world_def inline_data_def resync_frame_def)
qed

text \<open>C36: The hash of the mirror's entries is SipHash-2-4: for every key and every text, the
  block-by-block loop with its packed last block computes the function of the algorithm's paper,
  which is written down on its own (its round with its rotations, two rounds for every word, four
  at the end, the constants as letters, the padding), and that function gives the published
  values of the reference implementation for the key \<open>00 .. 0f\<close> and the messages of no byte and
  of the fifteen bytes \<open>00 .. 0e\<close>.\<close>

theorem hash_is_siphash:
  "SipHashBytes k b = siphash_2_4 k b \<and>
   siphash_2_4 vector_key [] = 0x726fdb47dd0e0e31 \<and>
   siphash_2_4 vector_key (map char_of [0 :: nat ..< 15]) = 0xa129ca6149be45e5"
  using SipHash_vectors by (simp add: SipHashBytes_paper)

text \<open>The packed form carries every list: what the keeper packs is read back as it was, networks
  with their lengths, values, reasons and expiries included, and no input, however broken, makes
  the reader panic.\<close>

theorem pack_round_trip:
  "(packable h rs \<longrightarrow> unpack (pack h rs) = Inr (h, rs)) \<and> unpack data \<noteq> Inl PackPanic"
  using unpack_pack [of h rs] unpack_total [of data] by blast

theorem pack_round_trip_witness: "unpack (pack sample_head [sample_entry]) = Inr (sample_head, [sample_entry])"
  using pack_round_trip [of sample_head "[sample_entry]" "[]"] sample_packable by blast

end
