(* ===== verification/Secrets.thy ===== *)
theory Secrets
  imports Token Wafs
begin

text \<open>
  The client of the secret store (\<open>internal/secrets/secrets.go\<close>): the sealed envelope that the
  controller keeps, the key that opens it, and \<open>Get\<close> with its cache of fifteen minutes.

  \<open>secrets_env\<close> holds what the standard library does with keys and text: RSA-OAEP over SHA-256,
  AES-GCM (\<open>cipher.NewGCM\<close> itself cannot fail on an AES block), PEM and PKCS, the check of a URL
  and the JSON of the list of spaces. The key has the type \<open>'k\<close>. The controller is the answer to
  each request: its status, its body, and whether the body ended as it should.
\<close>

section \<open>The envelope\<close>

definition envelopeVersion :: char where "envelopeVersion = CHR 0x01"
definition nonceSize :: nat where "nonceSize = 12"
definition headerLen :: nat where "headerLen = 1 + 2"
definition cacheTTL :: duration where "cacheTTL = 15 * minute"

datatype envelope_error = EnvTooShort | EnvVersion char | EnvTruncated | EnvUnwrap | EnvDek | EnvOpen

record 'k secrets_env =
  xe_unwrap :: "'k \<Rightarrow> bytes \<Rightarrow> bytes option"
  xe_aes_gcm :: "bytes \<Rightarrow> aead"
  xe_pem :: "bytes \<Rightarrow> bytes option"
  xe_pkcs1 :: "bytes \<Rightarrow> 'k option"
  xe_pkcs8 :: "bytes \<Rightarrow> 'k option option"
  xe_ReadFile :: "string \<Rightarrow> bytes option"
  xe_url_ok :: "string \<Rightarrow> bool"
  xe_spaces :: "bytes \<Rightarrow> bool \<Rightarrow> (string \<times> string) list option"

text \<open>\<open>aes.NewCipher\<close> takes keys of these lengths.\<close>

definition aes_key :: "bytes \<Rightarrow> bool" where
  "aes_key dek \<longleftrightarrow> length dek \<in> {16, 24, 32}"

definition Envelope_Open :: "'k secrets_env \<Rightarrow> bytes \<Rightarrow> 'k \<Rightarrow> envelope_error + bytes" where
  "Envelope_Open env blob key =
     (if length blob < headerLen then Inl EnvTooShort
      else if blob ! 0 \<noteq> envelopeVersion then Inl (EnvVersion (blob ! 0))
      else
        (let wrappedLen = unat (be_word (take 2 (drop 1 blob)) :: 16 word)
         in if wrappedLen \<le> 0 \<or> length blob < headerLen + wrappedLen + nonceSize then Inl EnvTruncated
            else
              (let wrapped = take wrappedLen (drop headerLen blob);
                   nonce = take nonceSize (drop (headerLen + wrappedLen) blob);
                   ciphertext = drop (headerLen + wrappedLen + nonceSize) blob
               in case xe_unwrap env key wrapped of
                    None \<Rightarrow> Inl EnvUnwrap
                  | Some dek \<Rightarrow>
                      (if \<not> aes_key dek then Inl EnvDek
                       else (case gcm_Open (xe_aes_gcm env dek) nonce ciphertext [] of
                               None \<Rightarrow> Inl EnvOpen
                             | Some plain \<Rightarrow> Inr plain)))))"

text \<open>The form of an envelope: version, length of the wrapped key, wrapped key, nonce, ciphertext.\<close>

definition envelope :: "bytes \<Rightarrow> bytes \<Rightarrow> bytes \<Rightarrow> bytes" where
  "envelope wrapped nonce ciphertext =
     envelopeVersion # be_bytes 2 (of_nat (length wrapped) :: 16 word) @ wrapped @ nonce @ ciphertext"

lemma be_bytes_be_word:
  assumes "length (s :: bytes) = 2"
  shows "be_bytes 2 (be_word s :: 16 word) = s"
proof -
  obtain a b where s: "s = [a, b]"
    using assms by (metis One_nat_def Suc_1 length_0_conv length_Suc_conv)
  have "le_nat [b, a] < 2 ^ LENGTH(16)"
    using le_nat_less [of "[b, a]"] by simp
  then have "unat (of_nat (le_nat [b, a]) :: 16 word) = le_nat [b, a]"
    by (simp only: unat_of_nat mod_less)
  then have "unat (be_word s :: 16 word) = of_char b + 256 * of_char a"
    unfolding s be_word_def by simp
  then show ?thesis
    by (simp add: be_bytes_def s numeral_2_eq_2)
qed

lemma envelope_parts:
  assumes "length wrapped < 2 ^ 16" "length nonce = nonceSize"
  shows "envelope wrapped nonce ciphertext ! 0 = envelopeVersion"
    and "headerLen \<le> length (envelope wrapped nonce ciphertext)"
    and "be_word (take 2 (drop 1 (envelope wrapped nonce ciphertext))) = (of_nat (length wrapped) :: 16 word)"
    and "drop headerLen (envelope wrapped nonce ciphertext) = wrapped @ nonce @ ciphertext"
  by (simp_all add: envelope_def headerLen_def)

lemma cut_in_three: "take n s @ take m (drop n s) @ drop (n + m) s = s"
proof -
  have "take m (drop n s) @ drop m (drop n s) = drop n s" by (rule append_take_drop_id)
  then show ?thesis by (simp add: ac_simps)
qed

lemma split_envelope:
  assumes "headerLen \<le> length blob" "blob ! 0 = envelopeVersion"
    "headerLen + unat (be_word (take 2 (drop 1 blob)) :: 16 word) + nonceSize \<le> length blob"
  obtains wrapped nonce ciphertext where "blob = envelope wrapped nonce ciphertext"
    "length wrapped = unat (be_word (take 2 (drop 1 blob)) :: 16 word)" "length nonce = nonceSize"
proof
  let ?n = "unat (be_word (take 2 (drop 1 blob)) :: 16 word)"
  let ?w = "take ?n (drop headerLen blob)" and ?v = "take nonceSize (drop (headerLen + ?n) blob)"
    and ?c = "drop (headerLen + ?n + nonceSize) blob"
  show w: "length ?w = ?n" and "length ?v = nonceSize"
    using assms by simp_all
  have "?w @ ?v @ ?c = drop headerLen blob"
    using cut_in_three [of ?n "drop headerLen blob" nonceSize] by (simp add: ac_simps)
  moreover have "be_bytes 2 (of_nat (length ?w) :: 16 word) = take 2 (drop 1 blob)"
    using assms(1) unfolding w by (simp add: be_bytes_be_word headerLen_def)
  moreover have "blob = blob ! 0 # take 2 (drop 1 blob) @ drop headerLen blob"
    using assms(1) by (cases blob) (auto simp: headerLen_def numeral_2_eq_2 numeral_3_eq_3)
  ultimately show "blob = envelope ?w ?v ?c"
    unfolding envelope_def using assms(2) by metis
qed

lemma envelope_opens:
  assumes "blob = envelope wrapped nonce ciphertext" "wrapped \<noteq> []" "length wrapped < 2 ^ 16" "length nonce = nonceSize"
  shows "Envelope_Open env blob key =
    (case xe_unwrap env key wrapped of
       None \<Rightarrow> Inl EnvUnwrap
     | Some dek \<Rightarrow>
         (if \<not> aes_key dek then Inl EnvDek
          else (case gcm_Open (xe_aes_gcm env dek) nonce ciphertext [] of
                  None \<Rightarrow> Inl EnvOpen
                | Some plain \<Rightarrow> Inr plain)))"
proof -
  note parts = envelope_parts [OF assms(3,4), of ciphertext, folded assms(1)]
  have n: "unat (of_nat (length wrapped) :: 16 word) = length wrapped"
    using assms(3) by (simp add: unat_of_nat)
  have "length blob = headerLen + length wrapped + nonceSize + length ciphertext"
    by (simp add: assms(1,4) envelope_def headerLen_def)
  moreover have drop: "drop (headerLen + k) blob = drop k (wrapped @ nonce @ ciphertext)" for k
    by (metis parts(4) drop_drop add.commute)
  have "drop (headerLen + length wrapped) blob = nonce @ ciphertext"
    and "drop (headerLen + length wrapped + nonceSize) blob = ciphertext"
    using drop [of "length wrapped"] drop [of "length wrapped + nonceSize"] assms(4) by (simp_all add: add.assoc)
  ultimately show ?thesis
    using parts assms(2,4) unfolding Envelope_Open_def Let_def parts(3) n by (simp split: option.split)
qed


section \<open>The key\<close>

datatype key_error = KeyRead | KeyNotPem | KeyParse | KeyNotRSA

definition LoadKey :: "'k secrets_env \<Rightarrow> bytes \<Rightarrow> key_error + 'k" where
  "LoadKey env raw =
     (case xe_pem env raw of
        None \<Rightarrow> Inl KeyNotPem
      | Some block \<Rightarrow>
          (case xe_pkcs1 env block of
             Some key \<Rightarrow> Inr key
           | None \<Rightarrow>
               (case xe_pkcs8 env block of
                  None \<Rightarrow> Inl KeyParse
                | Some None \<Rightarrow> Inl KeyNotRSA
                | Some (Some key) \<Rightarrow> Inr key)))"


section \<open>The store\<close>

record secret_entry =
  et_value :: string
  et_at :: time

record 'k secret_store =
  sx_base :: string
  sx_scope :: string
  sx_space :: string
  sx_key :: 'k
  sx_cache :: "string \<Rightarrow> secret_entry option"

text \<open>\<open>None\<close> inside is the nil store: secrets are not configured.\<close>

definition Secrets_New :: "'k secrets_env \<Rightarrow> string \<Rightarrow> string \<Rightarrow> string \<Rightarrow> key_error + 'k secret_store option" where
  "Secrets_New env base scope keyFile =
     (let (space, scope) =
        (if HasPrefix scope ''name:'' then (drop (length ''name:'') scope, []) else (''default'', scope))
      in if base = [] \<or> keyFile = [] then Inr None
         else (case xe_ReadFile env keyFile of
                 None \<Rightarrow> Inl KeyRead
               | Some raw \<Rightarrow>
                   (case LoadKey env raw of
                      Inl e \<Rightarrow> Inl e
                    | Inr key \<Rightarrow>
                        Inr (Some \<lparr>sx_base = TrimRightBytes ''/'' base, sx_scope = scope, sx_space = space,
                          sx_key = key, sx_cache = Map.empty\<rparr>))))"

definition cached :: "time \<Rightarrow> 'k secret_store \<Rightarrow> string \<Rightarrow> string option" where
  "cached now s ref =
     (case sx_cache s ref of
        None \<Rightarrow> None
      | Some e \<Rightarrow> if now - et_at e > cacheTTL then None else Some (et_value e))"

definition Store_remember :: "time \<Rightarrow> string \<Rightarrow> string \<Rightarrow> 'k secret_store \<Rightarrow> 'k secret_store" where
  "Store_remember now ref v s = s\<lparr>sx_cache := (sx_cache s)(ref \<mapsto> \<lparr>et_value = v, et_at = now\<rparr>)\<rparr>"


section \<open>Asking the controller\<close>

record http_response =
  hr_Status :: int
  hr_Body :: bytes
  hr_Clean :: bool

datatype secret_error = NotConfigured | EmptyReference | BadRequest | NoAnswer | BadStatus int | BadBody
  | BadEnvelope envelope_error | NoSpace

definition bodyLimit :: nat where "bodyLimit = 2 ^ 20"

text \<open>\<open>io.ReadAll(io.LimitReader(body, 1<<20))\<close>: an error past the limit is not seen.\<close>

definition read_limited :: "http_response \<Rightarrow> bytes option" where
  "read_limited r =
     (if bodyLimit \<le> length (hr_Body r) then Some (take bodyLimit (hr_Body r))
      else if hr_Clean r then Some (hr_Body r) else None)"

definition blob_url :: "'k secret_store \<Rightarrow> string \<Rightarrow> string \<Rightarrow> string" where
  "blob_url s scope ref = sx_base s @ ''/api/'' @ scope @ ''/store/'' @ ref @ ''/blob''"

definition spaces_url :: "'k secret_store \<Rightarrow> string" where
  "spaces_url s = sx_base s @ ''/api/spaces''"

definition fetched :: "'k secrets_env \<Rightarrow> 'k secret_store \<Rightarrow> string \<Rightarrow> http_response option \<Rightarrow> secret_error + string" where
  "fetched env s url res =
     (if \<not> xe_url_ok env url then Inl BadRequest
      else case res of
        None \<Rightarrow> Inl NoAnswer
      | Some r \<Rightarrow>
          (if hr_Status r \<noteq> 200 then Inl (BadStatus (hr_Status r))
           else (case read_limited r of
                   None \<Rightarrow> Inl BadBody
                 | Some blob \<Rightarrow>
                     (case Envelope_Open env blob (sx_key s) of
                        Inl e \<Rightarrow> Inl (BadEnvelope e)
                      | Inr plain \<Rightarrow> Inr (TrimRightBytes [CHR 0x0D, CHR 0x0A] plain)))))"

text \<open>What \<open>resolveScope\<close> makes of the list of spaces.\<close>

definition resolved :: "'k secrets_env \<Rightarrow> 'k secret_store \<Rightarrow> http_response option \<Rightarrow> secret_error + string" where
  "resolved env s res =
     (if \<not> xe_url_ok env (spaces_url s) then Inl BadRequest
      else case res of
        None \<Rightarrow> Inl NoAnswer
      | Some r \<Rightarrow>
          (if hr_Status r \<noteq> 200 then Inl (BadStatus (hr_Status r))
           else (case xe_spaces env (take bodyLimit (hr_Body r)) (hr_Clean r \<or> bodyLimit \<le> length (hr_Body r)) of
                   None \<Rightarrow> Inl BadBody
                 | Some spaces \<Rightarrow>
                     (case find (\<lambda>sp. snd sp = sx_space s) spaces of
                        None \<Rightarrow> Inl NoSpace
                      | Some sp \<Rightarrow> Inr (fst sp)))))"

definition resolveScope :: "'k secrets_env \<Rightarrow> (string \<Rightarrow> http_response option) \<Rightarrow> 'k secret_store \<Rightarrow>
    (secret_error + string) \<times> 'k secret_store" where
  "resolveScope env serve s =
     (if sx_scope s \<noteq> [] then (Inr (sx_scope s), s)
      else (case resolved env s (serve (spaces_url s)) of
              Inl e \<Rightarrow> (Inl e, s)
            | Inr uuid \<Rightarrow> (Inr uuid, s\<lparr>sx_scope := uuid\<rparr>)))"

text \<open>\<open>Get\<close> by itself: \<open>now\<close> is when the cache is asked, \<open>then'\<close> when the value is kept.\<close>

definition Secrets_Get :: "'k secrets_env \<Rightarrow> (string \<Rightarrow> http_response option) \<Rightarrow> time \<Rightarrow> time \<Rightarrow> string \<Rightarrow>
    'k secret_store option \<Rightarrow> (secret_error + string) \<times> 'k secret_store option" where
  "Secrets_Get env serve now then' ref st =
     (case st of
        None \<Rightarrow> (Inl NotConfigured, None)
      | Some s \<Rightarrow>
          (if ref = [] then (Inl EmptyReference, Some s)
           else (case cached now s ref of
                   Some v \<Rightarrow> (Inr v, Some s)
                 | None \<Rightarrow>
                     (case resolveScope env serve s of
                        (Inl e, s) \<Rightarrow> (Inl e, Some s)
                      | (Inr scope, s) \<Rightarrow>
                          (case fetched env s (blob_url s scope ref) (serve (blob_url s scope ref)) of
                             Inl e \<Rightarrow> (Inl e, Some s)
                           | Inr v \<Rightarrow> (Inr v, Some (Store_remember then' ref v s)))))))"


section \<open>Concurrent calls\<close>

text \<open>
  The store is shared by every request. Between the critical sections of one \<open>Get\<close> (asking the
  cache, reading the scope, writing it, keeping the value) others run. A call is at one of these
  points; \<open>Answered\<close> carries the time at which the value was in hand. \<open>sr_served\<close> records what
  the controller answered, with the time.
\<close>

datatype secret_call =
    Unscoped string
  | Resolving string
  | Asking string string
  | Keeping string string
  | Answered string time "secret_error + string"

record 'k secrets_run =
  sr_now :: time
  sr_store :: "'k secret_store"
  sr_calls :: "secret_call list"
  sr_served :: "(time \<times> string \<times> http_response) set"

definition get_start :: "time \<Rightarrow> 'k secret_store \<Rightarrow> string \<Rightarrow> secret_call" where
  "get_start now s ref =
     (if ref = [] then Answered ref now (Inl EmptyReference)
      else (case cached now s ref of
              Some v \<Rightarrow> Answered ref now (Inr v)
            | None \<Rightarrow> Unscoped ref))"

definition get_scope :: "'k secret_store \<Rightarrow> string \<Rightarrow> secret_call" where
  "get_scope s ref = (if sx_scope s \<noteq> [] then Asking ref (sx_scope s) else Resolving ref)"

definition served_at :: "time \<Rightarrow> string \<Rightarrow> http_response option \<Rightarrow> (time \<times> string \<times> http_response) set" where
  "served_at now url res = (case res of None \<Rightarrow> {} | Some r \<Rightarrow> {(now, url, r)})"

inductive secret_step :: "'k secrets_env \<Rightarrow> 'k secrets_run \<Rightarrow> 'k secrets_run \<Rightarrow> bool" for env where
  pass: "sr_now r \<le> t \<Longrightarrow> secret_step env r (r\<lparr>sr_now := t\<rparr>)"
| called: "secret_step env r (r\<lparr>sr_calls := sr_calls r @ [get_start (sr_now r) (sr_store r) ref]\<rparr>)"
| scoped: "\<lbrakk>i < length (sr_calls r); sr_calls r ! i = Unscoped ref\<rbrakk> \<Longrightarrow>
    secret_step env r (r\<lparr>sr_calls := (sr_calls r)[i := get_scope (sr_store r) ref]\<rparr>)"
| unresolved: "\<lbrakk>i < length (sr_calls r); sr_calls r ! i = Resolving ref; resolved env (sr_store r) res = Inl e\<rbrakk> \<Longrightarrow>
    secret_step env r (r\<lparr>sr_calls := (sr_calls r)[i := Answered ref (sr_now r) (Inl e)],
      sr_served := sr_served r \<union> served_at (sr_now r) (spaces_url (sr_store r)) res\<rparr>)"
| resolve: "\<lbrakk>i < length (sr_calls r); sr_calls r ! i = Resolving ref; resolved env (sr_store r) res = Inr uuid\<rbrakk> \<Longrightarrow>
    secret_step env r (r\<lparr>sr_calls := (sr_calls r)[i := Asking ref uuid], sr_store := (sr_store r)\<lparr>sx_scope := uuid\<rparr>,
      sr_served := sr_served r \<union> served_at (sr_now r) (spaces_url (sr_store r)) res\<rparr>)"
| refused: "\<lbrakk>i < length (sr_calls r); sr_calls r ! i = Asking ref scope;
    fetched env (sr_store r) (blob_url (sr_store r) scope ref) res = Inl e\<rbrakk> \<Longrightarrow>
    secret_step env r (r\<lparr>sr_calls := (sr_calls r)[i := Answered ref (sr_now r) (Inl e)],
      sr_served := sr_served r \<union> served_at (sr_now r) (blob_url (sr_store r) scope ref) res\<rparr>)"
| fetch: "\<lbrakk>i < length (sr_calls r); sr_calls r ! i = Asking ref scope;
    fetched env (sr_store r) (blob_url (sr_store r) scope ref) res = Inr v\<rbrakk> \<Longrightarrow>
    secret_step env r (r\<lparr>sr_calls := (sr_calls r)[i := Keeping ref v],
      sr_served := sr_served r \<union> served_at (sr_now r) (blob_url (sr_store r) scope ref) res\<rparr>)"
| keep: "\<lbrakk>i < length (sr_calls r); sr_calls r ! i = Keeping ref v\<rbrakk> \<Longrightarrow>
    secret_step env r (r\<lparr>sr_calls := (sr_calls r)[i := Answered ref (sr_now r) (Inr v)],
      sr_store := Store_remember (sr_now r) ref v (sr_store r)\<rparr>)"

inductive secret_steps :: "'k secrets_env \<Rightarrow> 'k secret_store \<Rightarrow> 'k secrets_run \<Rightarrow> bool" for env s where
  start: "sx_cache s = Map.empty \<Longrightarrow> secret_steps env s \<lparr>sr_now = t, sr_store = s, sr_calls = [], sr_served = {}\<rparr>"
| step: "secret_steps env s r \<Longrightarrow> secret_step env r r' \<Longrightarrow> secret_steps env s r'"

text \<open>
  The scopes that calls may ask in: the configured one, or one that the controller gave under the
  configured name. A value comes from the controller when an answer for its reference in such a
  scope, opened with the key, says it.
\<close>

definition scope_known :: "'k secrets_env \<Rightarrow> 'k secret_store \<Rightarrow> (time \<times> string \<times> http_response) set \<Rightarrow> string \<Rightarrow> bool" where
  "scope_known env s served scope \<longleftrightarrow> scope = sx_scope s \<or>
     (\<exists>t res. (t, spaces_url s, res) \<in> served \<and> resolved env s (Some res) = Inr scope)"

definition comes_from :: "'k secrets_env \<Rightarrow> 'k secret_store \<Rightarrow> (time \<times> string \<times> http_response) set \<Rightarrow> time \<Rightarrow>
    string \<Rightarrow> string \<Rightarrow> bool" where
  "comes_from env s served at ref v \<longleftrightarrow>
     (\<exists>t scope res. t \<le> at \<and> scope_known env s served scope \<and> (t, blob_url s scope ref, res) \<in> served \<and>
        fetched env s (blob_url s scope ref) (Some res) = Inr v)"

fun call_ok :: "'k secrets_env \<Rightarrow> 'k secret_store \<Rightarrow> (time \<times> string \<times> http_response) set \<Rightarrow> time \<Rightarrow> secret_call \<Rightarrow> bool" where
  "call_ok env s served now (Asking ref scope) = scope_known env s served scope"
| "call_ok env s served now (Keeping ref v) = comes_from env s served now ref v"
| "call_ok env s served now (Answered ref t (Inr v)) =
     (t \<le> now \<and> (\<exists>at. at \<le> t \<and> t - at \<le> cacheTTL \<and> comes_from env s served at ref v))"
| "call_ok env s served now c = True"

definition same_place :: "'k secret_store \<Rightarrow> 'k secret_store \<Rightarrow> bool" where
  "same_place s s' \<longleftrightarrow> sx_base s' = sx_base s \<and> sx_space s' = sx_space s \<and> sx_key s' = sx_key s"

definition run_ok :: "'k secrets_env \<Rightarrow> 'k secret_store \<Rightarrow> 'k secrets_run \<Rightarrow> bool" where
  "run_ok env s r \<longleftrightarrow> same_place s (sr_store r) \<and>
     (sx_scope (sr_store r) \<noteq> [] \<longrightarrow> scope_known env s (sr_served r) (sx_scope (sr_store r))) \<and>
     (\<forall>ref e. sx_cache (sr_store r) ref = Some e \<longrightarrow>
        et_at e \<le> sr_now r \<and> comes_from env s (sr_served r) (et_at e) ref (et_value e)) \<and>
     (\<forall>c \<in> set (sr_calls r). call_ok env s (sr_served r) (sr_now r) c)"

lemma same_place_eqs:
  assumes "same_place s s'"
  shows "blob_url s' = blob_url s" "spaces_url s' = spaces_url s" "fetched env s' = fetched env s" "resolved env s' = resolved env s"
proof -
  note eqs = assms [unfolded same_place_def]
  show "blob_url s' = blob_url s" by (intro ext) (simp add: blob_url_def eqs)
  show "spaces_url s' = spaces_url s" by (simp add: spaces_url_def eqs)
  then show "resolved env s' = resolved env s" by (intro ext) (simp only: resolved_def eqs)
  show "fetched env s' = fetched env s" by (intro ext) (simp only: fetched_def eqs)
qed

lemma scope_known_mono: "scope_known env s served scope \<Longrightarrow> served \<subseteq> served' \<Longrightarrow> scope_known env s served' scope"
  unfolding scope_known_def by blast

lemma comes_from_mono: "comes_from env s served at ref v \<Longrightarrow> served \<subseteq> served' \<Longrightarrow> at \<le> at' \<Longrightarrow> comes_from env s served' at' ref v"
  unfolding comes_from_def by (meson order_trans subsetD scope_known_mono)

lemma call_ok_mono: "call_ok env s served now c \<Longrightarrow> served \<subseteq> served' \<Longrightarrow> now \<le> now' \<Longrightarrow> call_ok env s served' now' c"
  by (cases "(env, s, served, now, c)" rule: call_ok.cases)
    (auto intro: scope_known_mono comes_from_mono intro!: exI)

text \<open>A step moves one call and grows what was served; what it must show is about that call only.\<close>

lemma run_ok_cache:
  "run_ok env s r \<Longrightarrow> sx_cache (sr_store r) ref = Some e \<Longrightarrow>
     et_at e \<le> sr_now r \<and> comes_from env s (sr_served r) (et_at e) ref (et_value e)"
  by (auto simp: run_ok_def)

lemma run_ok_move:
  assumes "run_ok env s r" "sr_served r \<subseteq> served" "call_ok env s served (sr_now r) c"
  shows "run_ok env s (r\<lparr>sr_calls := (sr_calls r)[i := c], sr_served := served\<rparr>)"
proof -
  have "call_ok env s served (sr_now r) d" if "d \<in> set ((sr_calls r)[i := c])" for d
    using that assms set_update_subset_insert [of "sr_calls r" i c]
    by (auto simp: run_ok_def intro: call_ok_mono)
  moreover have "et_at e \<le> sr_now r \<and> comes_from env s served (et_at e) ref (et_value e)"
    if "sx_cache (sr_store r) ref = Some e" for ref e
    using run_ok_cache [OF assms(1) that] comes_from_mono [OF _ assms(2) order_refl] by blast
  moreover have "scope_known env s served (sx_scope (sr_store r))" if "sx_scope (sr_store r) \<noteq> []"
    using assms(1) that scope_known_mono [OF _ assms(2)] by (auto simp: run_ok_def)
  ultimately show ?thesis
    using assms(1) unfolding run_ok_def by simp
qed

lemma secret_step_ok: "secret_step env r r' \<Longrightarrow> run_ok env s r \<Longrightarrow> run_ok env s r'"
proof (induction rule: secret_step.induct)
  case (pass r t)
  then show ?case
    unfolding run_ok_def by (fastforce intro: call_ok_mono)
next
  case (called r ref)
  have "call_ok env s (sr_served r) (sr_now r) (get_start (sr_now r) (sr_store r) ref)"
    using run_ok_cache [OF called, of ref] unfolding get_start_def cached_def
    by (auto split: option.splits simp: not_less cacheTTL_def minute_def second_def)
  with called show ?case by (auto simp: run_ok_def)
next
  case (scoped i r ref)
  have "call_ok env s (sr_served r) (sr_now r) (get_scope (sr_store r) ref)"
    using scoped by (auto simp: run_ok_def get_scope_def)
  from run_ok_move [OF scoped(3) subset_refl this, where i = i] show ?case by simp
next
  case (unresolved i r ref res e)
  show ?case by (rule run_ok_move [OF unresolved(4)]) auto
next
  case (resolve i r ref res uuid)
  then obtain x where x: "res = Some x" by (cases res) (auto simp: resolved_def split: if_splits)
  have "scope_known env s (sr_served r \<union> served_at (sr_now r) (spaces_url (sr_store r)) res) uuid"
    using resolve same_place_eqs [of s "sr_store r"]
    by (auto simp: scope_known_def served_at_def x run_ok_def)
  from run_ok_move [OF resolve(4), where served = "sr_served r \<union> served_at (sr_now r) (spaces_url (sr_store r)) res"
      and c = "Asking ref uuid" and i = i] this
  show ?case by (auto simp: run_ok_def same_place_def)
next
  case (refused i r ref scope res e)
  show ?case by (rule run_ok_move [OF refused(4)]) auto
next
  case (fetch i r ref scope res v)
  then obtain x where x: "res = Some x" by (cases res) (auto simp: fetched_def split: if_splits)
  let ?served = "sr_served r \<union> served_at (sr_now r) (blob_url (sr_store r) scope ref) res"
  have "call_ok env s (sr_served r) (sr_now r) (Asking ref scope)"
    using fetch nth_mem [OF fetch(1)] by (auto simp: run_ok_def)
  then have "comes_from env s ?served (sr_now r) ref v"
    using fetch same_place_eqs [of s "sr_store r"]
    unfolding comes_from_def by (intro exI [of _ "sr_now r"] exI [of _ scope] exI [of _ x])
      (auto simp: x served_at_def run_ok_def intro: scope_known_mono)
  then show ?case by (intro run_ok_move [OF fetch(4)]) auto
next
  case (keep i r ref v)
  have v: "comes_from env s (sr_served r) (sr_now r) ref v"
    using keep nth_mem [OF keep(1)] by (auto simp: run_ok_def)
  then have "call_ok env s (sr_served r) (sr_now r) (Answered ref (sr_now r) (Inr v))"
    by (auto simp: cacheTTL_def minute_def second_def)
  from run_ok_move [OF keep(3) subset_refl this, where i = i] v show ?case
    by (auto simp: run_ok_def Store_remember_def same_place_def)
qed

lemma secret_steps_ok: "secret_steps env s r \<Longrightarrow> run_ok env s r"
proof (induction rule: secret_steps.induct)
  case (start t)
  then show ?case by (simp add: run_ok_def same_place_def scope_known_def)
qed (rule secret_step_ok)


text \<open>\<open>Get\<close> by itself is one of these runs.\<close>

lemma Secrets_Get_run:
  assumes "secret_steps env s r" "sr_now r \<le> then'"
    and "Secrets_Get env serve (sr_now r) then' ref (Some (sr_store r)) = (res, st')"
  shows "\<exists>r' t. secret_steps env s r' \<and> st' = Some (sr_store r') \<and> sr_calls r' \<noteq> [] \<and> last (sr_calls r') = Answered ref t res"
proof -
  let ?n = "length (sr_calls r)"
  define r1 where "r1 = r\<lparr>sr_calls := sr_calls r @ [get_start (sr_now r) (sr_store r) ref]\<rparr>"
  have r1: "secret_steps env s r1"
    unfolding r1_def by (rule secret_steps.step [OF assms(1) secret_step.called])
  show ?thesis
  proof (cases "ref = [] \<or> cached (sr_now r) (sr_store r) ref \<noteq> None")
    case True
    then show ?thesis
      using assms(3) by (intro exI [of _ r1] exI [of _ "sr_now r"] conjI [OF r1])
        (auto simp: r1_def get_start_def Secrets_Get_def split: if_splits)
  next
    case False
    then have at1: "?n < length (sr_calls r1)" "sr_calls r1 ! ?n = Unscoped ref"
      and same1: "sr_store r1 = sr_store r" "sr_now r1 = sr_now r" "length (sr_calls r1) = Suc ?n"
      by (auto simp: r1_def get_start_def)
    define r2 where "r2 = r1\<lparr>sr_calls := (sr_calls r1)[?n := get_scope (sr_store r1) ref]\<rparr>"
    have r2: "secret_steps env s r2"
      unfolding r2_def by (rule secret_steps.step [OF r1 secret_step.scoped [OF at1]])
    have at2: "?n < length (sr_calls r2)" "sr_calls r2 ! ?n = get_scope (sr_store r) ref"
      and same2: "sr_store r2 = sr_store r" "sr_now r2 = sr_now r" "length (sr_calls r2) = Suc ?n"
      using same1 by (auto simp: r2_def)
    have last_set: "last (cs[?n := c]) = c" if "length cs = Suc ?n" for cs and c :: secret_call
      using that by (cases cs rule: rev_cases) (auto simp: list_update_append)
    let ?ends = "\<lambda>res st'. \<exists>r' t. secret_steps env s r' \<and> st' = Some (sr_store r') \<and> sr_calls r' \<noteq> [] \<and> last (sr_calls r') = Answered ref t res"
    have asked: "?ends (fst g) (snd g)"
      if r3: "secret_steps env s r3" "sr_calls r3 ! ?n = Asking ref scope" "length (sr_calls r3) = Suc ?n" "sr_now r3 = sr_now r"
        and g: "g = (case fetched env (sr_store r3) (blob_url (sr_store r3) scope ref) (serve (blob_url (sr_store r3) scope ref)) of
          Inl e \<Rightarrow> (Inl e, Some (sr_store r3)) | Inr v \<Rightarrow> (Inr v, Some (Store_remember then' ref v (sr_store r3))))"
      for r3 scope g
    proof -
      have ne: "sr_calls r3 \<noteq> []" using r3(3) by auto
      show ?thesis
    proof (cases "fetched env (sr_store r3) (blob_url (sr_store r3) scope ref) (serve (blob_url (sr_store r3) scope ref))")
      case (Inl e)
      let ?r4 = "r3\<lparr>sr_calls := (sr_calls r3)[?n := Answered ref (sr_now r3) (Inl e)], sr_served := sr_served r3 \<union>
        served_at (sr_now r3) (blob_url (sr_store r3) scope ref) (serve (blob_url (sr_store r3) scope ref))\<rparr>"
      have "secret_steps env s ?r4"
        using r3(3) by (intro secret_steps.step [OF r3(1) secret_step.refused [OF _ r3(2) Inl]]) simp
      then show ?thesis
        using r3(3) ne Inl g last_set by (intro exI [of _ ?r4] exI [of _ "sr_now r3"]) simp
    next
      case (Inr v)
      let ?r4 = "r3\<lparr>sr_calls := (sr_calls r3)[?n := Keeping ref v], sr_served := sr_served r3 \<union>
        served_at (sr_now r3) (blob_url (sr_store r3) scope ref) (serve (blob_url (sr_store r3) scope ref))\<rparr>"
      have "secret_steps env s ?r4"
        using r3 by (intro secret_steps.step [OF r3(1) secret_step.fetch [OF _ r3(2) Inr]]) simp
      then have "secret_steps env s (?r4\<lparr>sr_now := then'\<rparr>)"
        using assms(2) r3(4) by (intro secret_steps.step [OF _ secret_step.pass]) auto
      moreover let ?r5 = "?r4\<lparr>sr_now := then', sr_calls := (sr_calls r3)[?n := Answered ref then' (Inr v)],
          sr_store := Store_remember then' ref v (sr_store r3)\<rparr>"
      have "secret_step env (?r4\<lparr>sr_now := then'\<rparr>) ?r5"
        using secret_step.keep [of ?n "?r4\<lparr>sr_now := then'\<rparr>" ref v env] r3(3) by simp
      ultimately have "secret_steps env s ?r5"
        by (rule secret_steps.step)
      then show ?thesis
        using r3(3) ne Inr g last_set by (intro exI [of _ ?r5] exI [of _ then']) simp
    qed
    qed
    show ?thesis
    proof (cases "sx_scope (sr_store r) = []")
      case scope: False
      then show ?thesis
        using asked [OF r2, of "sx_scope (sr_store r)"] at2 same2 False assms(3)
        by (simp add: get_scope_def Secrets_Get_def resolveScope_def split: sum.splits)
    next
      case scope: True
      then have "sr_calls r2 ! ?n = Resolving ref"
        using at2 by (simp add: get_scope_def)
      note resolving = at2(1) this
      let ?res = "serve (spaces_url (sr_store r2))"
      show ?thesis
      proof (cases "resolved env (sr_store r2) ?res")
        case (Inl e)
        let ?r3 = "r2\<lparr>sr_calls := (sr_calls r2)[?n := Answered ref (sr_now r2) (Inl e)],
          sr_served := sr_served r2 \<union> served_at (sr_now r2) (spaces_url (sr_store r2)) ?res\<rparr>"
        have "secret_steps env s ?r3"
          by (rule secret_steps.step [OF r2 secret_step.unresolved [OF resolving Inl]])
        then show ?thesis
          using Inl same2 scope False assms(3) last_set
          by (intro exI [of _ ?r3] exI [of _ "sr_now r2"]) (auto simp: Secrets_Get_def resolveScope_def)
      next
        case (Inr uuid)
        from asked [OF secret_steps.step [OF r2 secret_step.resolve [OF resolving Inr]], of uuid] Inr same2 scope False assms(3)
        show ?thesis
          by (simp add: Secrets_Get_def resolveScope_def split: sum.splits)
      qed
    qed
  qed
qed


section \<open>Properties\<close>

text \<open>C21: A secret is never stale and never somebody else's: whatever calls run at the same time, a value
  that \<open>Get\<close> gives was opened with the contour's key from what the controller answered for just
  this reference, in the configured scope or in one that it gave under the configured name, and
  was kept for at most fifteen minutes.\<close>

theorem secret_is_fresh:
  assumes "secret_steps env s r" "Answered ref t (Inr v) \<in> set (sr_calls r)"
  shows "\<exists>kept at scope res blob plain.
    at \<le> kept \<and> kept \<le> t \<and> t - kept \<le> 15 * minute \<and>
    (scope = sx_scope s \<or> (\<exists>t' spaces. (t', spaces_url s, spaces) \<in> sr_served r \<and> resolved env s (Some spaces) = Inr scope)) \<and>
    (at, sx_base s @ ''/api/'' @ scope @ ''/store/'' @ ref @ ''/blob'', res) \<in> sr_served r \<and> hr_Status res = 200 \<and>
    read_limited res = Some blob \<and> Envelope_Open env blob (sx_key s) = Inr plain \<and>
    v = TrimRightBytes [CHR 0x0D, CHR 0x0A] plain"
proof -
  have "call_ok env s (sr_served r) (sr_now r) (Answered ref t (Inr v))"
    using secret_steps_ok [OF assms(1)] assms(2) by (auto simp: run_ok_def)
  then obtain kept where kept: "kept \<le> t" "t - kept \<le> cacheTTL" "comes_from env s (sr_served r) kept ref v" by auto
  from kept(3) obtain at scope res where "at \<le> kept" "scope_known env s (sr_served r) scope"
    "(at, blob_url s scope ref, res) \<in> sr_served r" "fetched env s (blob_url s scope ref) (Some res) = Inr v"
    unfolding comes_from_def by blast
  moreover from this(4) obtain blob plain where "hr_Status res = 200" "read_limited res = Some blob"
    "Envelope_Open env blob (sx_key s) = Inr plain" "v = TrimRightBytes [CHR 0x0D, CHR 0x0A] plain"
    unfolding fetched_def by (auto split: if_splits option.splits sum.splits)
  ultimately show ?thesis
    using kept(1,2) unfolding scope_known_def blob_url_def cacheTTL_def by blast
qed

definition sample_secrets :: "unit secrets_env" where
  "sample_secrets =
     \<lparr>xe_unwrap = (\<lambda>_ _. Some (replicate 16 (CHR 0x00))),
      xe_aes_gcm = (\<lambda>_. \<lparr>gcm_Seal = (\<lambda>_ p _. p), gcm_Open = (\<lambda>_ c _. Some c)\<rparr>),
      xe_pem = Some, xe_pkcs1 = (\<lambda>_. Some ()), xe_pkcs8 = (\<lambda>_. None), xe_ReadFile = Some,
      xe_url_ok = (\<lambda>_. True), xe_spaces = (\<lambda>_ _. None)\<rparr>"

definition sample_blob :: bytes where
  "sample_blob = envelope ''key'' (replicate 12 (CHR 0x00)) ''hunter2''"

definition sample_secret_store :: "unit secret_store" where
  "sample_secret_store = \<lparr>sx_base = ''http://c'', sx_scope = ''u1'', sx_space = [], sx_key = (), sx_cache = Map.empty\<rparr>"

lemma sample_blob_opens: "Envelope_Open sample_secrets sample_blob () = Inr ''hunter2''"
  unfolding sample_blob_def
  by (subst envelope_opens [OF refl]) (simp_all add: sample_secrets_def aes_key_def nonceSize_def)

lemma sample_get:
  "Secrets_Get sample_secrets (\<lambda>_. Some \<lparr>hr_Status = 200, hr_Body = sample_blob, hr_Clean = True\<rparr>) 0 1 ''db''
     (Some sample_secret_store) = (Inr ''hunter2'', Some (Store_remember 1 ''db'' ''hunter2'' sample_secret_store))"
proof -
  have "read_limited \<lparr>hr_Status = 200, hr_Body = sample_blob, hr_Clean = True\<rparr> = Some sample_blob"
    by (simp add: read_limited_def bodyLimit_def sample_blob_def envelope_def)
  then show ?thesis
    using sample_blob_opens
    by (simp add: Secrets_Get_def cached_def resolveScope_def fetched_def sample_secret_store_def TrimRightBytes_def)
      (simp add: sample_secrets_def)
qed

theorem secret_is_fresh_witness:
  "\<exists>r t at res. secret_steps sample_secrets sample_secret_store r \<and>
     Answered ''db'' t (Inr ''hunter2'') \<in> set (sr_calls r) \<and> at \<le> t \<and> (at, ''http://c/api/u1/store/db/blob'', res) \<in> sr_served r"
proof -
  let ?r = "\<lparr>sr_now = 0, sr_store = sample_secret_store, sr_calls = [], sr_served = {}\<rparr>"
  have "secret_steps sample_secrets sample_secret_store ?r"
    by (rule secret_steps.start) (simp add: sample_secret_store_def)
  from Secrets_Get_run [OF this, of 1] sample_get obtain r t where
    r: "secret_steps sample_secrets sample_secret_store r" "sr_calls r \<noteq> []" "last (sr_calls r) = Answered ''db'' t (Inr ''hunter2'')"
    by fastforce
  then have "Answered ''db'' t (Inr ''hunter2'') \<in> set (sr_calls r)"
    by (metis last_in_set)
  moreover obtain kept at scope res where "at \<le> kept" "kept \<le> t"
    "scope = sx_scope sample_secret_store \<or> (\<exists>spaces. resolved sample_secrets sample_secret_store (Some spaces) = Inr scope)"
    "(at, sx_base sample_secret_store @ ''/api/'' @ scope @ ''/store/'' @ ''db'' @ ''/blob'', res) \<in> sr_served r"
    using secret_is_fresh [OF r(1) calculation] by blast
  moreover have "resolved sample_secrets sample_secret_store (Some spaces) \<noteq> Inr scope" for spaces scope
    by (simp add: resolved_def sample_secrets_def)
  ultimately show ?thesis
    using r(1) by (intro exI [of _ r] exI [of _ t] exI [of _ at] exI [of _ res]) (auto simp: sample_secret_store_def)
qed

text \<open>The envelope opens exactly when it has its form, the version byte, the length of a wrapped key
  that is not empty, the wrapped key, a nonce of twelve bytes and the ciphertext, the key unwraps
  a cipher key of an AES length, and the ciphertext authenticates under it; the secret is what it
  decrypts to.\<close>

theorem envelope_exact:
  "Envelope_Open env blob key = Inr plain \<longleftrightarrow>
     (\<exists>wrapped nonce ciphertext dek.
        blob = CHR 0x01 # be_bytes 2 (of_nat (length wrapped) :: 16 word) @ wrapped @ nonce @ ciphertext \<and>
        wrapped \<noteq> [] \<and> length wrapped < 2 ^ 16 \<and> length nonce = 12 \<and>
        xe_unwrap env key wrapped = Some dek \<and> length dek \<in> {16, 24, 32} \<and>
        gcm_Open (xe_aes_gcm env dek) nonce ciphertext [] = Some plain)"
  (is "?opens = ?form")
proof
  assume ?opens
  then have head: "headerLen \<le> length blob" "blob ! 0 = envelopeVersion"
    "0 < unat (be_word (take 2 (drop 1 blob)) :: 16 word)"
    "headerLen + unat (be_word (take 2 (drop 1 blob)) :: 16 word) + nonceSize \<le> length blob"
    by (auto simp: Envelope_Open_def Let_def split: if_splits)
  obtain wrapped nonce ciphertext where blob: "blob = envelope wrapped nonce ciphertext"
    "length wrapped = unat (be_word (take 2 (drop 1 blob)) :: 16 word)" "length nonce = nonceSize"
    by (rule split_envelope [OF head(1,2,4)])
  have "length wrapped < 2 ^ 16"
    using unsigned_less [of "be_word (take 2 (drop 1 blob)) :: 16 word"] unfolding blob(2) by simp
  moreover have "wrapped \<noteq> []"
    using head(3) unfolding blob(2) [symmetric] by simp
  ultimately have "\<exists>dek. xe_unwrap env key wrapped = Some dek \<and> aes_key dek \<and>
      gcm_Open (xe_aes_gcm env dek) nonce ciphertext [] = Some plain"
    using \<open>?opens\<close> envelope_opens [OF blob(1) _ _ blob(3), of env key] by (auto split: option.splits if_splits)
  with blob(1,3) \<open>wrapped \<noteq> []\<close> \<open>length wrapped < 2 ^ 16\<close> show ?form
    unfolding envelope_def envelopeVersion_def nonceSize_def aes_key_def by blast
next
  assume ?form
  then obtain wrapped nonce ciphertext dek where "blob = envelope wrapped nonce ciphertext" "wrapped \<noteq> []"
    "length wrapped < 2 ^ 16" "length nonce = nonceSize" "xe_unwrap env key wrapped = Some dek" "aes_key dek"
    "gcm_Open (xe_aes_gcm env dek) nonce ciphertext [] = Some plain"
    unfolding envelope_def envelopeVersion_def nonceSize_def aes_key_def by blast
  then show ?opens by (simp add: envelope_opens)
qed

end
