(* ===== verification/Desired.thy ===== *)
theory Desired
  imports Profiles "HOL-Library.AList"
begin

text \<open>
  The configuration that the controller pushes (\<open>internal/desired\<close>): a manifest of sources and
  profiles is parsed and checked, written beside the tree in use, swapped in, and taken back when
  the store refuses it; a watcher applies what arrives and reports it.

  A Go map is the list of its pairs in the order a \<open>range\<close> takes them. The JSON decoder, SHA-256
  and the log levels of the shared module are the record \<open>desired_env\<close>. The data directory is
  three trees, each of which may be missing: the live one, \<open>.next\<close> and \<open>.prev\<close>. Every operation
  of the file system may fail: \<open>faults\<close> says of each call whether it works or what it leaves
  behind.
\<close>

section \<open>Manifests\<close>

abbreviation "treeDir \<equiv> ''profiles''"
abbreviation "ApplyOK \<equiv> ''ok''"
abbreviation "ApplyFailed \<equiv> ''apply_failed''"

type_synonym desired_file = "string \<times> bytes"
type_synonym desired_entries = "(string \<times> desired_file list) list"

record desired_settings =
  ds_LogLevel :: string
  ds_level :: int

record manifest =
  mf_V :: int
  mf_Rev :: int
  mf_ConfigHash :: string
  mf_Sources :: desired_entries
  mf_Profiles :: desired_entries
  mf_Settings :: "desired_settings option"

record desired_env =
  dv_json :: "bytes \<Rightarrow> manifest option"
  dv_sha256 :: "bytes \<Rightarrow> bytes"
  dv_loglevel :: "string \<Rightarrow> int option"

datatype manifest_error = MJson | MVersion | MRev | MNoDefault | MEmpty | MBadName | MBadFile | MLogLevel | MHash

text \<open>\<open>settings.go\<close>\<close>

definition Settings_validate :: "desired_env \<Rightarrow> desired_settings option \<Rightarrow> manifest_error + desired_settings option" where
  "Settings_validate env s =
     (case s of
        None \<Rightarrow> Inr None
      | Some s \<Rightarrow> (case dv_loglevel env (ds_LogLevel s) of
            None \<Rightarrow> Inl MLogLevel
          | Some level \<Rightarrow> Inr (Some (s\<lparr>ds_level := level\<rparr>))))"

definition nul_ended :: "string \<Rightarrow> bytes" where
  "nul_ended s = s @ [CHR 0x00]"

definition writeSettings :: "desired_settings option \<Rightarrow> bytes" where
  "writeSettings s =
     (case s of
        None \<Rightarrow> []
      | Some s \<Rightarrow> nul_ended ''settings'' @ nul_ended ''log_level'' @ nul_ended (ds_LogLevel s))"

definition Settings_apply :: "desired_settings option \<Rightarrow> int option \<Rightarrow> int option" where
  "Settings_apply s level =
     (case (s, level) of
        (Some s, Some l) \<Rightarrow> (if l = ds_level s then level else Some (ds_level s))
      | _ \<Rightarrow> level)"

text \<open>\<open>desired.go\<close>\<close>

definition sortedNames :: "desired_entries \<Rightarrow> string list" where
  "sortedNames entries = sort (map fst entries)"

definition hash_section :: "string \<Rightarrow> desired_entries \<Rightarrow> bytes" where
  "hash_section label entries =
     nul_ended label @
     concat (map (\<lambda>name. nul_ended name @
       concat (map (\<lambda>(f, t). nul_ended f @ nul_ended t) (case map_of entries name of None \<Rightarrow> [] | Some fs \<Rightarrow> fs)))
       (sortedNames entries))"

definition hash_input :: "desired_entries \<Rightarrow> desired_entries \<Rightarrow> desired_settings option \<Rightarrow> bytes" where
  "hash_input sources profiles s =
     hash_section ''sources'' sources @ hash_section ''profiles'' profiles @ writeSettings s"

definition HashWith :: "desired_env \<Rightarrow> desired_entries \<Rightarrow> desired_entries \<Rightarrow> desired_settings option \<Rightarrow> string" where
  "HashWith env sources profiles s = ''sha256:'' @ HexString (dv_sha256 env (hash_input sources profiles s))"

definition slashed :: "string \<Rightarrow> bool" where
  "slashed s \<longleftrightarrow> CHR ''/'' \<in> set s \<or> CHR 0x5C \<in> set s"

definition bad_file :: "desired_file \<Rightarrow> bool" where
  "bad_file f \<longleftrightarrow> fst f = [] \<or> slashed (fst f) \<or> fst f = ''.'' \<or> fst f = ''..''"

definition entry_error :: "string \<times> desired_file list \<Rightarrow> manifest_error option" where
  "entry_error e =
     (if fst e = [] \<or> snd e = [] then Some MEmpty
      else if fst e = ''.'' \<or> fst e = ''..'' \<or> slashed (fst e) then Some MBadName
      else if \<exists>f \<in> set (snd e). bad_file f then Some MBadFile
      else None)"

text \<open>The two maps are ranged over in an order that Go does not fix; it only picks the message.\<close>

definition Manifest_Parse :: "desired_env \<Rightarrow> bytes \<Rightarrow> manifest_error + manifest" where
  "Manifest_Parse env raw =
     (case dv_json env raw of
        None \<Rightarrow> Inl MJson
      | Some m \<Rightarrow>
          (if mf_V m \<noteq> 2 then Inl MVersion
           else if mf_Rev m < 1 then Inl MRev
           else if map_of (mf_Profiles m) DefaultName = None then Inl MNoDefault
           else (case List.map_filter entry_error (mf_Sources m @ mf_Profiles m) of
                   e # _ \<Rightarrow> Inl e
                 | [] \<Rightarrow>
                     (case Settings_validate env (mf_Settings m) of
                        Inl e \<Rightarrow> Inl e
                      | Inr s \<Rightarrow>
                          (let got = HashWith env (mf_Sources m) (mf_Profiles m) s
                           in if mf_ConfigHash m \<noteq> [] \<and> mf_ConfigHash m \<noteq> got then Inl MHash
                              else Inr (m\<lparr>mf_Settings := s, mf_ConfigHash := got\<rparr>))))))"


section \<open>The data directory\<close>

text \<open>A tree is its files by their path below its root.\<close>

type_synonym dtree = "(string list \<times> bytes) list"

record data_dir =
  dd_live :: "dtree option"
  dd_next :: "dtree option"
  dd_prev :: "dtree option"

datatype fs_call = MkData | ClearNext | WriteNext | DropFailed | ClearPrev | Park | DropUnparked | Promote | Unpark
  | DropUnpromoted | DropRefused | Restore | DropPrev

type_synonym faults = "fs_call \<Rightarrow> dtree option option"

definition RemoveAll :: "dtree option option \<Rightarrow> dtree option" where
  "RemoveAll fault = (case fault of None \<Rightarrow> None | Some left \<Rightarrow> left)"

datatype rename_error = NotExist | RenameFailed

text \<open>\<open>os.Rename\<close> of a directory: the error of a missing source comes first, and it never replaces
  a directory.\<close>

definition Rename :: "dtree option option \<Rightarrow> dtree option \<Rightarrow> dtree option \<Rightarrow> rename_error option \<times> dtree option \<times> dtree option" where
  "Rename fault src dst =
     (if src = None then (Some NotExist, src, dst)
      else if dst \<noteq> None \<or> fault \<noteq> None then (Some RenameFailed, src, dst)
      else (None, None, src))"

definition write_entry :: "string \<Rightarrow> string \<times> desired_file list \<Rightarrow> dtree \<Rightarrow> dtree" where
  "write_entry sub e t = fold (\<lambda>(f, text). AList.update [sub, fst e, f] text) (snd e) t"

text \<open>On what is there already; a conflict with it is one of the ways in which the call can fail.\<close>

definition write_manifest :: "manifest \<Rightarrow> dtree \<Rightarrow> dtree" where
  "write_manifest m t =
     fold (write_entry ''profiles'') (mf_Profiles m) (fold (write_entry ''sources'') (mf_Sources m) t)"

definition dtree_of :: "dtree option \<Rightarrow> dtree" where
  "dtree_of t = (case t of None \<Rightarrow> [] | Some t \<Rightarrow> t)"


section \<open>What the loader sees\<close>

text \<open>\<open>mounted\<close> is the file system with the live tree at its place; sizes and times of the files,
  which only the fingerprint reads, stay those of the environment.\<close>

definition below :: "string \<Rightarrow> string \<Rightarrow> string list option" where
  "below root p =
     (if p = root then Some []
      else if HasPrefix p (root @ ''/'') then Some (Split (CHR ''/'') (drop (length root + 1) p))
      else None)"

definition is_dir :: "dtree \<Rightarrow> string list \<Rightarrow> bool" where
  "is_dir t path \<longleftrightarrow> path = [] \<or> (\<exists>e \<in> set t. length path < length (fst e) \<and> take (length path) (fst e) = path)"

definition children :: "dtree \<Rightarrow> string list \<Rightarrow> string list" where
  "children t path =
     sort (remdups (map (\<lambda>e. fst e ! length path)
       (filter (\<lambda>e. length path < length (fst e) \<and> take (length path) (fst e) = path) t)))"

definition tree_file :: "dtree \<Rightarrow> string list \<Rightarrow> bytes fs_file" where
  "tree_file t path =
     (if is_dir t path then Unreadable else case map_of t path of None \<Rightarrow> Missing | Some text \<Rightarrow> Found text)"

definition tree_dir :: "dtree \<Rightarrow> string list \<Rightarrow> (string \<times> bool) list fs_file" where
  "tree_dir t path =
     (if is_dir t path then Found (map (\<lambda>n. (n, is_dir t (path @ [n]))) (children t path))
      else if map_of t path \<noteq> None then Unreadable else Missing)"

definition mounted :: "config_env \<Rightarrow> string \<Rightarrow> dtree option \<Rightarrow> config_env" where
  "mounted env root t = env\<lparr>
     ce_ReadFile := (\<lambda>p. case below root p of
       None \<Rightarrow> ce_ReadFile env p
     | Some path \<Rightarrow> (case t of None \<Rightarrow> Missing | Some t \<Rightarrow> tree_file t path)),
     ce_ReadDir := (\<lambda>p. case below root p of
       None \<Rightarrow> ce_ReadDir env p
     | Some path \<Rightarrow> (case t of None \<Rightarrow> Missing | Some t \<Rightarrow> tree_dir t path))\<rparr>"


section \<open>Apply\<close>

datatype apply_error = DataDir | WriteFailed | ParkFailed | PromoteFailed | Refused verr

text \<open>\<open>env\<close> and \<open>env'\<close> are the surroundings at the reload and at the one that follows a refusal.\<close>

definition Desired_Apply :: "config_env \<Rightarrow> config_env \<Rightarrow> faults \<Rightarrow> string \<Rightarrow> manifest \<Rightarrow> data_dir \<Rightarrow> cfg_store \<Rightarrow>
    apply_error option \<times> data_dir \<times> cfg_store" where
  "Desired_Apply env env' fault dataDir m d st =
     (if fault MkData \<noteq> None then (Some DataDir, d, st)
      else
        (let live = path_join dataDir treeDir;
             d = d\<lparr>dd_next := RemoveAll (fault ClearNext)\<rparr>
         in case fault WriteNext of
              Some left \<Rightarrow> (Some WriteFailed, d\<lparr>dd_next := RemoveAll (fault DropFailed)\<rparr>, st)
            | None \<Rightarrow>
                (let d = d\<lparr>dd_next := Some (write_manifest m (dtree_of (dd_next d))), dd_prev := RemoveAll (fault ClearPrev)\<rparr>;
                     (parked, live_tree, prev_tree) = Rename (fault Park) (dd_live d) (dd_prev d)
                 in if parked = Some RenameFailed then (Some ParkFailed, d\<lparr>dd_next := RemoveAll (fault DropUnparked)\<rparr>, st)
                    else
                      (let lived = (parked = None);
                           d = d\<lparr>dd_live := live_tree, dd_prev := prev_tree\<rparr>;
                           (promoted, next_tree, live_tree) = Rename (fault Promote) (dd_next d) (dd_live d)
                       in if promoted \<noteq> None then
                            (let d = (if lived then (let (_, prev_tree, live_tree) = Rename (fault Unpark) (dd_prev d) (dd_live d)
                                        in d\<lparr>dd_prev := prev_tree, dd_live := live_tree\<rparr>) else d)
                             in (Some PromoteFailed, d\<lparr>dd_next := RemoveAll (fault DropUnpromoted)\<rparr>, st))
                          else
                            (let d = d\<lparr>dd_next := next_tree, dd_live := live_tree\<rparr>
                             in case ReloadFrom (mounted env live (dd_live d)) live st of
                                  (None, st) \<Rightarrow> (None, d\<lparr>dd_prev := RemoveAll (fault DropPrev)\<rparr>, st)
                                | (Some e, st) \<Rightarrow>
                                    (let d = d\<lparr>dd_live := RemoveAll (fault DropRefused)\<rparr>
                                     in if \<not> lived then (Some (Refused e), d, st)
                                        else
                                          (let (restored, prev_tree, live_tree) = Rename (fault Restore) (dd_prev d) (dd_live d);
                                               d = d\<lparr>dd_prev := prev_tree, dd_live := live_tree\<rparr>
                                           in (Some (Refused e), d,
                                               if restored = None then snd (ReloadFrom (mounted env' live (dd_live d)) live st)
                                               else st))))))))"


lemma Rename_cases:
  "Rename fault src dst = (r, src', dst') \<longleftrightarrow>
     (src = None \<and> r = Some NotExist \<and> src' = None \<and> dst' = dst) \<or>
     (src \<noteq> None \<and> (dst \<noteq> None \<or> fault \<noteq> None) \<and> r = Some RenameFailed \<and> src' = src \<and> dst' = dst) \<or>
     (src \<noteq> None \<and> dst = None \<and> fault = None \<and> r = None \<and> src' = None \<and> dst' = src)"
  by (auto simp: Rename_def)

lemma Apply_ok:
  assumes "Desired_Apply env env' fault dataDir m d st = (None, d', st')"
  shows "dd_live d' = Some (write_manifest m (dtree_of (RemoveAll (fault ClearNext))))"
    and "ReloadFrom (mounted env (path_join dataDir treeDir) (dd_live d')) (path_join dataDir treeDir) st = (None, st')"
  using assms unfolding Desired_Apply_def Let_def
  by (auto simp: Rename_cases split: if_splits option.splits prod.splits)

lemma ReloadFrom_failed: "ReloadFrom env dir st = (Some e, st') \<Longrightarrow> st' = st"
  by (cases rule: ReloadFrom_cases [of env dir st]) auto

lemma ReloadFrom_moved: "snd (ReloadFrom env dir st) \<noteq> st \<Longrightarrow> ReloadFrom env dir st = (None, snd (ReloadFrom env dir st))"
  by (cases rule: ReloadFrom_cases [of env dir st]) auto

lemma Apply_fails:
  assumes "Desired_Apply env env' fault dataDir m d st = (Some e, d', st')"
  shows "st' = st \<or> (\<exists>t. dd_live d = Some t \<and> dd_live d' = Some t \<and>
      ReloadFrom (mounted env' (path_join dataDir treeDir) (Some t)) (path_join dataDir treeDir) st = (None, st'))"
    and "fault Unpark = None \<Longrightarrow> fault DropRefused = None \<Longrightarrow> fault Restore = None \<Longrightarrow> dd_live d' = dd_live d"
  using assms unfolding Desired_Apply_def Let_def
  by (auto simp: Rename_cases RemoveAll_def dest!: ReloadFrom_failed intro!: ReloadFrom_moved split: if_splits option.splits prod.splits)



section \<open>What is reported and the watcher\<close>

record applied =
  ap_hash :: string
  ap_rev :: int
  ap_apply :: string
  ap_names :: "string list"

definition Applied_Snapshot :: "applied option \<Rightarrow> string \<times> int \<times> string \<times> string list" where
  "Applied_Snapshot a =
     (case a of None \<Rightarrow> ([], 0, [], []) | Some a \<Rightarrow> (ap_hash a, ap_rev a, ap_apply a, ap_names a))"

definition Applied_set :: "string \<Rightarrow> int \<Rightarrow> string \<Rightarrow> string list \<Rightarrow> applied" where
  "Applied_set hash revision outcome names = \<lparr>ap_hash = hash, ap_rev = revision, ap_apply = outcome, ap_names = names\<rparr>"

record desired_state =
  dt_dir :: data_dir
  dt_store :: cfg_store
  dt_applied :: applied
  dt_level :: "int option"

datatype kv_update = KvNil | KvDelete | KvPurge | KvPut bytes

text \<open>What the watcher makes of an update; the swap of the store and the report are one step here.\<close>

definition Watch_update :: "desired_env \<Rightarrow> config_env \<Rightarrow> config_env \<Rightarrow> faults \<Rightarrow> string \<Rightarrow> kv_update \<Rightarrow> desired_state \<Rightarrow>
    desired_state" where
  "Watch_update denv env env' fault dataDir upd s =
     (case upd of
        KvPut raw \<Rightarrow>
          (case Manifest_Parse denv raw of
             Inl _ \<Rightarrow> s
           | Inr m \<Rightarrow>
               (let (hash, revision, outcome, names) = Applied_Snapshot (Some (dt_applied s))
                in if outcome = ApplyOK \<and> hash = mf_ConfigHash m \<and> revision = mf_Rev m then s
                   else (case Desired_Apply env env' fault dataDir m (dt_dir s) (dt_store s) of
                           (Some e, d, st) \<Rightarrow>
                             s\<lparr>dt_dir := d, dt_store := st, dt_applied := Applied_set hash revision ApplyFailed names\<rparr>
                         | (None, d, st) \<Rightarrow>
                             s\<lparr>dt_dir := d, dt_store := st,
                               dt_applied := Applied_set (mf_ConfigHash m) (mf_Rev m) ApplyOK (sortedNames (mf_Profiles m)),
                               dt_level := Settings_apply (mf_Settings m) (dt_level s)\<rparr>)))
      | _ \<Rightarrow> s)"

text \<open>At the start of a process.\<close>

definition Bootstrap :: "config_env \<Rightarrow> string \<Rightarrow> data_dir \<Rightarrow> cfg_store \<Rightarrow> bool \<times> cfg_store" where
  "Bootstrap env dataDir d st =
     (if dataDir = [] then (False, st)
      else
        (let live = path_join dataDir treeDir;
             profile = [''profiles'', DefaultName, ''profile.yaml'']
         in case dd_live d of
              None \<Rightarrow> (False, st)
            | Some t \<Rightarrow>
                (if map_of t profile = None \<and> \<not> is_dir t profile then (False, st)
                 else (case ReloadFrom (mounted env live (dd_live d)) live st of
                         (Some _, st) \<Rightarrow> (False, st)
                       | (None, st) \<Rightarrow> (True, st)))))"

text \<open>
  The life of a process with a data directory: the profiles it comes with are loaded, the tree of
  an earlier life is taken up, and then updates arrive in any order while the store's own tick
  reloads. Every step has its own surroundings and faults.

  A reload, and an update with its report, are one step each here. In the program they run in two
  goroutines: between the swap and the report a heartbeat still tells of the manifest before, and a
  reload that has read the tree before may store it after the swap (the step \<open>late\<close> of
  \<open>store_life\<close>), until the next tick finds the fingerprint changed and reads again.
\<close>

inductive desired_life :: "desired_env \<Rightarrow> (faults \<Rightarrow> bool) \<Rightarrow> string \<Rightarrow> desired_state \<Rightarrow> bool" for denv okf dataDir where
  start: "LoadProfiles env dir = Inr st \<Longrightarrow>
    desired_life denv okf dataDir \<lparr>dt_dir = d, dt_store = snd (Bootstrap env dataDir d st),
      dt_applied = Applied_set [] 0 [] [], dt_level = l\<rparr>"
| update: "desired_life denv okf dataDir s \<Longrightarrow> okf fault \<Longrightarrow>
    desired_life denv okf dataDir (Watch_update denv env env' fault dataDir upd s)"
| tick: "desired_life denv okf dataDir s \<Longrightarrow>
    desired_life denv okf dataDir
      (s\<lparr>dt_store := snd (Reload (mounted env (path_join dataDir treeDir) (dd_live (dt_dir s))) (dt_store s))\<rparr>)"


section \<open>The tree that was written\<close>

text \<open>What the manifest says of a path; of files of one name the last one counts.\<close>

definition manifest_text :: "manifest \<Rightarrow> string list \<Rightarrow> bytes option" where
  "manifest_text m path =
     (case path of
        [sub, name, f] \<Rightarrow>
          (case (if sub = ''profiles'' then map_of (mf_Profiles m) name
                 else if sub = ''sources'' then map_of (mf_Sources m) name else None) of
             None \<Rightarrow> None
           | Some files \<Rightarrow> map_of (rev files) f)
      | _ \<Rightarrow> None)"

definition entry_text :: "string \<Rightarrow> string \<Rightarrow> desired_file list \<Rightarrow> string list \<Rightarrow> bytes option" where
  "entry_text sub name files path =
     (case path of [s, n, f] \<Rightarrow> if s = sub \<and> n = name then map_of (rev files) f else None | _ \<Rightarrow> None)"

definition section_text :: "string \<Rightarrow> desired_entries \<Rightarrow> string list \<Rightarrow> bytes option" where
  "section_text sub entries path =
     (case path of
        [s, n, f] \<Rightarrow> (if s = sub then (case map_of entries n of None \<Rightarrow> None | Some files \<Rightarrow> map_of (rev files) f) else None)
      | _ \<Rightarrow> None)"

lemma entry_text_simps [simp]:
  "entry_text sub name [] = Map.empty"
  "entry_text sub name (e # files) = [[sub, name, fst e] \<mapsto> snd e] ++ entry_text sub name files"
  by (auto simp: entry_text_def map_add_def fun_eq_iff split: list.splits option.splits)

lemma map_of_write_entry: "map_of (write_entry sub e t) = map_of t ++ entry_text sub (fst e) (snd e)"
proof -
  have "map_of (fold (\<lambda>(f, text). AList.update [sub, name, f] text) files t) = map_of t ++ entry_text sub name files"
    for name files
    by (induction files arbitrary: t) (auto simp: update_conv')
  then show ?thesis by (simp add: write_entry_def)
qed

lemma section_text_Cons:
  "fst e \<notin> fst ` set entries \<Longrightarrow> section_text sub (e # entries) = entry_text sub (fst e) (snd e) ++ section_text sub entries"
proof -
  assume "fst e \<notin> fst ` set entries"
  then have "map_of entries (fst e) = None" by (simp add: map_of_eq_None_iff)
  then show ?thesis
    by (cases e) (auto simp: section_text_def entry_text_def map_add_def fun_eq_iff split: list.splits option.splits)
qed

lemma map_of_write_section:
  "distinct (map fst entries) \<Longrightarrow> map_of (fold (write_entry sub) entries t) = map_of t ++ section_text sub entries"
proof (induction entries arbitrary: t)
  case Nil
  then show ?case by (auto simp: section_text_def map_add_def fun_eq_iff split: list.splits)
next
  case (Cons e entries)
  then show ?case by (simp add: map_of_write_entry section_text_Cons)
qed

lemma map_of_write_manifest:
  assumes "distinct (map fst (mf_Sources m))" "distinct (map fst (mf_Profiles m))"
  shows "map_of (write_manifest m []) = manifest_text m"
  using assms unfolding write_manifest_def
  by (auto simp: map_of_write_section section_text_def manifest_text_def map_add_def fun_eq_iff
      split: list.splits option.splits)

text \<open>Every path that is written comes from an entry.\<close>

lemma entry_text_Some: "entry_text sub name files path = Some x \<Longrightarrow> \<exists>f. path = [sub, name, f] \<and> f \<in> fst ` set files"
  by (auto simp: entry_text_def split: list.splits if_splits dest!: map_of_SomeD intro: rev_image_eqI)

lemma write_section_Some:
  "map_of (fold (write_entry sub) entries t) path = Some x \<Longrightarrow> map_of t path = Some x \<or>
     (\<exists>e f. e \<in> set entries \<and> path = [sub, fst e, f] \<and> f \<in> fst ` set (snd e))"
proof (induction entries arbitrary: t)
  case (Cons e entries)
  then have "map_of (fold (write_entry sub) entries (write_entry sub e t)) path = Some x" by simp
  from Cons.IH [OF this] consider (old) "map_of (write_entry sub e t) path = Some x"
    | (new) "\<exists>e' f. e' \<in> set entries \<and> path = [sub, fst e', f] \<and> f \<in> fst ` set (snd e')" by blast
  then show ?case
  proof cases
    case old
    then have "map_of t path = Some x \<or> entry_text sub (fst e) (snd e) path = Some x"
      unfolding map_of_write_entry map_add_Some_iff by blast
    then show ?thesis
      by (metis entry_text_Some list.set_intros(1))
  next
    case new
    then obtain e' f where e': "e' \<in> set entries" "path = [sub, fst e', f]" "f \<in> fst ` set (snd e')" by blast
    then have "e' \<in> set (e # entries)" by simp
    with e'(2,3) show ?thesis by blast
  qed
qed simp

lemma written_paths:
  assumes "map_of (write_manifest m []) path = Some x"
  shows "\<exists>sub e f. path = [sub, fst e, f] \<and> sub \<in> {''sources'', ''profiles''} \<and>
    e \<in> set (mf_Sources m @ mf_Profiles m) \<and> f \<in> fst ` set (snd e)"
proof -
  consider (profile) e f where "e \<in> set (mf_Profiles m)" "path = [''profiles'', fst e, f]" "f \<in> fst ` set (snd e)"
    | (source) e f where "e \<in> set (mf_Sources m)" "path = [''sources'', fst e, f]" "f \<in> fst ` set (snd e)"
    using write_section_Some [OF assms [unfolded write_manifest_def]]
      write_section_Some [of "''sources''" "mf_Sources m" "[]" path x] map_of.simps(1) option.distinct(1) by metis
  then show ?thesis
  proof cases
    case profile
    then show ?thesis by (intro exI [of _ "''profiles''"] exI [of _ e] exI [of _ f]) simp
  next
    case source
    then show ?thesis by (intro exI [of _ "''sources''"] exI [of _ e] exI [of _ f]) simp
  qed
qed


section \<open>What is reported is in force\<close>

text \<open>A manifest is safe to write: every path it names is three plain names below the data directory.\<close>

definition plain_name :: "string \<Rightarrow> bool" where
  "plain_name s \<longleftrightarrow> s \<noteq> [] \<and> s \<noteq> ''.'' \<and> s \<noteq> ''..'' \<and> \<not> slashed s"

lemma entry_error_None:
  "entry_error e = None \<longleftrightarrow> plain_name (fst e) \<and> snd e \<noteq> [] \<and> (\<forall>f \<in> set (snd e). plain_name (fst f))"
  by (auto simp: entry_error_def plain_name_def bad_file_def)

lemma map_filter_Nil: "List.map_filter f xs = [] \<longleftrightarrow> (\<forall>x \<in> set xs. f x = None)"
  by (induction xs) (auto simp: List.map_filter_def)

lemma Manifest_Parse_Inr:
  assumes "Manifest_Parse env raw = Inr m"
  obtains m0 s where "dv_json env raw = Some m0" "mf_V m0 = 2" "1 \<le> mf_Rev m0" "map_of (mf_Profiles m0) DefaultName \<noteq> None"
    "\<forall>e \<in> set (mf_Sources m0 @ mf_Profiles m0). entry_error e = None" "Settings_validate env (mf_Settings m0) = Inr s"
    "mf_ConfigHash m0 \<in> {[], HashWith env (mf_Sources m0) (mf_Profiles m0) s}"
    "m = m0\<lparr>mf_Settings := s, mf_ConfigHash := HashWith env (mf_Sources m0) (mf_Profiles m0) s\<rparr>"
  using assms unfolding Manifest_Parse_def Let_def
  by (auto simp: map_filter_Nil split: option.splits if_splits list.splits sum.splits)

text \<open>The store holds what the live tree says.\<close>

definition tree_in_force :: "string \<Rightarrow> dtree \<Rightarrow> cfg_store \<Rightarrow> bool" where
  "tree_in_force dataDir t st \<longleftrightarrow> cs_dir st = path_join dataDir treeDir \<and>
     (\<exists>env snap. read_dir (mounted env (path_join dataDir treeDir) (Some t)) (path_join dataDir treeDir) = Inr snap \<and>
        cs_cur st = Some (snap\<lparr>sn_Gen := cs_gen st\<rparr>))"

lemma Store_read_Inr:
  "Store_read env st = Inr (snap, st') \<longleftrightarrow>
     (\<exists>s. read_dir env (cs_dir st) = Inr s \<and> st' = st\<lparr>cs_gen := cs_gen st + 1\<rparr> \<and> snap = s\<lparr>sn_Gen := cs_gen st'\<rparr>)"
  by (auto simp: Store_read_def split: sum.splits)

lemma ReloadFrom_in_force:
  assumes "ReloadFrom (mounted env (path_join dataDir treeDir) (Some t)) (path_join dataDir treeDir) st = (None, st')"
  shows "tree_in_force dataDir t st'"
  using assms
  by (cases rule: ReloadFrom_cases [of "mounted env (path_join dataDir treeDir) (Some t)" "path_join dataDir treeDir" st])
    (auto simp: tree_in_force_def Store_read_Inr, blast)

lemma Reload_in_force:
  assumes "tree_in_force dataDir t st"
  shows "tree_in_force dataDir t (snd (Reload (mounted env (path_join dataDir treeDir) (Some t)) st))"
  using assms
  by (cases rule: Reload_cases [of "mounted env (path_join dataDir treeDir) (Some t)" st])
    (auto simp: tree_in_force_def Store_read_Inr)

definition reported_ok :: "desired_env \<Rightarrow> string \<Rightarrow> desired_state \<Rightarrow> bool" where
  "reported_ok denv dataDir s \<longleftrightarrow> (ap_apply (dt_applied s) = ApplyOK \<longrightarrow>
     (\<exists>raw m t. Manifest_Parse denv raw = Inr m \<and> dt_applied s = Applied_set (mf_ConfigHash m) (mf_Rev m) ApplyOK
          (sortedNames (mf_Profiles m)) \<and>
        dd_live (dt_dir s) = Some t \<and> t = write_manifest m [] \<and> tree_in_force dataDir t (dt_store s)))"

lemma Watch_update_ok:
  assumes "reported_ok denv dataDir s" "fault ClearNext = None"
  shows "reported_ok denv dataDir (Watch_update denv env env' fault dataDir upd s)"
proof (cases "Watch_update denv env env' fault dataDir upd s = s")
  case False
  then obtain raw m where m: "upd = KvPut raw" "Manifest_Parse denv raw = Inr m"
    by (auto simp: Watch_update_def split: kv_update.splits sum.splits)
  obtain r d st where run: "Desired_Apply env env' fault dataDir m (dt_dir s) (dt_store s) = (r, d, st)"
    by (metis prod_cases3)
  show ?thesis
  proof (cases r)
    case None
    note ok = run [unfolded None]
    have live: "dd_live d = Some (write_manifest m [])"
      using Apply_ok(1) [OF ok] assms(2) by (simp add: RemoveAll_def dtree_of_def)
    have "tree_in_force dataDir (write_manifest m []) st"
      using ReloadFrom_in_force Apply_ok(2) [OF ok] unfolding live by blast
    with live m None run False show ?thesis
      by (auto simp: reported_ok_def Watch_update_def Applied_Snapshot_def Let_def split: if_splits)
  next
    case (Some e)
    with m run False show ?thesis
      by (auto simp: reported_ok_def Watch_update_def Applied_Snapshot_def Applied_set_def Let_def split: if_splits)
  qed
qed (simp add: assms(1))

lemma desired_life_reported:
  assumes "desired_life denv okf dataDir s" "\<And>fault. okf fault \<Longrightarrow> fault ClearNext = None"
  shows "reported_ok denv dataDir s"
  using assms(1)
proof (induction rule: desired_life.induct)
  case (start env dir st d l)
  then show ?case by (simp add: reported_ok_def Applied_set_def)
next
  case (update s fault env env' upd)
  then show ?case by (simp add: Watch_update_ok assms(2))
next
  case (tick s env)
  then show ?case
    by (fastforce simp: reported_ok_def intro: Reload_in_force)
qed

end
