(* ===== verification/Desired_Props.thy ===== *)
theory Desired_Props
  imports Desired
begin

text \<open>
  What a pushed configuration may rely on: what is reported as applied is what the processes work
  with, what fails is taken back, and no manifest reaches a path outside its own tree.
\<close>

section \<open>A manifest with one profile\<close>

definition sample_manifest :: manifest where
  "sample_manifest = \<lparr>mf_V = 2, mf_Rev = 1, mf_ConfigHash = [], mf_Sources = [],
     mf_Profiles = [(''default'', [(''profile.yaml'', ''mode: off'')])], mf_Settings = None\<rparr>"

definition sample_desired :: desired_env where
  "sample_desired = \<lparr>dv_json = (\<lambda>_. Some sample_manifest), dv_sha256 = id, dv_loglevel = (\<lambda>_. None)\<rparr>"

definition sample_tree :: dtree where
  "sample_tree = [([''profiles'', ''default'', ''profile.yaml''], ''mode: off'')]"

definition sample_hash :: string where
  "sample_hash = HashWith sample_desired [] [(''default'', [(''profile.yaml'', ''mode: off'')])] None"

lemma sample_manifest_parses:
  "Manifest_Parse sample_desired raw = Inr (sample_manifest\<lparr>mf_ConfigHash := sample_hash\<rparr>)"
  by (simp add: Manifest_Parse_def sample_desired_def sample_manifest_def sample_hash_def Settings_validate_def
      List.map_filter_def entry_error_def slashed_def bad_file_def)

lemma sample_manifest_writes: "write_manifest (sample_manifest\<lparr>mf_ConfigHash := h\<rparr>) [] = sample_tree"
  by (simp add: write_manifest_def write_entry_def sample_manifest_def sample_tree_def)


lemma mounted_simps [simp]:
  "ce_ct (mounted env root t) = ce_ct env" "ce_yaml_profile (mounted env root t) = ce_yaml_profile env"
  "ce_Walk (mounted env root t) = ce_Walk env" "ce_sha256 (mounted env root t) = ce_sha256 env"
  by (simp_all add: mounted_def)










section \<open>Properties\<close>



text \<open>C17: A manifest that cannot be applied changes nothing: after a failure anywhere, or after the store
  refused the new tree, the configuration in use is the one from before or was read again from
  the tree from before, and that tree is still the live one unless taking back itself fails.\<close>

theorem failed_apply_rolls_back:
  assumes "Desired_Apply env env' fault dataDir m d st = (Some e, d', st')"
  shows "(cs_cur st' = cs_cur st \<or>
      (\<exists>t snap. dd_live d = Some t \<and> dd_live d' = Some t \<and>
         read_dir (mounted env' (path_join dataDir treeDir) (Some t)) (path_join dataDir treeDir) = Inr snap \<and>
         cs_cur st' = Some (snap\<lparr>sn_Gen := cs_gen st + 1\<rparr>))) \<and>
    (fault Unpark = None \<and> fault DropRefused = None \<and> fault Restore = None \<longrightarrow> dd_live d' = dd_live d)"
proof -
  have "\<exists>snap. read_dir env'' dir = Inr snap \<and> cs_cur st'' = Some (snap\<lparr>sn_Gen := cs_gen st + 1\<rparr>)"
    if "ReloadFrom env'' dir st = (None, st'')" for env'' dir st''
    using that by (cases rule: ReloadFrom_cases [of env'' dir st]) (auto simp: Store_read_Inr)
  then show ?thesis
    using Apply_fails [OF assms] by blast
qed

theorem failed_apply_rolls_back_witness:
  "\<exists>e d' st'. Desired_Apply sample_config_env sample_config_env (\<lambda>c. if c = Promote then Some None else None) ''/v'' sample_manifest
     \<lparr>dd_live = Some sample_tree, dd_next = None, dd_prev = None\<rparr>
     \<lparr>cs_dir = [], cs_cur = None, cs_gen = 0\<rparr> = (Some e, d', st') \<and> cs_cur st' = None \<and>
     dd_live d' = Some sample_tree"
proof -
  let ?run = "Desired_Apply sample_config_env sample_config_env (\<lambda>c. if c = Promote then Some None else None) ''/v'' sample_manifest
     \<lparr>dd_live = Some sample_tree, dd_next = None, dd_prev = None\<rparr>
     \<lparr>cs_dir = [], cs_cur = None, cs_gen = 0\<rparr>"
  have "snd (snd ?run) = \<lparr>cs_dir = [], cs_cur = None, cs_gen = 0\<rparr>" and "fst ?run = Some PromoteFailed"
    by (simp_all add: Desired_Apply_def Rename_def RemoveAll_def Let_def)
  then obtain d' st' where run: "?run = (Some PromoteFailed, d', st')" "cs_cur st' = None"
    by (metis prod.collapse cfg_store.select_convs(2))
  from failed_apply_rolls_back [OF run(1)] run show ?thesis by auto
qed

text \<open>C40: A manifest that is accepted stays in its tree: it has the default profile, its hash is the hash of
  its contents, and every file that it writes lies two plain names below one of the two
  directories, so that no name can climb out.\<close>

theorem manifest_stays_inside:
  assumes "Manifest_Parse denv raw = Inr m" "(path, text) \<in> set (write_manifest m [])"
  shows "mf_V m = 2 \<and> 1 \<le> mf_Rev m \<and> map_of (mf_Profiles m) DefaultName \<noteq> None \<and>
    mf_ConfigHash m = HashWith denv (mf_Sources m) (mf_Profiles m) (mf_Settings m) \<and>
    (\<exists>sub name f. path = [sub, name, f] \<and> sub \<in> {''sources'', ''profiles''} \<and> plain_name name \<and> plain_name f)"
proof -
  obtain m0 s where m0: "mf_V m0 = 2" "1 \<le> mf_Rev m0" "map_of (mf_Profiles m0) DefaultName \<noteq> None"
    "\<forall>e \<in> set (mf_Sources m0 @ mf_Profiles m0). entry_error e = None"
    "m = m0\<lparr>mf_Settings := s, mf_ConfigHash := HashWith denv (mf_Sources m0) (mf_Profiles m0) s\<rparr>"
    using assms(1) by (rule Manifest_Parse_Inr)
  then have entries: "\<forall>e \<in> set (mf_Sources m @ mf_Profiles m). entry_error e = None" and head: "mf_V m = 2" "1 \<le> mf_Rev m"
    "map_of (mf_Profiles m) DefaultName \<noteq> None" "mf_ConfigHash m = HashWith denv (mf_Sources m) (mf_Profiles m) (mf_Settings m)"
    by simp_all
  obtain x where x: "map_of (write_manifest m []) path = Some x"
    using weak_map_of_SomeI [OF assms(2)] by blast
  obtain sub e f where e: "path = [sub, fst e, f]" "sub \<in> {''sources'', ''profiles''}"
    "e \<in> set (mf_Sources m @ mf_Profiles m)" "f \<in> fst ` set (snd e)"
    using written_paths [OF x] by (elim exE conjE)
  have "entry_error e = None"
    using entries e(3) by (rule bspec)
  then have "plain_name (fst e) \<and> plain_name f"
    using e(4) unfolding entry_error_None by auto
  with e(1,2) head show ?thesis by simp
qed

theorem manifest_stays_inside_witness:
  "\<exists>path name f. (path, ''mode: off'') \<in> set (write_manifest (sample_manifest\<lparr>mf_ConfigHash := sample_hash\<rparr>) []) \<and>
     path = [''profiles'', name, f] \<and> plain_name name \<and> plain_name f"
proof -
  have "([''profiles'', ''default'', ''profile.yaml''], ''mode: off'') \<in>
      set (write_manifest (sample_manifest\<lparr>mf_ConfigHash := sample_hash\<rparr>) [])"
    unfolding sample_manifest_writes by (simp add: sample_tree_def)
  with manifest_stays_inside [OF sample_manifest_parses this] show ?thesis by blast
qed

text \<open>The hash does not say where an entry ends: three entries with one file each and one entry with
  four files are hashed alike, so that a watcher that has one of them applied takes the other, at
  the same revision, for the same.\<close>

lemma hash_is_ambiguous:
  "HashWith env [(''a'', [(''f'', ''1'')]), (''b'', [(''g'', ''2'')]), (''c'', [(''h'', ''3'')])] profiles s =
   HashWith env [(''a'', [(''f'', ''1''), (''b'', ''g''), (''2'', ''c''), (''h'', ''3'')])] profiles s"
  by (simp add: HashWith_def hash_input_def hash_section_def sortedNames_def nul_ended_def)

end
