(* ===== verification/ConfFile.thy ===== *)
theory ConfFile
  imports Json
begin

text \<open>
  The file \<open>inspector.conf\<close> and the settings that come from it (\<open>internal/config/file.go\<close>): its
  parser line by line, the queue settings, and the addresses of the two Redis servers with the
  environment on top.

  \<open>conf_env\<close> holds the environment variables, the file system, the runes of a string with Unicode's
  letters and digits, and \<open>url.Parse\<close>, of which only the scheme, the host and the redacted form
  are used. Error texts are a line and a kind.
\<close>

section \<open>The file\<close>

abbreviation "QueueFullDrop \<equiv> ''drop''"
abbreviation "QueueFullWait \<equiv> ''wait''"
abbreviation "QueueExpandOff \<equiv> ''off''"
abbreviation "QueueExpandAsk \<equiv> ''ask''"
abbreviation "InternalFromExchange \<equiv> ''exchange''"

record conf_env =
  cf_LookupEnv :: "string \<Rightarrow> string option"
  cf_Stat :: "string \<Rightarrow> bool option"
  cf_ReadFile :: "string \<Rightarrow> bytes option"
  cf_runes :: "string \<Rightarrow> nat list"
  cf_IsLetter :: "nat \<Rightarrow> bool"
  cf_IsDigit :: "nat \<Rightarrow> bool"
  cf_url :: "string \<Rightarrow> (string \<times> string \<times> string) option"

record queue_file =
  qf_Max :: "int option"
  qf_Full :: string
  qf_Expand :: string
  qf_RedisURL :: string
  qf_RedisInternal :: string

definition no_file :: queue_file where
  "no_file = \<lparr>qf_Max = None, qf_Full = [], qf_Expand = [], qf_RedisURL = [], qf_RedisInternal = []\<rparr>"

datatype conf_error = ErrBrace | ErrBlock | ErrBlockTwice | ErrSemicolon | ErrEmpty | ErrNoValue | ErrName | ErrOneValue
  | ErrTwice | ErrMax | ErrFull | ErrExpand | ErrDirective | ErrRedisKey | ErrRedisURL | ErrNotClosed | ErrReadFile

definition confText :: "string \<Rightarrow> string" where
  "confText line = TrimSpace (case Cut (CHR ''#'') line of None \<Rightarrow> line | Some (before, _) \<Rightarrow> before)"

text \<open>\<open>strings.CutSuffix\<close> with one byte.\<close>

definition CutLast :: "char \<Rightarrow> string \<Rightarrow> string option" where
  "CutLast c s = (if s \<noteq> [] \<and> last s = c then Some (butlast s) else None)"

definition requireSemicolon :: "string \<Rightarrow> conf_error + string" where
  "requireSemicolon text =
     (case CutLast (CHR '';'') text of None \<Rightarrow> Inl ErrSemicolon | Some s \<Rightarrow> Inr (TrimSpace s))"

definition isConfName :: "conf_env \<Rightarrow> string \<Rightarrow> bool" where
  "isConfName env s \<longleftrightarrow> s \<noteq> [] \<and> list_all (\<lambda>r. r = 95 \<or> cf_IsLetter env r \<or> cf_IsDigit env r) (cf_runes env s)"

definition splitDirective :: "conf_env \<Rightarrow> string \<Rightarrow> conf_error + string \<times> string" where
  "splitDirective env stmt =
     (let stmt = TrimSpace stmt
      in if stmt = [] then Inl ErrEmpty
         else (case Cut (CHR '' '') stmt of
                 None \<Rightarrow> Inl ErrNoValue
               | Some (key, rest) \<Rightarrow>
                   (if \<not> isConfName env key then Inl ErrName
                    else (let v = TrimSpace rest
                          in if v = [] \<or> CHR '' '' \<in> set v \<or> CHR 0x09 \<in> set v then Inl ErrOneValue
                             else Inr (key, v)))))"

definition isRedisURL :: "conf_env \<Rightarrow> string \<Rightarrow> bool" where
  "isRedisURL env s =
     (case cf_url env s of
        None \<Rightarrow> False
      | Some (scheme, host, _) \<Rightarrow> host \<noteq> [] \<and> (scheme = ''redis'' \<or> scheme = ''rediss''))"

text \<open>\<open>statement\<close> is what both kinds of line share.\<close>

definition statement :: "conf_env \<Rightarrow> string \<Rightarrow> conf_error + string \<times> string" where
  "statement env text =
     (case requireSemicolon text of Inl e \<Rightarrow> Inl e | Inr stmt \<Rightarrow> splitDirective env stmt)"

definition parseRedisKey :: "conf_env \<Rightarrow> string \<Rightarrow> queue_file \<Rightarrow> string list \<Rightarrow> conf_error + queue_file \<times> string list" where
  "parseRedisKey env text out seen =
     (case statement env text of
        Inl e \<Rightarrow> Inl e
      | Inr (key, v) \<Rightarrow>
          (let name = ''redis.'' @ key
           in if name \<in> set seen then Inl ErrTwice
              else if key \<noteq> ''url'' \<and> key \<noteq> ''internal'' then Inl ErrRedisKey
              else if \<not> isRedisURL env v then Inl ErrRedisURL
              else Inr (if key = ''url'' then out\<lparr>qf_RedisURL := v\<rparr> else out\<lparr>qf_RedisInternal := v\<rparr>, name # seen)))"

definition set_directive :: "string \<Rightarrow> string \<Rightarrow> queue_file \<Rightarrow> conf_error + queue_file" where
  "set_directive key v out =
     (if key = ''queue_max'' then
        (case ParseInt v of
           Some n \<Rightarrow> (if n < 1 then Inl ErrMax else Inr (out\<lparr>qf_Max := Some n\<rparr>))
         | None \<Rightarrow> Inl ErrMax)
      else if key = ''queue_full'' then
        (if v \<in> {QueueFullDrop, QueueFullWait} then Inr (out\<lparr>qf_Full := v\<rparr>) else Inl ErrFull)
      else if key = ''queue_expand'' then
        (if v \<in> {QueueExpandOff, QueueExpandAsk} then Inr (out\<lparr>qf_Expand := v\<rparr>) else Inl ErrExpand)
      else Inl ErrDirective)"

text \<open>One line outside a block: nothing, a block that opens, or a directive.\<close>

record conf_state =
  cp_out :: queue_file
  cp_seen :: "string list"
  cp_block :: "(string \<times> nat) option"

definition block_line :: "conf_env \<Rightarrow> string \<Rightarrow> conf_state \<Rightarrow> conf_error + conf_state" where
  "block_line env text s =
     (if text = ''}'' then Inr (s\<lparr>cp_block := None\<rparr>)
      else (case parseRedisKey env text (cp_out s) (cp_seen s) of
              Inl e \<Rightarrow> Inl e
            | Inr (out, seen) \<Rightarrow> Inr (s\<lparr>cp_out := out, cp_seen := seen\<rparr>)))"

definition open_block :: "nat \<Rightarrow> string \<Rightarrow> conf_state \<Rightarrow> conf_error + conf_state" where
  "open_block n head s =
     (if head \<noteq> ''redis'' then Inl ErrBlock
      else if head \<in> set (cp_seen s) then Inl ErrBlockTwice
      else Inr (s\<lparr>cp_seen := head # cp_seen s, cp_block := Some (head, n)\<rparr>))"

definition directive_line :: "conf_env \<Rightarrow> string \<Rightarrow> conf_state \<Rightarrow> conf_error + conf_state" where
  "directive_line env text s =
     (case statement env text of
        Inl e \<Rightarrow> Inl e
      | Inr (key, v) \<Rightarrow>
          (if key \<in> set (cp_seen s) then Inl ErrTwice
           else (case set_directive key v (cp_out s) of
                   Inl e \<Rightarrow> Inl e
                 | Inr out \<Rightarrow> Inr (s\<lparr>cp_seen := key # cp_seen s, cp_out := out\<rparr>))))"

definition parse_line :: "conf_env \<Rightarrow> nat \<Rightarrow> string \<Rightarrow> conf_state \<Rightarrow> conf_error + conf_state" where
  "parse_line env n line s =
     (let text = confText line
      in if text = [] then Inr s
         else if cp_block s \<noteq> None then block_line env text s
         else if text = ''}'' then Inl ErrBrace
         else (case CutLast (CHR ''{'') text of
                 Some head \<Rightarrow> open_block n (TrimSpace head) s
               | None \<Rightarrow> directive_line env text s))"

fun parse_lines :: "conf_env \<Rightarrow> nat \<Rightarrow> string list \<Rightarrow> conf_state \<Rightarrow> (nat \<times> conf_error) + conf_state" where
  "parse_lines env n [] s = Inr s"
| "parse_lines env n (line # ls) s =
     (case parse_line env n line s of
        Inl e \<Rightarrow> Inl (n, e)
      | Inr s \<Rightarrow> parse_lines env (Suc n) ls s)"

definition parseQueueFile :: "conf_env \<Rightarrow> string \<Rightarrow> (nat \<times> conf_error) + queue_file" where
  "parseQueueFile env src =
     (case parse_lines env 1 (Split (CHR 0x0A) src) \<lparr>cp_out = no_file, cp_seen = [], cp_block = None\<rparr> of
        Inl e \<Rightarrow> Inl e
      | Inr s \<Rightarrow> (case cp_block s of
            Some (_, opened) \<Rightarrow> Inl (opened, ErrNotClosed)
          | None \<Rightarrow> Inr (cp_out s)))"

definition loadQueueFile :: "conf_env \<Rightarrow> string \<Rightarrow> (nat \<times> conf_error) + queue_file" where
  "loadQueueFile env path =
     (case cf_ReadFile env path of None \<Rightarrow> Inl (0, ErrReadFile) | Some raw \<Rightarrow> parseQueueFile env raw)"


section \<open>The environment on top\<close>

text \<open>A variable counts when something is left of it after trimming.\<close>

definition trimmed_env :: "conf_env \<Rightarrow> string \<Rightarrow> string option" where
  "trimmed_env env name =
     (case cf_LookupEnv env name of
        None \<Rightarrow> None
      | Some v \<Rightarrow> if TrimSpace v \<noteq> [] then Some (TrimSpace v) else None)"

definition confPath :: "conf_env \<Rightarrow> string \<Rightarrow> string" where
  "confPath env envName =
     (case trimmed_env env envName of
        Some v \<Rightarrow> v
      | None \<Rightarrow>
          (case find (\<lambda>p. cf_Stat env p = Some False) [''inspector.conf'', ''/app/inspector.conf''] of
             Some p \<Rightarrow> p
           | None \<Rightarrow> []))"

definition exchangeRedis :: "conf_env \<Rightarrow> queue_file \<Rightarrow> string" where
  "exchangeRedis env q = (case trimmed_env env ''REDIS_URL'' of Some v \<Rightarrow> v | None \<Rightarrow> qf_RedisURL q)"

definition internalRedis :: "conf_env \<Rightarrow> string \<Rightarrow> queue_file \<Rightarrow> string \<Rightarrow> string \<times> string" where
  "internalRedis env path q exchange =
     (case trimmed_env env ''REDIS_INTERNAL_URL'' of
        Some v \<Rightarrow> (v, ''REDIS_INTERNAL_URL'')
      | None \<Rightarrow>
          (if qf_RedisInternal q \<noteq> [] then (qf_RedisInternal q, path)
           else if exchange \<noteq> [] then (exchange, InternalFromExchange)
           else ([], [])))"

definition envOverride :: "conf_env \<Rightarrow> string \<Rightarrow> string \<Rightarrow> string" where
  "envOverride env name current = (case trimmed_env env name of Some v \<Rightarrow> v | None \<Rightarrow> current)"

definition redactURL :: "conf_env \<Rightarrow> string \<Rightarrow> string" where
  "redactURL env s = (case cf_url env s of None \<Rightarrow> ''<unparsable>'' | Some (_, _, redacted) \<Rightarrow> redacted)"

record queue_settings =
  qs_Max :: int
  qs_Full :: string
  qs_Expand :: string

definition applyQueueFile :: "queue_settings \<Rightarrow> queue_file \<Rightarrow> queue_settings" where
  "applyQueueFile c q =
     \<lparr>qs_Max = (case qf_Max q of Some n \<Rightarrow> n | None \<Rightarrow> qs_Max c),
      qs_Full = (if qf_Full q \<noteq> [] then qf_Full q else qs_Full c),
      qs_Expand = (if qf_Expand q \<noteq> [] then qf_Expand q else qs_Expand c)\<rparr>"



section \<open>What a file that is accepted holds\<close>

definition queue_file_ok :: "conf_env \<Rightarrow> queue_file \<Rightarrow> bool" where
  "queue_file_ok env q \<longleftrightarrow>
     (\<forall>n. qf_Max q = Some n \<longrightarrow> 1 \<le> n \<and> n < 2 ^ 63) \<and>
     qf_Full q \<in> {[], QueueFullDrop, QueueFullWait} \<and> qf_Expand q \<in> {[], QueueExpandOff, QueueExpandAsk} \<and>
     (qf_RedisURL q \<noteq> [] \<longrightarrow> isRedisURL env (qf_RedisURL q)) \<and>
     (qf_RedisInternal q \<noteq> [] \<longrightarrow> isRedisURL env (qf_RedisInternal q))"

lemma no_file_ok: "queue_file_ok env no_file"
  by (simp add: queue_file_ok_def no_file_def)

lemma set_directive_Inr:
  assumes "set_directive key v out = Inr out'"
  obtains n where "ParseInt v = Some n" "1 \<le> n" "out' = out\<lparr>qf_Max := Some n\<rparr>"
    | "v \<in> {QueueFullDrop, QueueFullWait}" "out' = out\<lparr>qf_Full := v\<rparr>"
    | "v \<in> {QueueExpandOff, QueueExpandAsk}" "out' = out\<lparr>qf_Expand := v\<rparr>"
proof -
  consider (max) "key = ''queue_max''" | (full) "key \<noteq> ''queue_max''" "key = ''queue_full''"
    | (expand) "key \<noteq> ''queue_max''" "key \<noteq> ''queue_full''" "key = ''queue_expand''"
    | (other) "key \<noteq> ''queue_max''" "key \<noteq> ''queue_full''" "key \<noteq> ''queue_expand''" by blast
  then show thesis
  proof cases
    case max
    with assms that(1) show thesis
      unfolding set_directive_def by (simp split: option.splits if_split_asm)
  next
    case full
    have "(if v \<in> {QueueFullDrop, QueueFullWait} then Inr (out\<lparr>qf_Full := v\<rparr>) else Inl ErrFull) = Inr out'"
      using assms unfolding set_directive_def if_not_P [OF full(1)] if_P [OF full(2)] .
    then show thesis by (metis that(2) Inl_Inr_False sum.inject(2))
  next
    case expand
    have "(if v \<in> {QueueExpandOff, QueueExpandAsk} then Inr (out\<lparr>qf_Expand := v\<rparr>) else Inl ErrExpand) = Inr out'"
      using assms unfolding set_directive_def if_not_P [OF expand(1)] if_not_P [OF expand(2)] if_P [OF expand(3)] .
    then show thesis by (metis that(3) Inl_Inr_False sum.inject(2))
  next
    case other
    with assms show thesis unfolding set_directive_def by simp
  qed
qed

lemma set_directive_ok:
  assumes "set_directive key v out = Inr out'" "queue_file_ok env out"
  shows "queue_file_ok env out'"
  using assms(1)
proof (cases rule: set_directive_Inr)
  case (1 n)
  with assms(2) ParseInt_range [OF 1(1)] show ?thesis by (simp add: queue_file_ok_def)
qed (use assms(2) in \<open>unfold queue_file_ok_def, simp\<close>)+

lemma parseRedisKey_Inr:
  assumes "parseRedisKey env text out seen = Inr (out', seen')"
  obtains v where "isRedisURL env v" "out' = out\<lparr>qf_RedisURL := v\<rparr>"
    | v where "isRedisURL env v" "out' = out\<lparr>qf_RedisInternal := v\<rparr>"
proof (cases "statement env text")
  case (Inr kv)
  obtain key v where kv: "kv = (key, v)" by (cases kv)
  have v: "isRedisURL env v" and out: "out' = (if key = ''url'' then out\<lparr>qf_RedisURL := v\<rparr> else out\<lparr>qf_RedisInternal := v\<rparr>)"
    using assms unfolding parseRedisKey_def Let_def Inr kv by (simp_all split: if_split_asm)
  show thesis
  proof (cases "key = ''url''")
    case True
    with v out that(1) show thesis by simp
  next
    case False
    with v out that(2) show thesis by simp
  qed
qed (use assms in \<open>simp add: parseRedisKey_def\<close>)

lemma parseRedisKey_ok:
  assumes "parseRedisKey env text out seen = Inr (out', seen')" "queue_file_ok env out"
  shows "queue_file_ok env out'"
  using assms(1) by (cases rule: parseRedisKey_Inr) (use assms(2) in \<open>simp_all add: queue_file_ok_def\<close>)

lemma block_line_ok:
  assumes "block_line env t s = Inr s'" "queue_file_ok env (cp_out s)"
  shows "queue_file_ok env (cp_out s')"
proof (cases "parseRedisKey env t (cp_out s) (cp_seen s)")
  case (Inr r)
  obtain out seen where r: "r = (out, seen)" by (cases r)
  have "queue_file_ok env out" using parseRedisKey_ok Inr r assms(2) by blast
  with assms show ?thesis unfolding block_line_def Inr r by (auto split: if_split_asm)
qed (use assms in \<open>auto simp: block_line_def split: if_split_asm\<close>)

lemma directive_line_ok:
  assumes "directive_line env t s = Inr s'" "queue_file_ok env (cp_out s)"
  shows "queue_file_ok env (cp_out s')"
proof -
  obtain key v out where "set_directive key v (cp_out s) = Inr out" "cp_out s' = out"
    using assms(1) by (auto simp: directive_line_def split: sum.splits if_split_asm)
  with set_directive_ok assms(2) show ?thesis by blast
qed

lemma open_block_out: "open_block n head s = Inr s' \<Longrightarrow> cp_out s' = cp_out s"
  unfolding open_block_def by (simp split: if_split_asm) auto

lemma parse_line_ok:
  assumes "parse_line env n line s = Inr s'" "queue_file_ok env (cp_out s)"
  shows "queue_file_ok env (cp_out s')"
proof -
  let ?t = "confText line"
  consider "?t = []" | (block) "?t \<noteq> []" "cp_block s \<noteq> None" | (brace) "?t \<noteq> []" "cp_block s = None" "?t = ''}''"
    | (top) "?t \<noteq> []" "cp_block s = None" "?t \<noteq> ''}''" by blast
  then show ?thesis
  proof cases
    case block
    then have "block_line env ?t s = Inr s'" using assms(1) by (simp add: parse_line_def)
    then show ?thesis using assms(2) by (rule block_line_ok)
  next
    case top
    then show ?thesis
      using assms open_block_out directive_line_ok unfolding parse_line_def
      by (cases "CutLast (CHR ''{'') ?t") (simp_all add: directive_line_ok open_block_out)
  qed (use assms in \<open>simp_all add: parse_line_def\<close>)
qed

lemma parse_lines_ok: "parse_lines env n ls s = Inr s' \<Longrightarrow> queue_file_ok env (cp_out s) \<Longrightarrow> queue_file_ok env (cp_out s')"
  by (induction env n ls s rule: parse_lines.induct) (auto split: sum.splits intro: parse_line_ok)

lemma parseQueueFile_ok: "parseQueueFile env src = Inr q \<Longrightarrow> queue_file_ok env q"
  by (auto simp: parseQueueFile_def no_file_ok dest!: parse_lines_ok split: sum.splits option.splits)


section \<open>Writing a file\<close>

text \<open>
  The lines that set what a file can set. The repository only reads such files; this printer is
  not a part of it, but the specification the reader is held against.
\<close>

definition conf_line :: "string \<Rightarrow> string \<Rightarrow> string" where
  "conf_line key v = key @ '' '' @ v @ '';''"

definition opt_line :: "string \<Rightarrow> string \<Rightarrow> string list" where
  "opt_line key v = (if v = [] then [] else [conf_line key v])"

definition conf_lines :: "queue_file \<Rightarrow> string list" where
  "conf_lines q =
     (case qf_Max q of None \<Rightarrow> [] | Some n \<Rightarrow> [conf_line ''queue_max'' (FormatUint (nat n))]) @
     opt_line ''queue_full'' (qf_Full q) @ opt_line ''queue_expand'' (qf_Expand q) @
     [''redis {''] @ opt_line ''url'' (qf_RedisURL q) @ opt_line ''internal'' (qf_RedisInternal q) @ [''}'']"

text \<open>A word of the file: visible characters that do not start a comment.\<close>

definition conf_word :: "string \<Rightarrow> bool" where
  "conf_word v \<longleftrightarrow> v \<noteq> [] \<and> list_all visible v \<and> CHR ''#'' \<notin> set v"

text \<open>What Unicode's tables say of ASCII: its characters are their own runes, and the small letters
  are letters.\<close>

definition ascii_runes :: "conf_env \<Rightarrow> bool" where
  "ascii_runes env \<longleftrightarrow>
     (\<forall>s. list_all visible s \<longrightarrow> cf_runes env s = map of_char s) \<and> (\<forall>r. 97 \<le> r \<and> r \<le> 122 \<longrightarrow> cf_IsLetter env r)"

lemma conf_word_simps:
  assumes "conf_word v"
  shows "TrimSpace v = v" "CHR '' '' \<notin> set v" "CHR 0x09 \<notin> set v" "CHR ''#'' \<notin> set v" "v \<noteq> []" "CHR 0x0A \<notin> set v"
  using assms by (auto simp: conf_word_def list_all_iff visible_def tidy_visible)

lemma visible_in_word: "conf_word v \<Longrightarrow> visible (hd v) \<and> visible (last v)"
  by (auto simp: conf_word_def list_all_iff)

lemma conf_line_text:
  assumes "conf_word key" "conf_word v"
  shows "confText (conf_line key v) = conf_line key v"
proof -
  have "CHR ''#'' \<notin> set (conf_line key v)"
    using assms by (auto simp: conf_line_def conf_word_simps)
  moreover have "tidy (conf_line key v)"
    using visible_in_word [OF assms(1)] assms(1) by (auto simp: tidy_def conf_line_def hd_append conf_word_simps visible_def)
  ultimately show ?thesis
    by (simp add: confText_def Cut_None [THEN iffD2])
qed

lemma statement_conf_line:
  assumes "conf_word key" "conf_word v" "isConfName env key"
  shows "statement env (conf_line key v) = Inr (key, v)"
proof -
  have "tidy (key @ '' '' @ v)"
    using visible_in_word [OF assms(1)] visible_in_word [OF assms(2)] assms(1,2)
    by (auto simp: tidy_def hd_append conf_word_simps)
  then have "requireSemicolon (conf_line key v) = Inr (key @ '' '' @ v)" "TrimSpace (key @ '' '' @ v) = key @ '' '' @ v"
    by (auto simp: requireSemicolon_def conf_line_def CutLast_def butlast_append)
  moreover have "Cut (CHR '' '') (key @ '' '' @ v) = Some (key, v)"
    using conf_word_simps(2) [OF assms(1)] by (simp add: Cut_append)
  ultimately show ?thesis
    using assms conf_word_simps [OF assms(2)] by (simp add: statement_def splitDirective_def)
qed

lemma conf_line_plain:
  "conf_line key v \<noteq> []" "conf_line key v \<noteq> ''}''" "CutLast (CHR ''{'') (conf_line key v) = None"
  by (auto simp: conf_line_def CutLast_def append_eq_Cons_conv)

lemma small_letters_name:
  assumes "ascii_runes env" "s \<noteq> []" "list_all (\<lambda>c. c = CHR ''_'' \<or> (97 \<le> (of_char c :: nat) \<and> (of_char c :: nat) \<le> 122)) s"
  shows "isConfName env s"
proof -
  have "visible c" if "c = CHR ''_'' \<or> (97 \<le> (of_char c :: nat) \<and> (of_char c :: nat) \<le> 122)" for c
    using that by (elim disjE) (simp_all add: visible_def)
  with assms(3) have "list_all visible s"
    by (rule list.pred_mono_strong)
  then have "cf_runes env s = map of_char s"
    using assms(1) by (simp add: ascii_runes_def)
  moreover have "of_char c = (95 :: nat) \<or> cf_IsLetter env (of_char c) \<or> cf_IsDigit env (of_char c)"
    if "c = CHR ''_'' \<or> (97 \<le> (of_char c :: nat) \<and> (of_char c :: nat) \<le> 122)" for c
    using that assms(1) by (elim disjE) (simp_all add: ascii_runes_def)
  ultimately show ?thesis
    using assms(2) list.pred_mono_strong [OF assms(3)] by (simp add: isConfName_def list.pred_map comp_def)
qed

subsection \<open>Line by line\<close>

lemma parse_lines_append:
  "parse_lines env n (ls @ ms) s =
     (case parse_lines env n ls s of Inl e \<Rightarrow> Inl e | Inr s' \<Rightarrow> parse_lines env (n + length ls) ms s')"
  by (induction env n ls s rule: parse_lines.induct) (auto split: sum.splits)

lemma parse_conf_line:
  assumes "conf_word key" "conf_word v" "isConfName env key"
  shows "cp_block s = None \<Longrightarrow> parse_line env n (conf_line key v) s =
      (if key \<in> set (cp_seen s) then Inl ErrTwice
       else case set_directive key v (cp_out s) of
         Inl e \<Rightarrow> Inl e | Inr out \<Rightarrow> Inr (s\<lparr>cp_seen := key # cp_seen s, cp_out := out\<rparr>))"
    and "cp_block s \<noteq> None \<Longrightarrow> parse_line env n (conf_line key v) s =
      (case parseRedisKey env (conf_line key v) (cp_out s) (cp_seen s) of
         Inl e \<Rightarrow> Inl e | Inr (out, seen) \<Rightarrow> Inr (s\<lparr>cp_out := out, cp_seen := seen\<rparr>))"
  by (simp_all add: parse_line_def conf_line_text [OF assms(1,2)] conf_line_plain directive_line_def block_line_def
      statement_conf_line [OF assms])

lemma parse_opt_directive:
  assumes "v \<noteq> [] \<Longrightarrow> conf_word v" "conf_word key" "isConfName env key" "key \<notin> set seen"
    and "v \<noteq> [] \<Longrightarrow> set_directive key v out = Inr out'" "v = [] \<Longrightarrow> out' = out"
  shows "parse_lines env n (opt_line key v) \<lparr>cp_out = out, cp_seen = seen, cp_block = None\<rparr> =
    Inr \<lparr>cp_out = out', cp_seen = (if v = [] then seen else key # seen), cp_block = None\<rparr>"
  using assms by (simp add: opt_line_def parse_conf_line)

lemma parse_opt_redis:
  assumes "v \<noteq> [] \<Longrightarrow> conf_word v" "conf_word key" "isConfName env key" "''redis.'' @ key \<notin> set seen"
    and "v \<noteq> [] \<Longrightarrow> isRedisURL env v" "key = ''url'' \<or> key = ''internal''"
  shows "parse_lines env n (opt_line key v) \<lparr>cp_out = out, cp_seen = seen, cp_block = Some b\<rparr> =
    Inr \<lparr>cp_out = (if v = [] then out else if key = ''url'' then out\<lparr>qf_RedisURL := v\<rparr> else out\<lparr>qf_RedisInternal := v\<rparr>),
      cp_seen = (if v = [] then seen else (''redis.'' @ key) # seen), cp_block = Some b\<rparr>"
proof (cases "v = []")
  case False
  then have "parseRedisKey env (conf_line key v) out seen =
      Inr (if key = ''url'' then out\<lparr>qf_RedisURL := v\<rparr> else out\<lparr>qf_RedisInternal := v\<rparr>, (''redis.'' @ key) # seen)"
    unfolding parseRedisKey_def Let_def statement_conf_line [OF assms(2) assms(1) assms(3), OF False]
    using assms(4,5,6) by simp
  then show ?thesis
    using False parse_conf_line(2) [OF assms(2) assms(1) assms(3), OF False] by (simp add: opt_line_def)
qed (simp add: opt_line_def)

lemma brace_texts: "confText ''redis {'' = ''redis {''" "confText ''}'' = ''}''" "TrimSpace ''redis '' = ''redis''"
proof -
  show "confText ''redis {'' = ''redis {''" "confText ''}'' = ''}''"
    by (simp_all add: confText_def tidy_def visible_def)
  have "strip_front (map rev white_space) (CHR '' '' # rev ''redis'') = strip_front (map rev white_space) (rev ''redis'')"
    by (subst strip_front.simps) (simp add: white_space_def)
  then show "TrimSpace ''redis '' = ''redis''"
    by (simp add: TrimSpace_def visible_def)
qed

lemma parse_block_edges:
  "''redis'' \<notin> set seen \<Longrightarrow> parse_line env n ''redis {'' \<lparr>cp_out = out, cp_seen = seen, cp_block = None\<rparr> =
     Inr \<lparr>cp_out = out, cp_seen = ''redis'' # seen, cp_block = Some (''redis'', n)\<rparr>"
  "parse_line env n ''}'' \<lparr>cp_out = out, cp_seen = seen, cp_block = Some b\<rparr> =
     Inr \<lparr>cp_out = out, cp_seen = seen, cp_block = None\<rparr>"
  by (simp_all add: parse_line_def brace_texts open_block_def block_line_def CutLast_def)

subsection \<open>Numbers and lines\<close>

lemma dec_val_digit: "(d :: nat) < 10 \<Longrightarrow> dec_val (char_of (48 + d)) = Some d"
  by (simp add: dec_val_def)

lemma digit_visible: "(d :: nat) < 10 \<Longrightarrow> visible (char_of (48 + d))"
  by (simp add: visible_def)

lemma FormatUint_digits: "\<exists>ds. FormatUint n = map (\<lambda>d. char_of (48 + d)) ds \<and> list_all (\<lambda>d. d < 10) ds \<and>
    foldl (\<lambda>n d. n * 10 + d) 0 ds = n \<and> ds \<noteq> []"
proof (induction n rule: FormatUint.induct)
  case (1 n)
  show ?case
  proof (cases "n < 10")
    case True
    then show ?thesis by (intro exI [of _ "[n]"]) (simp add: FormatUint_small)
  next
    case False
    with 1 obtain ds where "FormatUint (n div 10) = map (\<lambda>d. char_of (48 + d)) ds" "list_all (\<lambda>d. d < 10) ds"
      "foldl (\<lambda>n d. n * 10 + d) 0 ds = n div 10" by blast
    with False show ?thesis
      by (intro exI [of _ "ds @ [n mod 10]"]) (simp add: FormatUint_big)
  qed
qed

lemma ParseInt_FormatUint:
  assumes "n < 2 ^ 63"
  shows "ParseInt (FormatUint n) = Some (int n)"
proof -
  obtain ds where ds: "FormatUint n = map (\<lambda>d. char_of (48 + d)) ds" "list_all (\<lambda>d. d < 10) ds"
    "foldl (\<lambda>n d. n * 10 + d) 0 ds = n" "ds \<noteq> []"
    using FormatUint_digits by blast
  then obtain d ds' where d: "ds = d # ds'" "d < 10" by (cases ds) auto
  have "map dec_val (FormatUint n) = map Some ds"
    using ds(1,2) by (auto simp: list_all_iff dec_val_digit)
  then have "ParseDigits (FormatUint n) = Some (int n)"
    using ds(3) by (simp add: ParseDigits_def all_some_map)
  moreover have "(char_of (48 + d) :: char) \<noteq> CHR ''-''" "(char_of (48 + d) :: char) \<noteq> CHR ''+''"
    using d(2) by (auto dest!: arg_cong [of _ _ "of_char :: char \<Rightarrow> nat"])
  ultimately show ?thesis
    using assms ds(1) d(1) by (simp add: ParseInt_def)
qed

lemma FormatUint_word: "conf_word (FormatUint n)"
proof -
  obtain ds :: "nat list" where "FormatUint n = map (\<lambda>d. char_of (48 + d)) ds" "list_all (\<lambda>d. d < 10) ds" "ds \<noteq> []"
    using FormatUint_digits by blast
  then show ?thesis
    by (auto simp: conf_word_def list_all_iff digit_visible dest!: arg_cong [of _ _ "of_char :: char \<Rightarrow> nat"])
qed

lemma Split_Join:
  "ls \<noteq> [] \<Longrightarrow> list_all (\<lambda>l. sep \<notin> set l) ls \<Longrightarrow> Split sep (Join [sep] ls) = ls"
  by (induction "[sep]" ls rule: Join.induct) (auto simp: Split_single Split_append)

lemma key_words:
  "conf_word ''queue_max''" "conf_word ''queue_full''" "conf_word ''queue_expand''" "conf_word ''url''" "conf_word ''internal''"
  "conf_word ''drop''" "conf_word ''wait''" "conf_word ''off''" "conf_word ''ask''"
  by (simp_all add: conf_word_def visible_def)

lemma key_names:
  assumes "ascii_runes env"
  shows "isConfName env ''queue_max''" "isConfName env ''queue_full''" "isConfName env ''queue_expand''"
    "isConfName env ''url''" "isConfName env ''internal''"
  by (rule small_letters_name [OF assms]; simp)+

lemma conf_line_no_newline: "conf_word key \<Longrightarrow> conf_word v \<Longrightarrow> CHR 0x0A \<notin> set (conf_line key v)"
  by (auto simp: conf_line_def conf_word_simps)

lemma conf_lines_split:
  assumes "queue_file_ok env q" "qf_RedisURL q \<noteq> [] \<Longrightarrow> conf_word (qf_RedisURL q)"
    and "qf_RedisInternal q \<noteq> [] \<Longrightarrow> conf_word (qf_RedisInternal q)"
  shows "Split (CHR 0x0A) (Join [CHR 0x0A] (conf_lines q)) = conf_lines q"
proof (rule Split_Join)
  have "qf_Full q \<noteq> [] \<Longrightarrow> conf_word (qf_Full q)" "qf_Expand q \<noteq> [] \<Longrightarrow> conf_word (qf_Expand q)"
    using assms(1) key_words unfolding queue_file_ok_def by auto
  with assms(2,3) show "list_all (\<lambda>l. CHR 0x0A \<notin> set l) (conf_lines q)"
    by (simp add: conf_lines_def opt_line_def conf_line_no_newline key_words FormatUint_word split: option.split)
qed (simp add: conf_lines_def)

text \<open>The parts of the file, each from the state that the parts before it leave.\<close>

lemma parse_queue_part:
  assumes "ascii_runes env" "queue_file_ok env q"
  shows "\<exists>seen. parse_lines env n ((case qf_Max q of None \<Rightarrow> [] | Some m \<Rightarrow> [conf_line ''queue_max'' (FormatUint (nat m))]) @
      opt_line ''queue_full'' (qf_Full q) @ opt_line ''queue_expand'' (qf_Expand q))
      \<lparr>cp_out = no_file, cp_seen = [], cp_block = None\<rparr> =
    Inr \<lparr>cp_out = no_file\<lparr>qf_Max := qf_Max q, qf_Full := qf_Full q, qf_Expand := qf_Expand q\<rparr>, cp_seen = seen, cp_block = None\<rparr> \<and>
    set seen \<subseteq> {''queue_max'', ''queue_full'', ''queue_expand''}"
proof -
  let ?m = "case qf_Max q of None \<Rightarrow> [] | Some m \<Rightarrow> [conf_line ''queue_max'' (FormatUint (nat m))]"
  obtain seen1 where max: "parse_lines env n ?m \<lparr>cp_out = no_file, cp_seen = [], cp_block = None\<rparr> =
      Inr \<lparr>cp_out = no_file\<lparr>qf_Max := qf_Max q\<rparr>, cp_seen = seen1, cp_block = None\<rparr>" "set seen1 \<subseteq> {''queue_max''}"
  proof (cases "qf_Max q")
    case None
    with that [of "[]"] show thesis by (simp add: no_file_def)
  next
    case (Some m)
    then have "1 \<le> m" "m < 2 ^ 63" using assms(2) by (auto simp: queue_file_ok_def)
    then have "ParseInt (FormatUint (nat m)) = Some m" by (subst ParseInt_FormatUint) auto
    with Some \<open>1 \<le> m\<close> that [of "[''queue_max'']"] show thesis
      by (simp add: parse_conf_line(1) [OF key_words(1) FormatUint_word key_names(1) [OF assms(1)]] set_directive_def)
  qed
  have full: "qf_Full q \<noteq> [] \<Longrightarrow> conf_word (qf_Full q)" and full': "qf_Full q \<noteq> [] \<Longrightarrow> qf_Full q \<in> {QueueFullDrop, QueueFullWait}"
    and expand: "qf_Expand q \<noteq> [] \<Longrightarrow> conf_word (qf_Expand q)" and expand': "qf_Expand q \<noteq> [] \<Longrightarrow> qf_Expand q \<in> {QueueExpandOff, QueueExpandAsk}"
    using assms(2) key_words unfolding queue_file_ok_def by auto
  let ?o1 = "no_file\<lparr>qf_Max := qf_Max q\<rparr>" and ?seen2 = "if qf_Full q = [] then seen1 else ''queue_full'' # seen1"
  have set_full: "parse_lines env k (opt_line ''queue_full'' (qf_Full q)) \<lparr>cp_out = ?o1, cp_seen = seen1, cp_block = None\<rparr> =
    Inr \<lparr>cp_out = ?o1\<lparr>qf_Full := qf_Full q\<rparr>, cp_seen = ?seen2, cp_block = None\<rparr>" for k
    using max(2) full' by (intro parse_opt_directive full key_words key_names assms(1)) (auto simp: set_directive_def no_file_def)
  have set_expand: "parse_lines env k (opt_line ''queue_expand'' (qf_Expand q))
      \<lparr>cp_out = ?o1\<lparr>qf_Full := qf_Full q\<rparr>, cp_seen = ?seen2, cp_block = None\<rparr> =
    Inr \<lparr>cp_out = ?o1\<lparr>qf_Full := qf_Full q, qf_Expand := qf_Expand q\<rparr>,
      cp_seen = (if qf_Expand q = [] then ?seen2 else ''queue_expand'' # ?seen2), cp_block = None\<rparr>" for k
    using max(2) expand' by (intro parse_opt_directive expand key_words key_names assms(1)) (auto simp: set_directive_def no_file_def)
  have "set (if qf_Expand q = [] then ?seen2 else ''queue_expand'' # ?seen2) \<subseteq> {''queue_max'', ''queue_full'', ''queue_expand''}"
    using max(2) by auto
  then show ?thesis
    by (intro exI conjI) (simp_all only: parse_lines_append max(1) set_full set_expand sum.case)
qed

lemma parse_redis_part:
  assumes "ascii_runes env" "queue_file_ok env q" "set seen \<subseteq> {''queue_max'', ''queue_full'', ''queue_expand''}"
    and "qf_RedisURL q \<noteq> [] \<Longrightarrow> conf_word (qf_RedisURL q)" "qf_RedisInternal q \<noteq> [] \<Longrightarrow> conf_word (qf_RedisInternal q)"
    and "qf_RedisURL out = []" "qf_RedisInternal out = []"
  shows "\<exists>seen'. parse_lines env n ([''redis {''] @ opt_line ''url'' (qf_RedisURL q) @ opt_line ''internal'' (qf_RedisInternal q) @ [''}''])
      \<lparr>cp_out = out, cp_seen = seen, cp_block = None\<rparr> =
    Inr \<lparr>cp_out = out\<lparr>qf_RedisURL := qf_RedisURL q, qf_RedisInternal := qf_RedisInternal q\<rparr>, cp_seen = seen', cp_block = None\<rparr>"
proof -
  let ?s1 = "''redis'' # seen" and ?b = "(''redis'', n)"
  let ?o2 = "if qf_RedisURL q = [] then out else out\<lparr>qf_RedisURL := qf_RedisURL q\<rparr>"
  let ?s2 = "if qf_RedisURL q = [] then ?s1 else ''redis.url'' # ?s1"
  let ?o3 = "if qf_RedisInternal q = [] then ?o2 else ?o2\<lparr>qf_RedisInternal := qf_RedisInternal q\<rparr>"
  let ?s3 = "if qf_RedisInternal q = [] then ?s2 else ''redis.internal'' # ?s2"
  have ok: "qf_RedisURL q \<noteq> [] \<Longrightarrow> isRedisURL env (qf_RedisURL q)" "qf_RedisInternal q \<noteq> [] \<Longrightarrow> isRedisURL env (qf_RedisInternal q)"
    using assms(2) by (auto simp: queue_file_ok_def)
  have "''redis'' \<notin> set seen" "''redis.url'' \<notin> set ?s1" "''redis.internal'' \<notin> set ?s2"
    using assms(3) by auto
  note seen = this
  have opened: "parse_lines env n [''redis {''] \<lparr>cp_out = out, cp_seen = seen, cp_block = None\<rparr> =
      Inr \<lparr>cp_out = out, cp_seen = ?s1, cp_block = Some ?b\<rparr>"
    using parse_block_edges(1) [OF seen(1), of env n out] by simp
  have url: "parse_lines env k (opt_line ''url'' (qf_RedisURL q)) \<lparr>cp_out = out, cp_seen = ?s1, cp_block = Some ?b\<rparr> =
      Inr \<lparr>cp_out = ?o2, cp_seen = ?s2, cp_block = Some ?b\<rparr>" for k
    using parse_opt_redis [OF assms(4) key_words(4) key_names(4) [OF assms(1)], of ?s1] ok(1) seen(2) by simp
  have internal: "parse_lines env k (opt_line ''internal'' (qf_RedisInternal q)) \<lparr>cp_out = ?o2, cp_seen = ?s2, cp_block = Some ?b\<rparr> =
      Inr \<lparr>cp_out = ?o3, cp_seen = ?s3, cp_block = Some ?b\<rparr>" for k
    using parse_opt_redis [OF assms(5) key_words(5) key_names(5) [OF assms(1)], of ?s2] ok(2) seen(3) by simp
  have closed: "parse_lines env k [''}''] \<lparr>cp_out = o', cp_seen = s', cp_block = Some b\<rparr> =
      Inr \<lparr>cp_out = o', cp_seen = s', cp_block = None\<rparr>" for k o' s' b
    using parse_block_edges(2) by simp
  have "?o3 = out\<lparr>qf_RedisURL := qf_RedisURL q, qf_RedisInternal := qf_RedisInternal q\<rparr>"
    using assms(6,7) by auto
  then show ?thesis
    by (intro exI [of _ ?s3]) (simp only: parse_lines_append opened url internal closed sum.case)
qed


section \<open>Properties\<close>

text \<open>C33: Reading back what was written gives the settings that were written, whichever of them are set;
  and whatever text is accepted holds only settings in range: a positive depth, a known reaction
  to a full queue, and addresses that are Redis URLs.\<close>

theorem conf_round_trip:
  "(ascii_runes env \<and> queue_file_ok env q \<and> (qf_RedisURL q \<noteq> [] \<longrightarrow> conf_word (qf_RedisURL q)) \<and>
      (qf_RedisInternal q \<noteq> [] \<longrightarrow> conf_word (qf_RedisInternal q)) \<longrightarrow>
      parseQueueFile env (Join [CHR 0x0A] (conf_lines q)) = Inr q) \<and>
   (parseQueueFile env src = Inr q' \<longrightarrow> queue_file_ok env q')"
proof (intro conjI impI)
  assume "ascii_runes env \<and> queue_file_ok env q \<and> (qf_RedisURL q \<noteq> [] \<longrightarrow> conf_word (qf_RedisURL q)) \<and>
      (qf_RedisInternal q \<noteq> [] \<longrightarrow> conf_word (qf_RedisInternal q))"
  then have runes: "ascii_runes env" and ok: "queue_file_ok env q"
    and words: "qf_RedisURL q \<noteq> [] \<Longrightarrow> conf_word (qf_RedisURL q)" "qf_RedisInternal q \<noteq> [] \<Longrightarrow> conf_word (qf_RedisInternal q)"
    by blast+
  let ?o = "no_file\<lparr>qf_Max := qf_Max q, qf_Full := qf_Full q, qf_Expand := qf_Expand q\<rparr>"
  let ?qs = "(case qf_Max q of None \<Rightarrow> [] | Some m \<Rightarrow> [conf_line ''queue_max'' (FormatUint (nat m))]) @
      opt_line ''queue_full'' (qf_Full q) @ opt_line ''queue_expand'' (qf_Expand q)"
  obtain seen where queue: "parse_lines env 1 ?qs \<lparr>cp_out = no_file, cp_seen = [], cp_block = None\<rparr> =
      Inr \<lparr>cp_out = ?o, cp_seen = seen, cp_block = None\<rparr>" "set seen \<subseteq> {''queue_max'', ''queue_full'', ''queue_expand''}"
    using parse_queue_part [OF runes ok] by blast
  obtain seen' where redis: "parse_lines env (1 + length ?qs)
      ([''redis {''] @ opt_line ''url'' (qf_RedisURL q) @ opt_line ''internal'' (qf_RedisInternal q) @ [''}''])
      \<lparr>cp_out = ?o, cp_seen = seen, cp_block = None\<rparr> =
      Inr \<lparr>cp_out = ?o\<lparr>qf_RedisURL := qf_RedisURL q, qf_RedisInternal := qf_RedisInternal q\<rparr>, cp_seen = seen', cp_block = None\<rparr>"
    using parse_redis_part [OF runes ok queue(2) words, where out = ?o] by (auto simp: no_file_def)
  have "parse_lines env 1 (conf_lines q) \<lparr>cp_out = no_file, cp_seen = [], cp_block = None\<rparr> =
      Inr \<lparr>cp_out = q, cp_seen = seen', cp_block = None\<rparr>"
    using parse_lines_append [of env 1 ?qs] queue(1) redis by (simp add: conf_lines_def no_file_def)
  then show "parseQueueFile env (Join [CHR 0x0A] (conf_lines q)) = Inr q"
    using conf_lines_split [OF ok words] by (simp add: parseQueueFile_def)
qed (rule parseQueueFile_ok)

definition sample_conf_env :: conf_env where
  "sample_conf_env = \<lparr>cf_LookupEnv = Map.empty, cf_Stat = (\<lambda>p. if p = ''inspector.conf'' then Some False else Some True),
     cf_ReadFile = (\<lambda>p. Some []), cf_runes = map of_char, cf_IsLetter = (\<lambda>r. 97 \<le> r \<and> r \<le> 122),
     cf_IsDigit = (\<lambda>r. 48 \<le> r \<and> r \<le> 57), cf_url = (\<lambda>s. Some (''redis'', ''r:6379'', s))\<rparr>"

definition sample_queue_file :: queue_file where
  "sample_queue_file = \<lparr>qf_Max = Some 256, qf_Full = ''drop'', qf_Expand = [], qf_RedisURL = ''redis://r:6379'', qf_RedisInternal = []\<rparr>"

lemma sample_queue_file_ok: "ascii_runes sample_conf_env" "queue_file_ok sample_conf_env sample_queue_file"
  by (simp_all add: ascii_runes_def sample_conf_env_def queue_file_ok_def sample_queue_file_def isRedisURL_def)

theorem conf_round_trip_witness:
  "parseQueueFile sample_conf_env (Join [CHR 0x0A] (conf_lines sample_queue_file)) = Inr sample_queue_file"
proof -
  have "conf_word (qf_RedisURL sample_queue_file)" "qf_RedisInternal sample_queue_file = []"
    by (simp_all add: sample_queue_file_def conf_word_def visible_def)
  with conf_round_trip [of sample_conf_env sample_queue_file "[]" sample_queue_file] sample_queue_file_ok show ?thesis by simp
qed

end
