(* ===== verification/ProcConfig.thy ===== *)
theory ProcConfig
  imports ConfFile Token Queue
begin

text \<open>
  The configuration of the two processes (\<open>internal/config/config.go\<close>, \<open>logship.go\<close>): what each
  takes from the environment, the file and the defaults, and the checks before it starts.

  \<open>load_env\<close> adds to \<open>conf_env\<close> the host name, the number of processors, the case tables,
  \<open>time.ParseDuration\<close>, \<open>filepath.Abs\<close>, the log levels of the shared module, and the two
  primitives of \<open>token.NewKey\<close>.
\<close>

section \<open>Values of the environment\<close>

record load_env = conf_env +
  le_ct :: case_tables
  le_Hostname :: "string option"
  le_GOMAXPROCS :: int
  le_ParseDuration :: "string \<Rightarrow> duration option"
  le_Abs :: "string \<Rightarrow> string option"
  le_loglevel :: "string \<Rightarrow> int option"
  le_hmac_sha256 :: "bytes \<Rightarrow> bytes \<Rightarrow> bytes"
  le_aes_gcm :: "bytes \<Rightarrow> aead option"

datatype load_error = BadEnv string | BadConf "nat \<times> conf_error" | BadSetting string

text \<open>A variable that is set and not empty.\<close>

definition env_set :: "('a conf_env_scheme) \<Rightarrow> string \<Rightarrow> string option" where
  "env_set env name = (case cf_LookupEnv env name of Some v \<Rightarrow> if v \<noteq> [] then Some v else None | None \<Rightarrow> None)"

definition env_str :: "('a conf_env_scheme) \<Rightarrow> string \<Rightarrow> string \<Rightarrow> string" where
  "env_str env name def = (case env_set env name of Some v \<Rightarrow> v | None \<Rightarrow> def)"

definition envBool :: "load_env \<Rightarrow> string \<Rightarrow> bool \<Rightarrow> bool" where
  "envBool env name def =
     (case env_set env name of
        None \<Rightarrow> def
      | Some raw \<Rightarrow>
          (let v = ct_lower (le_ct env) (TrimSpace raw)
           in if v \<in> {''1'', ''on'', ''true'', ''yes''} then True
              else if v \<in> {''0'', ''off'', ''false'', ''no''} then False
              else def))"

definition envIntIfSet :: "load_env \<Rightarrow> string \<Rightarrow> int \<Rightarrow> load_error + int" where
  "envIntIfSet env name def =
     (case env_set env name of
        None \<Rightarrow> Inr def
      | Some raw \<Rightarrow> (case ParseInt (TrimSpace raw) of None \<Rightarrow> Inl (BadEnv name) | Some n \<Rightarrow> Inr n))"

definition envInt :: "load_env \<Rightarrow> string \<Rightarrow> int \<Rightarrow> load_error + int" where
  "envInt env name def = envIntIfSet env name def"

definition splitList :: "string \<Rightarrow> string list" where
  "splitList s = filter (\<lambda>p. p \<noteq> []) (map TrimSpace (Split (CHR '','') s))"

definition envIntList :: "load_env \<Rightarrow> string \<Rightarrow> int list \<Rightarrow> load_error + int list" where
  "envIntList env name def =
     (case env_set env name of
        None \<Rightarrow> Inr def
      | Some raw \<Rightarrow> (case all_some (map ParseInt (splitList raw)) of None \<Rightarrow> Inl (BadEnv name) | Some ns \<Rightarrow> Inr ns))"

definition envDuration :: "load_env \<Rightarrow> string \<Rightarrow> duration \<Rightarrow> load_error + duration" where
  "envDuration env name def =
     (case env_set env name of
        None \<Rightarrow> Inr def
      | Some raw \<Rightarrow>
          (case le_ParseDuration env (TrimSpace raw) of
             None \<Rightarrow> Inl (BadEnv name)
           | Some d \<Rightarrow> if d \<le> 0 then Inl (BadEnv name) else Inr d))"

definition LogShip :: "load_env \<Rightarrow> bool" where
  "LogShip env =
     (let v = ct_lower (le_ct env) (TrimSpace (case cf_LookupEnv env ''WAF_LOG_SHIP'' of Some v \<Rightarrow> v | None \<Rightarrow> []))
      in v \<notin> {''off'', ''0'', ''no'', ''false''})"

definition LogWriter :: "load_env \<Rightarrow> string \<Rightarrow> string" where
  "LogWriter env fallback =
     (let v = TrimSpace (case cf_LookupEnv env ''WAF_LOG_WRITER'' of Some v \<Rightarrow> v | None \<Rightarrow> [])
      in if v \<noteq> [] then v
         else (case le_Hostname env of Some name \<Rightarrow> if name \<noteq> [] then name else fallback | None \<Rightarrow> fallback))"


section \<open>The configuration\<close>

abbreviation "RoleInspector \<equiv> ''inspector''"
abbreviation "RoleHTTP \<equiv> ''http''"

record proc_config =
  pc_Role :: string
  pc_Servers :: "string list"
  pc_Subject :: string
  pc_Name :: string
  pc_Queue :: string
  pc_ProfilesDir :: string
  pc_DataDir :: string
  pc_WebDir :: string
  pc_KeyFile :: string
  pc_Key :: "aead option"
  pc_AppKeyFile :: string
  pc_AppKey :: "aead option"
  pc_RedisURL :: string
  pc_InternalURL :: string
  pc_InternalFrom :: string
  pc_StoreTimeout :: duration
  pc_HTTPURL :: string
  pc_ControllerURL :: string
  pc_Scope :: string
  pc_ContourKeyFile :: string
  pc_Listen :: string
  pc_CookieSecure :: bool
  pc_RealIPHeader :: string
  pc_VerifyLimit :: int
  pc_ReloadEvery :: duration
  pc_Workers :: int
  pc_QueueDepth :: int
  pc_QueueFull :: string
  pc_QueueExpand :: string
  pc_ConfPath :: string
  pc_ReserveMS :: int
  pc_MinBudgetMS :: int
  pc_Versions :: "int list"
  pc_LogLevel :: int
  pc_HeartbeatEvery :: duration
  pc_GeoAddr :: string
  pc_GeoTimeout :: duration
  pc_GeoNegMax :: int

definition Config_Supports :: "proc_config \<Rightarrow> int \<Rightarrow> bool" where
  "Config_Supports c v = member_loop (pc_Versions c) v"


text \<open>\<open>if v, err = f(); err != nil { return nil, err }\<close>\<close>

definition or_fail :: "load_error + 'a \<Rightarrow> ('a \<Rightarrow> load_error + 'b) \<Rightarrow> load_error + 'b" where
  "or_fail r f = (case r of Inl e \<Rightarrow> Inl e | Inr v \<Rightarrow> f v)"

lemma or_fail_Inr: "or_fail r f = Inr v \<longleftrightarrow> (\<exists>u. r = Inr u \<and> f u = Inr v)"
  by (auto simp: or_fail_def split: sum.splits)

definition read_key :: "load_env \<Rightarrow> string \<Rightarrow> load_error + aead" where
  "read_key env path =
     (case cf_ReadFile env path of
        None \<Rightarrow> Inl (BadSetting ''key file'')
      | Some raw \<Rightarrow> (case NewKey (le_hmac_sha256 env) (le_aes_gcm env) raw of
            None \<Rightarrow> Inl (BadSetting ''key'') | Some k \<Rightarrow> Inr k))"

definition loadKey :: "load_env \<Rightarrow> proc_config \<Rightarrow> load_error + proc_config" where
  "loadKey env c =
     (if pc_KeyFile c = [] then Inl (BadSetting ''WAF_AUTH_KEY_FILE'')
      else or_fail (read_key env (pc_KeyFile c)) (\<lambda>k.
        let c = c\<lparr>pc_Key := Some k\<rparr>
        in if pc_AppKeyFile c = [] then Inr c
           else or_fail (read_key env (pc_AppKeyFile c)) (\<lambda>k. Inr (c\<lparr>pc_AppKey := Some k\<rparr>))))"

text \<open>A directory setting becomes its absolute path.\<close>

definition abs_dir :: "load_env \<Rightarrow> string \<Rightarrow> load_error + string" where
  "abs_dir env path =
     (case le_Abs env path of
        None \<Rightarrow> Inl (BadSetting ''directory'')
      | Some p \<Rightarrow> if cf_Stat env p = Some True then Inr p else Inl (BadSetting ''directory''))"

definition inspector_checks :: "proc_config \<Rightarrow> (bool \<times> string) list" where
  "inspector_checks c =
     [(pc_Servers c = [], ''NATS_URL is empty''),
      (pc_Subject c = [] \<or> pc_Queue c = [], ''subject and queue must not be empty''),
      (pc_Workers c < 1, ''WAF_AUTH_WORKERS must be positive''),
      (pc_QueueDepth c < 1, ''queue_max must be positive''),
      (pc_QueueFull c \<notin> {QueueFullDrop, QueueFullWait}, ''queue_full must be drop or wait''),
      (pc_QueueExpand c \<notin> {QueueExpandOff, QueueExpandAsk}, ''queue_expand must be off or ask''),
      (pc_ReserveMS c < 0 \<or> pc_MinBudgetMS c < 0, ''must not be negative''),
      (pc_Versions c = [], ''WAF_AUTH_VERSIONS is empty''),
      (pc_RedisURL c = [], ''REDIS_URL is empty'')]"

definition validateInspector :: "proc_config \<Rightarrow> load_error + proc_config" where
  "validateInspector c = (case first_err (inspector_checks c) of Some e \<Rightarrow> Inl (BadSetting e) | None \<Rightarrow> Inr c)"

definition validateHTTP :: "load_env \<Rightarrow> proc_config \<Rightarrow> load_error + proc_config" where
  "validateHTTP env c =
     (if pc_Listen c = [] then Inl (BadSetting ''WAF_AUTH_LISTEN is empty'')
      else if pc_VerifyLimit c < 1 then Inl (BadSetting ''WAF_AUTH_VERIFY_LIMIT must be positive'')
      else or_fail (abs_dir env (pc_WebDir c)) (\<lambda>p. Inr (c\<lparr>pc_WebDir := p\<rparr>)))"

definition Config_validate :: "load_env \<Rightarrow> proc_config \<Rightarrow> load_error + proc_config" where
  "Config_validate env c =
     (if pc_Name c = [] then Inl (BadSetting ''WAF_AUTH_NAME is empty'')
      else or_fail (loadKey env c) (\<lambda>c.
        or_fail (abs_dir env (pc_ProfilesDir c)) (\<lambda>p.
          let c = c\<lparr>pc_ProfilesDir := p\<rparr>
          in if pc_Role c = RoleInspector then validateInspector c
             else if pc_Role c = RoleHTTP then validateHTTP env c
             else Inl (BadSetting ''unknown role''))))"

definition conf_of :: "load_env \<Rightarrow> conf_env" where
  "conf_of env = conf_env.truncate env"

definition read_conf :: "load_env \<Rightarrow> string \<Rightarrow> load_error + queue_file" where
  "read_conf env path =
     (if path = [] then Inr no_file
      else (case loadQueueFile (conf_of env) path of Inl e \<Rightarrow> Inl (BadConf e) | Inr q \<Rightarrow> Inr q))"

definition default_queue :: queue_settings where
  "default_queue = \<lparr>qs_Max = 256, qs_Full = QueueFullDrop, qs_Expand = QueueExpandOff\<rparr>"

definition Config_Load :: "load_env \<Rightarrow> string \<Rightarrow> load_error + proc_config" where
  "Config_Load env role =
     (let name = env_str env ''WAF_AUTH_NAME'' ''auth'';
          path = confPath (conf_of env) ''WAF_AUTH_CONF''
      in or_fail (envDuration env ''WAF_AUTH_GEO_TIMEOUT'' (500 * millisecond)) (\<lambda>geoTimeout.
         or_fail (envInt env ''WAF_AUTH_GEO_NEG_MAX'' 0) (\<lambda>geoNegMax.
         or_fail (envInt env ''WAF_AUTH_WORKERS'' (le_GOMAXPROCS env)) (\<lambda>workers.
         or_fail (envInt env ''WAF_AUTH_VERIFY_LIMIT'' (max 2 (le_GOMAXPROCS env))) (\<lambda>verifyLimit.
         or_fail (read_conf env path) (\<lambda>conf.
         let q = applyQueueFile default_queue conf;
             exchange = exchangeRedis (conf_of env) conf;
             (internal, from) = internalRedis (conf_of env) path conf exchange
         in or_fail (envIntIfSet env ''WAF_AUTH_QUEUE_DEPTH'' (qs_Max q)) (\<lambda>depth.
         or_fail (envInt env ''WAF_AUTH_RESERVE_MS'' 1) (\<lambda>reserve.
         or_fail (envInt env ''WAF_AUTH_MIN_BUDGET_MS'' 1) (\<lambda>minBudget.
         or_fail (envIntList env ''WAF_AUTH_VERSIONS'' [2]) (\<lambda>versions.
         or_fail (case le_loglevel env (env_str env ''WAF_AUTH_LOG'' ''info'') of
                    None \<Rightarrow> Inl (BadEnv ''WAF_AUTH_LOG'') | Some l \<Rightarrow> Inr l) (\<lambda>level.
         or_fail (envDuration env ''WAF_HEARTBEAT_EVERY'' (4 * second)) (\<lambda>heartbeat.
         or_fail (envDuration env ''WAF_AUTH_RELOAD_EVERY'' second) (\<lambda>reload.
         or_fail (envDuration env ''WAF_AUTH_STORE_TIMEOUT'' (150 * millisecond)) (\<lambda>storeTimeout.
         Config_validate env
           \<lparr>pc_Role = role,
            pc_Servers = splitList (env_str env ''NATS_URL'' ''nats://127.0.0.1:4222''),
            pc_Subject = env_str env ''WAF_AUTH_SUBJECT'' ''waf.req.auth'',
            pc_Name = name, pc_Queue = env_str env ''WAF_AUTH_QUEUE'' name,
            pc_ProfilesDir = env_str env ''WAF_AUTH_PROFILES'' ''./profiles'',
            pc_DataDir = env_str env ''WAF_AUTH_DATA'' [], pc_WebDir = env_str env ''WAF_AUTH_WEB'' ''./web'',
            pc_KeyFile = env_str env ''WAF_AUTH_KEY_FILE'' [], pc_Key = None,
            pc_AppKeyFile = env_str env ''WAF_AUTH_APP_KEY_FILE'' [], pc_AppKey = None,
            pc_RedisURL = exchange, pc_InternalURL = internal, pc_InternalFrom = from, pc_StoreTimeout = storeTimeout,
            pc_HTTPURL = TrimRightBytes ''/'' (env_str env ''WAF_AUTH_HTTP_URL'' []),
            pc_ControllerURL = env_str env ''WAF_AUTH_CONTROLLER'' [], pc_Scope = env_str env ''WAF_AUTH_SCOPE'' [],
            pc_ContourKeyFile = env_str env ''WAF_AUTH_CONTOUR_KEY'' [],
            pc_Listen = env_str env ''WAF_AUTH_LISTEN'' '':8080'',
            pc_CookieSecure = envBool env ''WAF_AUTH_COOKIE_SECURE'' True,
            pc_RealIPHeader = env_str env ''WAF_AUTH_REAL_IP_HEADER'' ''X-Forwarded-For'',
            pc_VerifyLimit = verifyLimit, pc_ReloadEvery = reload, pc_Workers = workers,
            pc_QueueDepth = depth, pc_QueueFull = envOverride (conf_of env) ''WAF_AUTH_QUEUE_FULL'' (qs_Full q),
            pc_QueueExpand = envOverride (conf_of env) ''WAF_AUTH_QUEUE_EXPAND'' (qs_Expand q), pc_ConfPath = path,
            pc_ReserveMS = reserve, pc_MinBudgetMS = minBudget, pc_Versions = versions, pc_LogLevel = level,
            pc_HeartbeatEvery = heartbeat, pc_GeoAddr = env_str env ''WAF_AUTH_GEO_ADDR'' [],
            pc_GeoTimeout = geoTimeout, pc_GeoNegMax = geoNegMax\<rparr>))))))))))))))"



section \<open>What a process starts with\<close>

lemma envDuration_positive: "envDuration env name def = Inr d \<Longrightarrow> 0 < def \<Longrightarrow> 0 < d"
  by (auto simp: envDuration_def split: option.splits if_splits)

lemma loadKey_Inr:
  "loadKey env c = Inr c' \<longleftrightarrow> pc_KeyFile c \<noteq> [] \<and> (\<exists>k. read_key env (pc_KeyFile c) = Inr k \<and>
     (if pc_AppKeyFile c = [] then c' = c\<lparr>pc_Key := Some k\<rparr>
      else \<exists>k'. read_key env (pc_AppKeyFile c) = Inr k' \<and> c' = c\<lparr>pc_Key := Some k, pc_AppKey := Some k'\<rparr>))"
  unfolding loadKey_def or_fail_Inr Let_def if_distrib [of "\<lambda>r. r = Inr c'"]
  by (cases "pc_KeyFile c = []"; cases "pc_AppKeyFile c = []") (simp_all add: or_fail_Inr, (metis sum.inject(2))+)

lemma abs_dir_Inr: "abs_dir env path = Inr p \<longleftrightarrow> le_Abs env path = Some p \<and> cf_Stat env p = Some True"
  by (auto simp: abs_dir_def split: option.splits)

lemma validateInspector_Inr: "validateInspector c = Inr c' \<longleftrightarrow> c' = c \<and> (\<forall>x \<in> set (inspector_checks c). \<not> fst x)"
  by (auto simp: validateInspector_def split: option.splits simp flip: first_err_None)

lemma validateHTTP_Inr:
  "validateHTTP env c = Inr c' \<longleftrightarrow> pc_Listen c \<noteq> [] \<and> 1 \<le> pc_VerifyLimit c \<and>
     (\<exists>p. abs_dir env (pc_WebDir c) = Inr p \<and> c' = c\<lparr>pc_WebDir := p\<rparr>)"
  by (auto simp: validateHTTP_def or_fail_Inr)

lemma Config_validate_Inr:
  assumes "Config_validate env c = Inr c'"
  obtains k k' p where "pc_Name c \<noteq> []" "pc_KeyFile c \<noteq> []" "read_key env (pc_KeyFile c) = Inr k" "abs_dir env (pc_ProfilesDir c) = Inr p"
    "pc_Role c = RoleInspector" "c' = c\<lparr>pc_Key := Some k, pc_AppKey := k', pc_ProfilesDir := p\<rparr>"
    "\<forall>x \<in> set (inspector_checks c'). \<not> fst x"
  | k k' p w where "pc_Name c \<noteq> []" "pc_KeyFile c \<noteq> []" "read_key env (pc_KeyFile c) = Inr k" "abs_dir env (pc_ProfilesDir c) = Inr p"
    "pc_Role c = RoleHTTP" "c' = c\<lparr>pc_Key := Some k, pc_AppKey := k', pc_ProfilesDir := p, pc_WebDir := w\<rparr>"
    "pc_Listen c \<noteq> []" "1 \<le> pc_VerifyLimit c" "abs_dir env (pc_WebDir c) = Inr w"
proof -
  obtain c1 p where c1: "pc_Name c \<noteq> []" "loadKey env c = Inr c1" "abs_dir env (pc_ProfilesDir c1) = Inr p"
    and role: "(if pc_Role c1 = RoleInspector then validateInspector (c1\<lparr>pc_ProfilesDir := p\<rparr>)
      else if pc_Role c1 = RoleHTTP then validateHTTP env (c1\<lparr>pc_ProfilesDir := p\<rparr>) else Inl (BadSetting ''unknown role'')) = Inr c'"
    using assms by (auto simp: Config_validate_def or_fail_Inr Let_def split: if_split_asm)
  obtain k k' where k: "pc_KeyFile c \<noteq> []" "read_key env (pc_KeyFile c) = Inr k" "c1 = c\<lparr>pc_Key := Some k, pc_AppKey := k'\<rparr>"
  proof -
    obtain k where k: "read_key env (pc_KeyFile c) = Inr k" "pc_KeyFile c \<noteq> []"
      and "c1 = c\<lparr>pc_Key := Some k\<rparr> \<or> (\<exists>k'. c1 = c\<lparr>pc_Key := Some k, pc_AppKey := Some k'\<rparr>)"
      using c1(2) by (auto simp: loadKey_Inr split: if_split_asm)
    then show thesis using that [of k "pc_AppKey c"] that by auto
  qed
  show thesis
  proof (cases "pc_Role c = RoleInspector")
    case True
    with role k(3) have "validateInspector (c1\<lparr>pc_ProfilesDir := p\<rparr>) = Inr c'" by simp
    with that(1) [of k p k'] True c1 k show thesis by (simp add: validateInspector_Inr)
  next
    case False
    with role k(3) have "pc_Role c = RoleHTTP" "validateHTTP env (c1\<lparr>pc_ProfilesDir := p\<rparr>) = Inr c'"
      by (simp_all split: if_split_asm)
    with that(2) [of k p _ k'] c1 k show thesis by (auto simp: validateHTTP_Inr)
  qed
qed

lemma apply_to_default:
  "applyQueueFile default_queue q = \<lparr>qs_Max = (case qf_Max q of Some n \<Rightarrow> n | None \<Rightarrow> 256),
     qs_Full = (if qf_Full q \<noteq> [] then qf_Full q else QueueFullDrop),
     qs_Expand = (if qf_Expand q \<noteq> [] then qf_Expand q else QueueExpandOff)\<rparr>"
  by (simp add: applyQueueFile_def default_queue_def split: option.split)

lemma Config_Load_Inr:
  assumes "Config_Load env role = Inr c'"
  obtains c q level where "Config_validate env c = Inr c'" "pc_Role c = role"
    "read_conf env (confPath (conf_of env) ''WAF_AUTH_CONF'') = Inr q"
    "envIntIfSet env ''WAF_AUTH_QUEUE_DEPTH'' (case qf_Max q of Some n \<Rightarrow> n | None \<Rightarrow> 256) = Inr (pc_QueueDepth c)"
    "pc_QueueFull c = envOverride (conf_of env) ''WAF_AUTH_QUEUE_FULL'' (if qf_Full q \<noteq> [] then qf_Full q else QueueFullDrop)"
    "pc_RedisURL c = exchangeRedis (conf_of env) q"
    "(pc_InternalURL c, pc_InternalFrom c) = internalRedis (conf_of env) (confPath (conf_of env) ''WAF_AUTH_CONF'') q (pc_RedisURL c)"
    "0 < pc_StoreTimeout c" "0 < pc_ReloadEvery c" "0 < pc_HeartbeatEvery c" "0 < pc_GeoTimeout c"
proof -
  have positive: "0 < (500 * millisecond :: int)" "0 < 4 * second" "0 < second" "0 < (150 * millisecond :: int)"
    by (simp_all add: millisecond_def second_def)
  note pos = envDuration_positive [OF _ positive(1)] envDuration_positive [OF _ positive(2)]
    envDuration_positive [OF _ positive(3)] envDuration_positive [OF _ positive(4)]
  show thesis
    using assms unfolding Config_Load_def Let_def or_fail_Inr case_prod_beta
    apply -
    apply (elim exE conjE)
    apply (rule that, assumption)
    apply (simp_all add: apply_to_default pos)
    done
qed



section \<open>Properties\<close>

definition sample_vars :: "string \<Rightarrow> string option" where
  "sample_vars = [''WAF_AUTH_KEY_FILE'' \<mapsto> ''/k'', ''REDIS_URL'' \<mapsto> ''redis://r:6379'', ''WAF_AUTH_QUEUE_DEPTH'' \<mapsto> '' 8'']"

definition sample_load_env :: load_env where
  "sample_load_env =
     \<lparr>cf_LookupEnv = sample_vars, cf_Stat = (\<lambda>p. if p \<in> {''/d'', ''/app/web''} then Some True else None),
      cf_ReadFile = (\<lambda>p. if p = ''/k'' then Some ''0123456789abcdef'' else None), cf_runes = map of_char,
      cf_IsLetter = (\<lambda>_. True), cf_IsDigit = (\<lambda>_. True), cf_url = (\<lambda>_. None),
      le_ct = ascii_tables, le_Hostname = None, le_GOMAXPROCS = 4, le_ParseDuration = (\<lambda>_. None),
      le_Abs = (\<lambda>p. Some (if p = ''./profiles'' then ''/d'' else ''/app/web'')),
      le_loglevel = (\<lambda>_. Some 0), le_hmac_sha256 = (\<lambda>k m. k),
      le_aes_gcm = (\<lambda>_. Some \<lparr>gcm_Seal = (\<lambda>_ p _. p), gcm_Open = (\<lambda>_ c _. Some c)\<rparr>)\<rparr>"

lemma sample_vars_simps:
  "sample_vars ''WAF_AUTH_KEY_FILE'' = Some ''/k''" "sample_vars ''REDIS_URL'' = Some ''redis://r:6379''"
  "sample_vars ''WAF_AUTH_QUEUE_DEPTH'' = Some '' 8''"
  "name \<notin> {''WAF_AUTH_KEY_FILE'', ''REDIS_URL'', ''WAF_AUTH_QUEUE_DEPTH''} \<Longrightarrow> sample_vars name = None"
  by (simp_all add: sample_vars_def)

lemma sample_env_fields:
  "cf_LookupEnv sample_load_env = sample_vars" "cf_LookupEnv (conf_of sample_load_env) = sample_vars"
  "le_GOMAXPROCS sample_load_env = 4" "le_loglevel sample_load_env l = Some 0" "le_Abs sample_load_env ''./profiles'' = Some ''/d''" "le_Abs sample_load_env ''./web'' = Some ''/app/web''"
  "cf_Stat (conf_of sample_load_env) ''inspector.conf'' = None" "cf_Stat (conf_of sample_load_env) ''/app/inspector.conf'' = None"
  "cf_Stat sample_load_env ''/d'' = Some True" "cf_Stat sample_load_env ''/app/web'' = Some True" "le_ct sample_load_env = ascii_tables"
  by (simp_all add: sample_load_env_def conf_of_def conf_env.truncate_def)

lemma sample_key: "\<exists>k. read_key sample_load_env ''/k'' = Inr k"
  by (simp add: read_key_def sample_load_env_def NewKey_def minSecret_def tidy_def visible_def)

lemma sample_load_values:
  "trimmed_env (conf_of sample_load_env) ''WAF_AUTH_CONF'' = None"
  "trimmed_env (conf_of sample_load_env) ''REDIS_URL'' = Some ''redis://r:6379''"
  "trimmed_env (conf_of sample_load_env) ''REDIS_INTERNAL_URL'' = None"
  "trimmed_env (conf_of sample_load_env) ''WAF_AUTH_QUEUE_FULL'' = None"
  "trimmed_env (conf_of sample_load_env) ''WAF_AUTH_QUEUE_EXPAND'' = None"
  "envIntIfSet sample_load_env ''WAF_AUTH_QUEUE_DEPTH'' n = Inr 8"
  by (simp_all add: trimmed_env_def sample_env_fields sample_vars_simps tidy_def visible_def envIntIfSet_def env_set_def
      ParseInt_def ParseDigits_def dec_val_def)

lemma sample_defaults:
  assumes "name \<notin> {''WAF_AUTH_KEY_FILE'', ''REDIS_URL'', ''WAF_AUTH_QUEUE_DEPTH''}"
  shows "env_str sample_load_env name d = d" "envIntIfSet sample_load_env name n = Inr n"
    "envDuration sample_load_env name t = Inr t" "envIntList sample_load_env name ns = Inr ns" "envBool sample_load_env name b = b"
  using assms by (simp_all add: env_str_def env_set_def envIntIfSet_def envDuration_def envIntList_def envBool_def
      sample_env_fields sample_vars_simps)

lemma sample_conf_path: "confPath (conf_of sample_load_env) ''WAF_AUTH_CONF'' = []"
  by (simp add: confPath_def sample_load_values sample_env_fields)

lemma sample_loads:
  assumes "role \<in> {RoleInspector, RoleHTTP}"
  shows "\<exists>c. Config_Load sample_load_env role = Inr c \<and> pc_ProfilesDir c = ''/d'' \<and> pc_InternalURL c = ''redis://r:6379'' \<and>
    pc_DataDir c = [] \<and> pc_Servers c \<noteq> [] \<and> pc_ControllerURL c = [] \<and> pc_Versions c = [2]"
proof -
  obtain k where "read_key sample_load_env ''/k'' = Inr k" using sample_key by blast
  moreover have "env_str sample_load_env ''WAF_AUTH_KEY_FILE'' [] = ''/k''"
    by (simp add: env_str_def env_set_def sample_env_fields sample_vars_simps)
  moreover have "splitList ''nats://127.0.0.1:4222'' = [''nats://127.0.0.1:4222'']"
    by (simp add: splitList_def tidy_def visible_def)
  ultimately show ?thesis
    using assms
    by (elim insertE emptyE)
      (simp_all add: Config_Load_def Let_def sample_conf_path sample_defaults sample_load_values envInt_def read_conf_def
        or_fail_def sample_env_fields exchangeRedis_def internalRedis_def no_file_def envOverride_def apply_to_default
        Config_validate_def loadKey_def abs_dir_def validateInspector_def inspector_checks_def validateHTTP_def)
qed

text \<open>C31: A process starts only with a configuration it can work with: the role is known, the key was read and
  is long enough, the profiles are a directory and every period is positive; an inspector has a
  bus, a worker, room in its queue, a known reaction to a full one, a version to speak and a store
  to read headers from; the login site has an address, a page directory and at least one check
  that may run.\<close>

theorem loaded_config:
  assumes "Config_Load env role = Inr c"
  shows "pc_Role c = role \<and> role \<in> {RoleInspector, RoleHTTP} \<and>
    (\<exists>raw k. cf_ReadFile env (pc_KeyFile c) = Some raw \<and> NewKey (le_hmac_sha256 env) (le_aes_gcm env) raw = Some k \<and>
       pc_Key c = Some k) \<and>
    cf_Stat env (pc_ProfilesDir c) = Some True \<and>
    0 < pc_StoreTimeout c \<and> 0 < pc_ReloadEvery c \<and> 0 < pc_HeartbeatEvery c \<and> 0 < pc_GeoTimeout c \<and>
    (role = RoleInspector \<longrightarrow> pc_Servers c \<noteq> [] \<and> pc_Subject c \<noteq> [] \<and> pc_Queue c \<noteq> [] \<and> 1 \<le> pc_Workers c \<and>
       1 \<le> pc_QueueDepth c \<and> pc_QueueFull c \<in> {QueueFullDrop, QueueFullWait} \<and>
       0 \<le> pc_ReserveMS c \<and> 0 \<le> pc_MinBudgetMS c \<and> pc_Versions c \<noteq> [] \<and> pc_RedisURL c \<noteq> []) \<and>
    (role = RoleHTTP \<longrightarrow> pc_Listen c \<noteq> [] \<and> 1 \<le> pc_VerifyLimit c \<and> cf_Stat env (pc_WebDir c) = Some True)"
proof -
  obtain c0 where load: "Config_validate env c0 = Inr c" "pc_Role c0 = role"
    "0 < pc_StoreTimeout c0" "0 < pc_ReloadEvery c0" "0 < pc_HeartbeatEvery c0" "0 < pc_GeoTimeout c0"
    by (rule Config_Load_Inr [OF assms])
  have key: "\<exists>raw. cf_ReadFile env path = Some raw \<and> NewKey (le_hmac_sha256 env) (le_aes_gcm env) raw = Some k"
    if "read_key env path = Inr k" for path k
    using that unfolding read_key_def by (simp split: option.splits)
  show ?thesis
    using load(1)
  proof (cases rule: Config_validate_Inr)
    case (1 k k' p)
    then have "role = RoleInspector" using load(2) by simp
    with 1 load key [OF 1(3)] show ?thesis
      by (simp add: inspector_checks_def abs_dir_Inr not_less)
  next
    case (2 k k' p w)
    then have "role = RoleHTTP" using load(2) by simp
    with 2 load key [OF 2(3)] show ?thesis
      by (simp add: abs_dir_Inr)
  qed
qed

theorem loaded_config_witness:
  "\<exists>c. Config_Load sample_load_env RoleInspector = Inr c \<and> 1 \<le> pc_QueueDepth c \<and> pc_RedisURL c \<noteq> []"
proof -
  obtain c where c: "Config_Load sample_load_env RoleInspector = Inr c" using sample_loads [of RoleInspector] by blast
  from loaded_config [OF c] c show ?thesis by blast
qed

text \<open>C32: The queue of the inspector is the one that was configured: its depth is what the environment says,
  else the file, else 256, its reaction to a full queue likewise, and the pool that is built of
  them never holds more, whatever arrives.\<close>

theorem configured_queue:
  assumes "Config_Load env RoleInspector = Inr c"
    and "pool_steps (NewPool (pc_QueueDepth c) (pc_ReserveMS c) (pc_MinBudgetMS c) (pc_QueueFull c)) h p"
  shows "int (length (pp_q p)) \<le> pc_QueueDepth c \<and> pp_full (NewPool (pc_QueueDepth c) r b (pc_QueueFull c)) = pc_QueueFull c \<and>
    (\<exists>q. read_conf env (confPath (conf_of env) ''WAF_AUTH_CONF'') = Inr q \<and>
      envIntIfSet env ''WAF_AUTH_QUEUE_DEPTH'' (case qf_Max q of Some n \<Rightarrow> n | None \<Rightarrow> 256) = Inr (pc_QueueDepth c) \<and>
      pc_QueueFull c = (case trimmed_env (conf_of env) ''WAF_AUTH_QUEUE_FULL'' of
        Some v \<Rightarrow> v | None \<Rightarrow> if qf_Full q \<noteq> [] then qf_Full q else QueueFullDrop))"
proof -
  obtain c0 q where load: "Config_validate env c0 = Inr c" "pc_Role c0 = RoleInspector"
    "read_conf env (confPath (conf_of env) ''WAF_AUTH_CONF'') = Inr q"
    "envIntIfSet env ''WAF_AUTH_QUEUE_DEPTH'' (case qf_Max q of Some n \<Rightarrow> n | None \<Rightarrow> 256) = Inr (pc_QueueDepth c0)"
    "pc_QueueFull c0 = envOverride (conf_of env) ''WAF_AUTH_QUEUE_FULL'' (if qf_Full q \<noteq> [] then qf_Full q else QueueFullDrop)"
    by (rule Config_Load_Inr [OF assms(1)])
  have same: "pc_QueueDepth c = pc_QueueDepth c0" "pc_QueueFull c = pc_QueueFull c0"
    and ok: "1 \<le> pc_QueueDepth c" "pc_QueueFull c \<noteq> []"
    using load(1)
  proof (atomize (full), cases rule: Config_validate_Inr)
    case (1 k k' p)
    then show "(pc_QueueDepth c = pc_QueueDepth c0 \<and> pc_QueueFull c = pc_QueueFull c0) \<and> 1 \<le> pc_QueueDepth c \<and> pc_QueueFull c \<noteq> []"
      by (auto simp: inspector_checks_def)
  next
    case (2 k k' p w)
    with load(2) show "(pc_QueueDepth c = pc_QueueDepth c0 \<and> pc_QueueFull c = pc_QueueFull c0) \<and> 1 \<le> pc_QueueDepth c \<and> pc_QueueFull c \<noteq> []"
      by simp
  qed
  have "int (length (pp_q p)) \<le> pc_QueueDepth c"
    using pool_steps_bounded [OF assms(2)] ok(1) by (auto simp: pool_bounded_def NewPool_def)
  with load same ok(2) show ?thesis
    by (auto simp: NewPool_def envOverride_def)
qed

theorem configured_queue_witness:
  "\<exists>c. Config_Load sample_load_env RoleInspector = Inr c \<and>
     pp_full (NewPool (pc_QueueDepth c) 1 1 (pc_QueueFull c)) = QueueFullDrop \<and> pc_QueueDepth c = 8"
proof -
  obtain c where c: "Config_Load sample_load_env RoleInspector = Inr c" using sample_loads [of RoleInspector] by blast
  have "read_conf sample_load_env [] = Inr no_file" by (simp add: read_conf_def)
  with configured_queue [OF c pool_steps.start, of 1 1] show ?thesis
    using c by (auto simp: sample_conf_path sample_load_values no_file_def)
qed

end
