(* ===== verification/Slots.thy ===== *)
theory Slots
  imports Login ProcConfig
begin

text \<open>
  The bound on password checks that run at once (\<open>verifySlot\<close> of \<open>cmd/http/login.go\<close>).

  The channel \<open>verify\<close> of capacity \<open>VerifyLimit\<close> holds one token per check. Submits run at the
  same time; each waits for room in the channel, at most \<open>verifyWait\<close> or until its request is
  gone, checks, and takes a token out. When several of its cases are ready, \<open>select\<close> takes any.
\<close>

section \<open>Submits and slots\<close>

definition verifyWait :: duration where "verifyWait = 5 * second"

datatype slot_submit =
    Waiting time
  | Checking
  | Finished
  | Panicked
  | TurnedAway time time bool

record slots =
  sl_now :: time
  sl_cap :: "nat option"
  sl_tokens :: nat
  sl_submits :: "slot_submit list"

text \<open>The site makes the channel; \<open>None\<close> is the nil channel, which bounds nothing.\<close>

definition no_submits :: "time \<Rightarrow> nat option \<Rightarrow> slots" where
  "no_submits t cap = \<lparr>sl_now = t, sl_cap = cap, sl_tokens = 0, sl_submits = []\<rparr>"

definition site_slots :: "time \<Rightarrow> proc_config \<Rightarrow> slots" where
  "site_slots t cfg = no_submits t (Some (nat (pc_VerifyLimit cfg)))"

definition verifySlot_begin :: "slots \<Rightarrow> slots" where
  "verifySlot_begin s = s\<lparr>sl_submits := sl_submits s @
     [case sl_cap s of None \<Rightarrow> Checking | Some _ \<Rightarrow> Waiting (sl_now s)]\<rparr>"

definition verifySlot_send :: "nat \<Rightarrow> slots \<Rightarrow> slots" where
  "verifySlot_send i s = s\<lparr>sl_tokens := sl_tokens s + 1, sl_submits := (sl_submits s)[i := Checking]\<rparr>"

definition verifySlot_away :: "nat \<Rightarrow> time \<Rightarrow> bool \<Rightarrow> slots \<Rightarrow> slots" where
  "verifySlot_away i began cancelled s = s\<lparr>sl_submits := (sl_submits s)[i := TurnedAway began (sl_now s) cancelled]\<rparr>"

text \<open>The check has come back: the submit calls the function that \<open>verifySlot\<close> returned.\<close>

definition verifySlot_release :: "nat \<Rightarrow> slots \<Rightarrow> slots" where
  "verifySlot_release i s = s\<lparr>sl_tokens := (case sl_cap s of None \<Rightarrow> sl_tokens s | Some _ \<Rightarrow> sl_tokens s - 1),
     sl_submits := (sl_submits s)[i := Finished]\<rparr>"

text \<open>The check has panicked: the call of \<open>release\<close> after it is never reached.\<close>

definition verifySlot_panic :: "nat \<Rightarrow> slots \<Rightarrow> slots" where
  "verifySlot_panic i s = s\<lparr>sl_submits := (sl_submits s)[i := Panicked]\<rparr>"

inductive slot_steps :: "slots \<Rightarrow> slots \<Rightarrow> bool" for s0 where
  start: "slot_steps s0 s0"
| pass: "slot_steps s0 s \<Longrightarrow> sl_now s \<le> t \<Longrightarrow> slot_steps s0 (s\<lparr>sl_now := t\<rparr>)"
| enter: "slot_steps s0 s \<Longrightarrow> slot_steps s0 (verifySlot_begin s)"
| send: "\<lbrakk>slot_steps s0 s; i < length (sl_submits s); sl_submits s ! i = Waiting began; sl_cap s = Some cap; sl_tokens s < cap\<rbrakk> \<Longrightarrow>
    slot_steps s0 (verifySlot_send i s)"
| away: "\<lbrakk>slot_steps s0 s; i < length (sl_submits s); sl_submits s ! i = Waiting began; cancelled \<or> began + verifyWait \<le> sl_now s\<rbrakk> \<Longrightarrow>
    slot_steps s0 (verifySlot_away i began cancelled s)"
| release: "\<lbrakk>slot_steps s0 s; i < length (sl_submits s); sl_submits s ! i = Checking\<rbrakk> \<Longrightarrow>
    slot_steps s0 (verifySlot_release i s)"
| panics: "\<lbrakk>slot_steps s0 s; i < length (sl_submits s); sl_submits s ! i = Checking\<rbrakk> \<Longrightarrow>
    slot_steps s0 (verifySlot_panic i s)"

definition checks_running :: "slots \<Rightarrow> nat" where
  "checks_running s = length (filter (\<lambda>c. c = Checking) (sl_submits s))"

definition checks_lost :: "slots \<Rightarrow> nat" where
  "checks_lost s = length (filter (\<lambda>c. c = Panicked) (sl_submits s))"

text \<open>With a channel, its tokens are the checks that run and those that panicked.\<close>

definition slots_ok :: "slots \<Rightarrow> bool" where
  "slots_ok s \<longleftrightarrow> (\<forall>cap. sl_cap s = Some cap \<longrightarrow> sl_tokens s = checks_running s + checks_lost s \<and> sl_tokens s \<le> cap)"

lemma filter_update:
  assumes "i < length cs"
  shows "length (filter P (cs[i := c])) + (if P (cs ! i) then 1 else 0) = length (filter P cs) + (if P c then 1 else 0)"
proof -
  have cs: "cs = take i cs @ cs ! i # drop (Suc i) cs" using assms by (simp add: id_take_nth_drop)
  have "cs[i := c] = take i cs @ c # drop (Suc i) cs" using assms by (simp add: upd_conv_take_nth_drop)
  then have "length (filter P (cs[i := c])) = length (filter P (take i cs)) + (if P c then 1 else 0) + length (filter P (drop (Suc i) cs))"
    by simp
  moreover have "length (filter P cs) = length (filter P (take i cs)) + (if P (cs ! i) then 1 else 0) + length (filter P (drop (Suc i) cs))"
    by (subst cs) simp
  ultimately show ?thesis by simp
qed

lemma checks_update:
  assumes "i < length (sl_submits s)"
  shows "checks_running (s\<lparr>sl_tokens := n, sl_submits := (sl_submits s)[i := c]\<rparr>) + (if sl_submits s ! i = Checking then 1 else 0) =
      checks_running s + (if c = Checking then 1 else 0)"
    "checks_lost (s\<lparr>sl_tokens := n, sl_submits := (sl_submits s)[i := c]\<rparr>) + (if sl_submits s ! i = Panicked then 1 else 0) =
      checks_lost s + (if c = Panicked then 1 else 0)"
  using filter_update [OF assms, of "\<lambda>x. x = Checking" c] filter_update [OF assms, of "\<lambda>x. x = Panicked" c]
  unfolding checks_running_def checks_lost_def by simp_all

lemma slot_updates:
  "verifySlot_send i s = s\<lparr>sl_tokens := sl_tokens s + 1, sl_submits := (sl_submits s)[i := Checking]\<rparr>"
  "verifySlot_away i began cancelled s = s\<lparr>sl_tokens := sl_tokens s, sl_submits := (sl_submits s)[i := TurnedAway began (sl_now s) cancelled]\<rparr>"
  "verifySlot_release i s = s\<lparr>sl_tokens := (case sl_cap s of None \<Rightarrow> sl_tokens s | Some _ \<Rightarrow> sl_tokens s - 1),
     sl_submits := (sl_submits s)[i := Finished]\<rparr>"
  "verifySlot_panic i s = s\<lparr>sl_tokens := sl_tokens s, sl_submits := (sl_submits s)[i := Panicked]\<rparr>"
  by (simp_all add: verifySlot_send_def verifySlot_away_def verifySlot_release_def verifySlot_panic_def)

lemma slot_steps_ok:
  assumes "slot_steps s0 s" "slots_ok s0"
  shows "slots_ok s \<and> sl_cap s = sl_cap s0 \<and> checks_lost s0 \<le> checks_lost s"
  using assms(1)
proof (induction rule: slot_steps.induct)
  case start
  then show ?case using assms(2) by simp
next
  case (send s i began cap)
  then show ?case
    using checks_update [of i s Checking "sl_tokens s + 1"]
    by (auto simp: slots_ok_def slot_updates)
next
  case (away s i began cancelled)
  then show ?case
    using checks_update [of i s "TurnedAway began (sl_now s) cancelled" "sl_tokens s"]
    by (auto simp: slots_ok_def slot_updates)
next
  case (release s i)
  then show ?case
    using checks_update [of i s Finished "case sl_cap s of None \<Rightarrow> sl_tokens s | Some _ \<Rightarrow> sl_tokens s - 1"]
    by (cases "sl_cap s") (auto simp: slots_ok_def slot_updates)
next
  case (panics s i)
  then show ?case
    using checks_update [of i s Panicked "sl_tokens s"] by (auto simp: slots_ok_def slot_updates)
next
  case (enter s)
  then show ?case
    by (auto simp: slots_ok_def verifySlot_begin_def checks_running_def checks_lost_def split: option.splits)
qed (auto simp: slots_ok_def checks_running_def checks_lost_def)

lemma send_iff_room:
  assumes "slots_ok s" "sl_cap s = Some cap" "i < length (sl_submits s)" "sl_submits s ! i = Waiting began"
  shows "slot_steps s (verifySlot_send i s) \<longleftrightarrow> checks_running s + checks_lost s < cap"
proof
  assume "slot_steps s (verifySlot_send i s)"
  from slot_steps_ok [OF this assms(1)] assms(2) have "sl_tokens (verifySlot_send i s) \<le> cap" by (auto simp: slots_ok_def)
  then show "checks_running s + checks_lost s < cap" using assms(1,2) by (simp add: slots_ok_def verifySlot_send_def)
next
  assume "checks_running s + checks_lost s < cap"
  then show "slot_steps s (verifySlot_send i s)"
    using assms by (intro slot_steps.send [OF slot_steps.start]) (simp_all add: slots_ok_def)
qed


section \<open>Properties\<close>

text \<open>C20: However submits interleave, the tokens of the channel are the checks that run and those that
  have panicked, together never more than the site is configured to run at once, and that is at
  least one; a submit that waits can begin its check exactly as long as there are fewer. A check
  that panics so takes its place away for good: once there are as many as the limit, no password
  is ever checked again.\<close>

theorem checks_bounded:
  assumes "Config_Load env RoleHTTP = Inr c" "slot_steps (site_slots t0 c) s"
  shows "1 \<le> pc_VerifyLimit c \<and> sl_tokens s = checks_running s + checks_lost s \<and>
    int (checks_running s + checks_lost s) \<le> pc_VerifyLimit c \<and>
    (\<forall>i began. i < length (sl_submits s) \<and> sl_submits s ! i = Waiting began \<longrightarrow>
       (slot_steps s (verifySlot_send i s) \<longleftrightarrow> int (checks_running s + checks_lost s) < pc_VerifyLimit c)) \<and>
    (int (checks_lost s) = pc_VerifyLimit c \<longrightarrow> (\<forall>s'. slot_steps s s' \<longrightarrow> checks_running s' = 0))"
proof -
  obtain c0 where "Config_validate env c0 = Inr c" "pc_Role c0 = RoleHTTP"
    by (rule Config_Load_Inr [OF assms(1)])
  then have limit: "1 \<le> pc_VerifyLimit c"
    by (cases rule: Config_validate_Inr) simp_all
  have "slots_ok (site_slots t0 c)"
    by (simp add: slots_ok_def site_slots_def no_submits_def checks_running_def checks_lost_def)
  then have ok: "slots_ok s" and cap: "sl_cap s = Some (nat (pc_VerifyLimit c))"
    using slot_steps_ok [OF assms(2)] by (simp_all add: site_slots_def no_submits_def)
  have bound: "int (checks_running x + checks_lost x) \<le> pc_VerifyLimit c" if "slots_ok x" "sl_cap x = sl_cap s" for x
  proof -
    have "checks_running x + checks_lost x \<le> nat (pc_VerifyLimit c)" using that cap by (simp add: slots_ok_def)
    then show ?thesis using limit by linarith
  qed
  have starved: "checks_running s' = 0" if "int (checks_lost s) = pc_VerifyLimit c" "slot_steps s s'" for s'
    using slot_steps_ok [OF that(2) ok] bound [of s'] that(1) by simp
  have room: "slot_steps s (verifySlot_send i s) \<longleftrightarrow> int (checks_running s + checks_lost s) < pc_VerifyLimit c"
    if "i < length (sl_submits s)" "sl_submits s ! i = Waiting began" for i began
    using send_iff_room [OF ok cap that] by (simp add: zless_nat_eq_int_zless)
  show ?thesis
    using limit bound [OF ok refl] starved room ok cap by (simp add: slots_ok_def)
qed

theorem checks_bounded_witness:
  "\<exists>c s. Config_Load sample_load_env RoleHTTP = Inr c \<and> slot_steps (site_slots 0 c) s \<and> checks_running s = 0 \<and>
    checks_lost s = 1 \<and> sl_tokens s = 1 \<and> 1 \<le> pc_VerifyLimit c"
proof -
  obtain c where c: "Config_Load sample_load_env RoleHTTP = Inr c"
    using sample_loads [of RoleHTTP] by blast
  let ?s = "verifySlot_panic 0 (verifySlot_send 0 (verifySlot_begin (site_slots 0 c)))"
  have "1 \<le> pc_VerifyLimit c"
    using checks_bounded [OF c slot_steps.start [of "site_slots 0 c"]] by blast
  then have run: "slot_steps (site_slots 0 c) ?s"
    by (intro slot_steps.panics slot_steps.send [where began = 0 and cap = "nat (pc_VerifyLimit c)"] slot_steps.enter slot_steps.start)
      (simp_all add: verifySlot_begin_def verifySlot_send_def site_slots_def no_submits_def)
  have "checks_running ?s = 0" "checks_lost ?s = 1"
    by (simp_all add: checks_running_def checks_lost_def verifySlot_panic_def verifySlot_send_def verifySlot_begin_def
        site_slots_def no_submits_def)
  with run checks_bounded [OF c run] c show ?thesis by fastforce
qed

end
