(* ===== verification/Processes.thy ===== *)
theory Processes
  imports Inspector Desired ProcConfig Roster Secrets Slots
begin

text \<open>
  How the processes are put together (\<open>cmd/inspector/main.go\<close>, \<open>cmd/http/main.go\<close>) and the probe
  (\<open>cmd/probe/main.go\<close>): what of the configuration each part gets, which roster and which bus the
  site opens, what the heartbeat reports, the lists that are mirrored, the signals, and the
  message by which the probe asks for a verdict.

  Connections, flags and log lines are left out. What a part of the outside answers when it is
  opened (the bus, Redis) comes in as a parameter.
\<close>

section \<open>What both share\<close>

fun joined :: "string list \<Rightarrow> string" where
  "joined [] = []"
| "joined (s # ss) = s @ (if ss = [] then [] else '','' @ joined ss)"

datatype os_signal = SIGHUP | SIGINT | SIGTERM

text \<open>\<open>waitForSignal\<close> reloads at every SIGHUP until a signal ends the process; each reload has its own
  surroundings. Without a last signal it still waits.\<close>

fun waitForSignal :: "(os_signal \<times> config_env) list \<Rightarrow> cfg_store \<Rightarrow> cfg_store \<times> bool" where
  "waitForSignal [] st = (st, False)"
| "waitForSignal ((s, env) # ss) st =
     (if s = SIGHUP then waitForSignal ss (snd (Reload env st)) else (st, True))"

text \<open>One round of \<open>watchLists\<close>: every source with a list has its list mirrored.\<close>

definition listed_sets :: "snapshot option \<Rightarrow> string list" where
  "listed_sets snap = map (\<lambda>s. lc_Sessions (src_List s)) (filter (\<lambda>s. List_Enabled (src_List s)) (Snapshot_Sources snap))"

definition watchLists_round :: "snapshot option \<Rightarrow> time \<Rightarrow> (string \<rightharpoonup> mset) \<Rightarrow> (string \<rightharpoonup> mset)" where
  "watchLists_round snap now m = fold (\<lambda>name m. Mirror_Ensure name now m) (listed_sets snap) m"


text \<open>What a process finds when it starts: its environment, the files of the profiles and of the data
  directory, and whether what it opens outside answers. \<open>sr_redis\<close> and \<open>sr_bus\<close> tell of an address whether
  it was reached, \<open>sr_blobs\<close> whether the blob store took it, \<open>sr_pages\<close> whether the pages of the directory
  could be read.\<close>

record 'k surroundings =
  sr_load :: load_env
  sr_config :: config_env
  sr_secrets :: "'k secrets_env"
  sr_dir :: data_dir
  sr_redis :: "string \<Rightarrow> bool"
  sr_bus :: "string \<Rightarrow> bool"
  sr_blobs :: "string \<Rightarrow> bool"
  sr_geo :: "string \<Rightarrow> bool"
  sr_subscribed :: bool
  sr_pages :: "string \<Rightarrow> bool"

datatype start_error =
    BadConfig load_error
  | BadProfiles verr
  | NoPages
  | NoServers
  | BusFailed
  | NoInternalRedis
  | RedisFailed
  | BadContourKey key_error
  | BlobsFailed
  | GeoFailed
  | SubscribeFailed


section \<open>The inspector\<close>

text \<open>The handler that \<open>run\<close> builds: its name, its versions and the address of the form are the
  configuration's; the rest are the connections, here those of \<open>base\<close>.\<close>

definition wire_handler :: "proc_config \<Rightarrow> cfg_store \<Rightarrow> inspector_env \<Rightarrow> inspector_env" where
  "wire_handler cfg st base = base\<lparr>
     ie_Name := pc_Name cfg, ie_Versions := pc_Versions cfg, ie_snapshot := cs_cur st,
     ie_forms := (if pc_HTTPURL cfg \<noteq> [] then Some (pc_HTTPURL cfg) else None)\<rparr>"

definition wire_pool :: "proc_config \<Rightarrow> pool" where
  "wire_pool cfg = NewPool (pc_QueueDepth cfg) (pc_ReserveMS cfg) (pc_MinBudgetMS cfg) (pc_QueueFull cfg)"

definition pendingLimit :: "proc_config \<Rightarrow> int" where
  "pendingLimit cfg = pc_QueueDepth cfg + pc_Workers cfg + 2"

record inspector_up =
  iu_config :: proc_config
  iu_store :: cfg_store
  iu_handler :: inspector_env
  iu_pool :: pool
  iu_pending :: int

definition inspector_run :: "inspector_env \<Rightarrow> 'k surroundings \<Rightarrow> start_error + inspector_up" where
  "inspector_run base env =
     (case Config_Load (sr_load env) RoleInspector of
        Inl e \<Rightarrow> Inl (BadConfig e)
      | Inr cfg \<Rightarrow>
          (case LoadProfiles (sr_config env) (pc_ProfilesDir cfg) of
             Inl e \<Rightarrow> Inl (BadProfiles e)
           | Inr st \<Rightarrow>
               if \<not> sr_redis env (pc_RedisURL cfg) then Inl RedisFailed
               else if \<not> sr_bus env (joined (pc_Servers cfg)) then Inl BusFailed
               else
                 (let st = (if pc_DataDir cfg \<noteq> [] then snd (Bootstrap (sr_config env) (pc_DataDir cfg) (sr_dir env) st) else st)
                  in if \<not> sr_blobs env (pc_InternalURL cfg) then Inl BlobsFailed
                     else if pc_GeoAddr cfg \<noteq> [] \<and> \<not> sr_geo env (pc_GeoAddr cfg) then Inl GeoFailed
                     else if \<not> sr_subscribed env then Inl SubscribeFailed
                     else Inr \<lparr>iu_config = cfg, iu_store = st, iu_handler = wire_handler cfg st base,
                            iu_pool = wire_pool cfg, iu_pending = pendingLimit cfg\<rparr>)))"

text \<open>
  The fields of a heartbeat that say how the process works. Left out are the traffic counters
  (\<open>io\<close>), the version and the revision of the build, and what \<open>pulse.Build\<close> adds of its own.
\<close>

record pulse_msg =
  pm_ID :: string
  pm_Name :: string
  pm_Subject :: string
  pm_Queue :: string
  pm_Workers :: int
  pm_QueueDepth :: int
  pm_Queued :: int
  pm_Accepted :: int
  pm_Shed :: int
  pm_Expired :: int
  pm_Rev :: int
  pm_ConfigHash :: string
  pm_Apply :: string
  pm_Profiles :: "string list"

definition beat :: "string \<Rightarrow> proc_config \<Rightarrow> pool \<Rightarrow> snapshot option \<Rightarrow> applied option \<Rightarrow> pulse_msg" where
  "beat who cfg p snap app =
     (let msg = \<lparr>pm_ID = who, pm_Name = pc_Name cfg, pm_Subject = pc_Subject cfg, pm_Queue = pc_Queue cfg,
            pm_Workers = pc_Workers cfg, pm_QueueDepth = pc_QueueDepth cfg, pm_Queued = int (length (pp_q p)),
            pm_Accepted = pp_Accepted p, pm_Shed = pp_Shed p, pm_Expired = pp_Expired p,
            pm_Rev = 0, pm_ConfigHash = [], pm_Apply = [], pm_Profiles = []\<rparr>;
          msg = (case snap of
                   None \<Rightarrow> msg
                 | Some s \<Rightarrow> msg\<lparr>pm_Rev := sn_Gen s, pm_ConfigHash := sn_Fingerprint s, pm_Apply := ApplyOK,
                               pm_Profiles := Snapshot_Names (Some s)\<rparr>);
          (hash, revision, outcome, names) = Applied_Snapshot app
      in if outcome = [] then msg
         else msg\<lparr>pm_ConfigHash := hash, pm_Rev := revision, pm_Apply := outcome,
                pm_Profiles := (if names \<noteq> [] then names else pm_Profiles msg)\<rparr>)"


section \<open>The login site\<close>

datatype roster_kind = InMemory | OnRedis string string duration

text \<open>\<open>connect\<close> tells whether Redis was opened and answered the ping.\<close>

definition openRoster :: "proc_config \<Rightarrow> snapshot option \<Rightarrow> (string \<Rightarrow> bool) \<Rightarrow> start_error + roster_kind" where
  "openRoster cfg snap connect =
     (let rc = Snapshot_Roster snap
      in if rc_Store rc = RosterMemory then Inr InMemory
         else if pc_InternalURL cfg = [] then Inl NoInternalRedis
         else if \<not> connect (pc_InternalURL cfg) then Inl RedisFailed
         else Inr (OnRedis (pc_InternalURL cfg) (rc_Prefix rc) (pc_StoreTimeout cfg)))"

text \<open>The bus is opened when a list or the controller needs it; \<open>None\<close> is a site without one.\<close>

definition openBus :: "proc_config \<Rightarrow> snapshot option \<Rightarrow> (string \<Rightarrow> bool) \<Rightarrow> start_error + string option" where
  "openBus cfg snap connect =
     (let names = listed_sets snap
      in if names = [] \<and> pc_DataDir cfg = [] then Inr None
         else if pc_Servers cfg = [] then (if names \<noteq> [] then Inl NoServers else Inr None)
         else if \<not> connect (joined (pc_Servers cfg)) then Inl BusFailed
         else Inr (Some (pc_Name cfg)))"

text \<open>The roster is opened for the profiles that the process comes with; only later, with a bus, is the
  tree of an earlier life taken up.\<close>

record 'k site_up =
  su_config :: proc_config
  su_store :: cfg_store
  su_roster :: roster_kind
  su_bus :: "string option"
  su_secrets :: "'k secret_store option"
  su_slots :: slots

definition site_run :: "time \<Rightarrow> 'k surroundings \<Rightarrow> start_error + 'k site_up" where
  "site_run now env =
     (case Config_Load (sr_load env) RoleHTTP of
        Inl e \<Rightarrow> Inl (BadConfig e)
      | Inr cfg \<Rightarrow>
          (case LoadProfiles (sr_config env) (pc_ProfilesDir cfg) of
             Inl e \<Rightarrow> Inl (BadProfiles e)
           | Inr st \<Rightarrow>
               if \<not> sr_pages env (pc_WebDir cfg) then Inl NoPages
               else
                 (case openRoster cfg (cs_cur st) (sr_redis env) of
                    Inl e \<Rightarrow> Inl e
                  | Inr kept \<Rightarrow>
                      (case openBus cfg (cs_cur st) (sr_bus env) of
                         Inl e \<Rightarrow> Inl e
                       | Inr bus \<Rightarrow>
                           (case Secrets_New (sr_secrets env) (pc_ControllerURL cfg) (pc_Scope cfg) (pc_ContourKeyFile cfg) of
                              Inl e \<Rightarrow> Inl (BadContourKey e)
                            | Inr sec \<Rightarrow>
                                if bus \<noteq> None \<and> pc_InternalURL cfg \<noteq> [] \<and> \<not> sr_blobs env (pc_InternalURL cfg) then Inl BlobsFailed
                                else Inr \<lparr>su_config = cfg,
                                       su_store = (if bus \<noteq> None \<and> pc_DataDir cfg \<noteq> []
                                         then snd (Bootstrap (sr_config env) (pc_DataDir cfg) (sr_dir env) st) else st),
                                       su_roster = kept, su_bus = bus, su_secrets = sec,
                                       su_slots = site_slots now cfg\<rparr>)))))"


section \<open>The probe\<close>

text \<open>\<open>fmt.Sprintf("%016x", n)\<close> of a time after the epoch; the milliseconds of the timeout are cut
  towards zero.\<close>

definition probe_rid :: "time \<Rightarrow> string" where
  "probe_rid now = hexOf (word_of_int now)"

definition probe_request :: "string \<Rightarrow> string \<Rightarrow> string \<Rightarrow> string \<Rightarrow> string \<Rightarrow> duration \<Rightarrow> time \<Rightarrow> request" where
  "probe_request name uri method ip profile timeout now =
     (let path = (case Cut (CHR ''?'') uri of None \<Rightarrow> uri | Some (p, _) \<Rightarrow> p)
      in \<lparr>req_V = ProtocolVersion, req_RID = probe_rid now, req_Ray = [], req_Phase = PhaseRequest,
          req_Inspector = name, req_DeadlineMS = (if timeout < 0 then - (- timeout div millisecond) else timeout div millisecond), req_AuditSubject = None,
          req_Node = ''probe'', req_Conn = \<lparr>conn_ClientIP = ip\<rparr>,
          req_HTTP = \<lparr>http_Method = method, http_URI = path\<rparr>, req_Needs = [''headers''],
          req_Store = \<lparr>st_Headers = None, st_Args = None, st_Body = None\<rparr>, req_Profile = profile,
          req_Prior = [], req_Response = None, req_RequestStore = None\<rparr>)"

datatype probe_error = ProbeSilent | ProbeMalformed | ProbeVerdict string

text \<open>The probe can open an identity by hand; \<open>read\<close> reads a file.\<close>

datatype identity_error = KeyFileUnset | KeyFileUnreadable | KeyRejected | IdentityRejected token_error

definition openIdentity :: "(bytes \<Rightarrow> bytes \<Rightarrow> bytes) \<Rightarrow> (bytes \<Rightarrow> aead option) \<Rightarrow> (bytes \<Rightarrow> app_identity option) \<Rightarrow>
    (string \<Rightarrow> bytes option) \<Rightarrow> string \<Rightarrow> string \<Rightarrow> time \<Rightarrow> identity_error + app_identity option" where
  "openIdentity hmac_sha256 aes_gcm unmarshal read raw keyFile now =
     (if keyFile = [] then Inl KeyFileUnset
      else (case read keyFile of
              None \<Rightarrow> Inl KeyFileUnreadable
            | Some secret \<Rightarrow>
                (case NewKey hmac_sha256 aes_gcm secret of
                   None \<Rightarrow> Inl KeyRejected
                 | Some key \<Rightarrow>
                     (case OpenIdentity key unmarshal raw now of
                        (_, Some e) \<Rightarrow> Inl (IdentityRejected e)
                      | (who, None) \<Rightarrow> Inr who))))"

text \<open>\<open>ans\<close> is what came back in time, \<open>decode\<close> the JSON decoder.\<close>

definition probe_run :: "(bytes \<Rightarrow> reply option) \<Rightarrow> bytes option \<Rightarrow> string \<Rightarrow> probe_error option" where
  "probe_run decode ans expect =
     (case ans of
        None \<Rightarrow> Some ProbeSilent
      | Some data \<Rightarrow>
          (case decode data of
             None \<Rightarrow> Some ProbeMalformed
           | Some r \<Rightarrow> if expect \<noteq> [] \<and> rp_Verdict r \<noteq> expect then Some (ProbeVerdict (rp_Verdict r)) else None))"



section \<open>Facts\<close>

lemma joined_Join: "joined ss = Join '','' ss"
  by (induction ss rule: induct_list012) auto

lemma Mirror_Ensure_keeps: "m name = Some st \<Longrightarrow> Mirror_Ensure name' now m name = Some st"
  by (auto simp: Mirror_Ensure_def split: option.splits)

lemma Mirror_Ensure_there: "name \<noteq> [] \<Longrightarrow> Mirror_Ensure name now m name \<noteq> None"
  by (auto simp: Mirror_Ensure_def split: option.splits)

text \<open>A round mirrors every list of the snapshot and leaves the sets that are there as they are.\<close>

lemma watchLists_round_covers:
  assumes "name \<in> set (listed_sets snap)" "name \<noteq> []"
  shows "watchLists_round snap now m name \<noteq> None"
proof -
  have keeps: "m name \<noteq> None \<Longrightarrow> fold (\<lambda>n m. Mirror_Ensure n now m) ns m name \<noteq> None" for ns m
    by (induction ns arbitrary: m) (auto dest: Mirror_Ensure_keeps)
  have "name \<in> set ns \<Longrightarrow> fold (\<lambda>n m. Mirror_Ensure n now m) ns m name \<noteq> None" for ns
    by (induction ns arbitrary: m) (use keeps Mirror_Ensure_there [OF assms(2)] in auto)
  with assms(1) show ?thesis by (simp add: watchLists_round_def)
qed

lemma watchLists_round_keeps:
  assumes "m name = Some st"
  shows "watchLists_round snap now m name = Some st"
proof -
  have "m name = Some st \<Longrightarrow> fold (\<lambda>n m. Mirror_Ensure n now m) ns m name = Some st" for ns
    by (induction ns arbitrary: m) (auto simp: Mirror_Ensure_keeps)
  with assms show ?thesis by (simp add: watchLists_round_def)
qed

text \<open>SIGHUP never takes the configuration away.\<close>

lemma waitForSignal_life: "store_life st \<Longrightarrow> store_life (fst (waitForSignal ss st))"
  by (induction ss st rule: waitForSignal.induct) (auto intro: store_life.reload)

lemma Bootstrap_store:
  "snd (Bootstrap env dataDir d st) = st \<or>
   snd (Bootstrap env dataDir d st) = snd (ReloadFrom (mounted env (path_join dataDir treeDir) (dd_live d)) (path_join dataDir treeDir) st)"
  by (auto simp: Bootstrap_def Let_def split: option.split prod.split)

lemma Bootstrap_life: "store_life st \<Longrightarrow> store_life (snd (Bootstrap env dataDir d st))"
  using Bootstrap_store [of env dataDir d st] by (auto intro: store_life.move)

text \<open>What a started process went through.\<close>

lemma inspector_run_Inr:
  assumes "inspector_run base env = Inr s"
  obtains st where "Config_Load (sr_load env) RoleInspector = Inr (iu_config s)"
    "LoadProfiles (sr_config env) (pc_ProfilesDir (iu_config s)) = Inr st"
    "sr_redis env (pc_RedisURL (iu_config s))" "sr_bus env (joined (pc_Servers (iu_config s)))"
    "iu_store s = (if pc_DataDir (iu_config s) \<noteq> []
      then snd (Bootstrap (sr_config env) (pc_DataDir (iu_config s)) (sr_dir env) st) else st)"
    "iu_handler s = wire_handler (iu_config s) (iu_store s) base" "iu_pool s = wire_pool (iu_config s)"
    "iu_pending s = pendingLimit (iu_config s)"
proof -
  obtain cfg where cfg: "Config_Load (sr_load env) RoleInspector = Inr cfg"
    using assms by (cases "Config_Load (sr_load env) RoleInspector") (simp_all add: inspector_run_def)
  obtain st where st: "LoadProfiles (sr_config env) (pc_ProfilesDir cfg) = Inr st"
    using assms by (cases "LoadProfiles (sr_config env) (pc_ProfilesDir cfg)") (simp_all add: inspector_run_def cfg)
  have reached: "sr_redis env (pc_RedisURL cfg)" "sr_bus env (joined (pc_Servers cfg))"
    "sr_blobs env (pc_InternalURL cfg)" "\<not> (pc_GeoAddr cfg \<noteq> [] \<and> \<not> sr_geo env (pc_GeoAddr cfg))" "sr_subscribed env"
    using assms by (simp_all add: inspector_run_def cfg st Let_def split: if_split_asm)
  let ?st = "if pc_DataDir cfg \<noteq> [] then snd (Bootstrap (sr_config env) (pc_DataDir cfg) (sr_dir env) st) else st"
  have "inspector_run base env = Inr \<lparr>iu_config = cfg, iu_store = ?st, iu_handler = wire_handler cfg ?st base,
      iu_pool = wire_pool cfg, iu_pending = pendingLimit cfg\<rparr>"
    unfolding inspector_run_def cfg st sum.case Let_def using reached by (simp only: not_True_eq_False if_False)
  with assms have "s = \<lparr>iu_config = cfg, iu_store = ?st, iu_handler = wire_handler cfg ?st base,
      iu_pool = wire_pool cfg, iu_pending = pendingLimit cfg\<rparr>" by (simp only: sum.inject)
  then show ?thesis
    by (intro that [of st]) (simp_all only: cfg st reached inspector_up.select_convs)
qed

lemma site_run_Inr:
  assumes "site_run now env = Inr s"
  obtains st where "Config_Load (sr_load env) RoleHTTP = Inr (su_config s)"
    "LoadProfiles (sr_config env) (pc_ProfilesDir (su_config s)) = Inr st"
    "sr_pages env (pc_WebDir (su_config s))"
    "openRoster (su_config s) (cs_cur st) (sr_redis env) = Inr (su_roster s)"
    "openBus (su_config s) (cs_cur st) (sr_bus env) = Inr (su_bus s)"
    "Secrets_New (sr_secrets env) (pc_ControllerURL (su_config s)) (pc_Scope (su_config s))
       (pc_ContourKeyFile (su_config s)) = Inr (su_secrets s)"
    "su_store s = (if su_bus s \<noteq> None \<and> pc_DataDir (su_config s) \<noteq> []
      then snd (Bootstrap (sr_config env) (pc_DataDir (su_config s)) (sr_dir env) st) else st)"
    "su_slots s = site_slots now (su_config s)"
proof -
  obtain cfg where cfg: "Config_Load (sr_load env) RoleHTTP = Inr cfg"
    using assms by (cases "Config_Load (sr_load env) RoleHTTP") (simp_all add: site_run_def)
  obtain st where st: "LoadProfiles (sr_config env) (pc_ProfilesDir cfg) = Inr st"
    using assms by (cases "LoadProfiles (sr_config env) (pc_ProfilesDir cfg)") (simp_all add: site_run_def cfg)
  have pages: "sr_pages env (pc_WebDir cfg)"
    using assms by (rule contrapos_pp) (simp add: site_run_def cfg st)
  obtain r where r: "openRoster cfg (cs_cur st) (sr_redis env) = Inr r"
    using assms by (cases "openRoster cfg (cs_cur st) (sr_redis env)") (simp_all add: site_run_def cfg st pages)
  obtain b where b: "openBus cfg (cs_cur st) (sr_bus env) = Inr b"
    using assms by (cases "openBus cfg (cs_cur st) (sr_bus env)") (simp_all add: site_run_def cfg st pages r)
  let ?sec = "Secrets_New (sr_secrets env) (pc_ControllerURL cfg) (pc_Scope cfg) (pc_ContourKeyFile cfg)"
  obtain sec where sec: "?sec = Inr sec"
    using assms by (cases ?sec) (simp_all add: site_run_def cfg st pages r b)
  let ?s = "\<lparr>su_config = cfg, su_store = (if b \<noteq> None \<and> pc_DataDir cfg \<noteq> []
       then snd (Bootstrap (sr_config env) (pc_DataDir cfg) (sr_dir env) st) else st),
     su_roster = r, su_bus = b, su_secrets = sec, su_slots = site_slots now cfg\<rparr>"
  have "site_run now env =
      (if b \<noteq> None \<and> pc_InternalURL cfg \<noteq> [] \<and> \<not> sr_blobs env (pc_InternalURL cfg) then Inl BlobsFailed else Inr ?s)"
    unfolding site_run_def cfg st r b sec sum.case using pages by (simp only: not_True_eq_False if_False)
  with assms have s: "s = ?s" by (simp only: split: if_split_asm) simp_all
  show ?thesis
    by (rule that [of st]) (simp_all add: s cfg st pages r b sec)
qed

end
