(* ===== verification/Process_Props.thy ===== *)
theory Process_Props
  imports Processes Inspector_Props Desired_Props
begin

text \<open>
  What the processes promise as a whole: a site that started has what its profiles ask for, the
  heartbeat tells what is in force, and a probe is heard.
\<close>

section \<open>What is opened\<close>

lemma openRoster_Inr:
  assumes "openRoster cfg snap connect = Inr r"
  shows "case r of
      InMemory \<Rightarrow> rc_Store (Snapshot_Roster snap) = RosterMemory
    | OnRedis url pre t \<Rightarrow> rc_Store (Snapshot_Roster snap) \<noteq> RosterMemory \<and> url = pc_InternalURL cfg \<and> url \<noteq> [] \<and>
        connect url \<and> pre = rc_Prefix (Snapshot_Roster snap) \<and> t = pc_StoreTimeout cfg"
  using assms by (auto simp: openRoster_def Let_def split: if_split_asm)

lemma openBus_Inr:
  assumes "openBus cfg snap connect = Inr b" "listed_sets snap \<noteq> [] \<or> (pc_DataDir cfg \<noteq> [] \<and> pc_Servers cfg \<noteq> [])"
  shows "b = Some (pc_Name cfg) \<and> connect (Join '','' (pc_Servers cfg))"
  using assms by (auto simp: openBus_def Let_def joined_Join split: if_split_asm)

lemma Secrets_New_Inr:
  assumes "Secrets_New env base scope keyFile = Inr r"
  shows "r \<noteq> None \<longleftrightarrow> base \<noteq> [] \<and> keyFile \<noteq> []"
  using assms by (auto simp: Secrets_New_def Let_def split: prod.splits if_split_asm option.splits sum.splits)


section \<open>Properties\<close>

text \<open>C19: A login site that started has everything its profiles ask for, else it did not start: they are
  consistent; the roster is in memory only if they say so, and otherwise on the Redis that was
  reached, under their prefix; with a session list there is a bus; secrets can be read exactly if
  the controller and a contour key are configured; the pages were read; and what it works with then
  is those profiles or a tree of an earlier life, consistent as well.\<close>

theorem started_site:
  assumes "site_run now env = Inr s"
  shows "\<exists>st snap. LoadProfiles (sr_config env) (pc_ProfilesDir (su_config s)) = Inr st \<and> cs_cur st = Some snap \<and> snapshot_ok snap \<and>
    (case su_roster s of
        InMemory \<Rightarrow> rc_Store (sn_roster snap) = RosterMemory
      | OnRedis url pre t \<Rightarrow> rc_Store (sn_roster snap) \<noteq> RosterMemory \<and> url \<noteq> [] \<and> sr_redis env url \<and>
          pre = rc_Prefix (sn_roster snap) \<and> 0 < t) \<and>
    (listed_sets (Some snap) \<noteq> [] \<longrightarrow> su_bus s \<noteq> None \<and> sr_bus env (Join '','' (pc_Servers (su_config s)))) \<and>
    (su_secrets s \<noteq> None \<longleftrightarrow> pc_ControllerURL (su_config s) \<noteq> [] \<and> pc_ContourKeyFile (su_config s) \<noteq> []) \<and>
    sr_pages env (pc_WebDir (su_config s)) \<and>
    (su_bus s = None \<longrightarrow> su_store s = st) \<and>
    (\<exists>cur. cs_cur (su_store s) = Some cur \<and> snapshot_ok cur)"
proof -
  obtain st where run: "Config_Load (sr_load env) RoleHTTP = Inr (su_config s)"
    "LoadProfiles (sr_config env) (pc_ProfilesDir (su_config s)) = Inr st" "sr_pages env (pc_WebDir (su_config s))"
    "openRoster (su_config s) (cs_cur st) (sr_redis env) = Inr (su_roster s)"
    "openBus (su_config s) (cs_cur st) (sr_bus env) = Inr (su_bus s)"
    "Secrets_New (sr_secrets env) (pc_ControllerURL (su_config s)) (pc_Scope (su_config s))
       (pc_ContourKeyFile (su_config s)) = Inr (su_secrets s)"
    "su_store s = (if su_bus s \<noteq> None \<and> pc_DataDir (su_config s) \<noteq> []
      then snd (Bootstrap (sr_config env) (pc_DataDir (su_config s)) (sr_dir env) st) else st)"
    by (rule site_run_Inr [OF assms])
  have life: "store_life st" "store_life (su_store s)"
    using store_life.load [OF run(2)] by (simp_all add: run(7) Bootstrap_life)
  then obtain snap cur where snap: "cs_cur st = Some snap" "snapshot_ok snap"
    and cur: "cs_cur (su_store s) = Some cur" "snapshot_ok cur"
    by (metis store_life_ok store_ok_def)
  obtain c0 where "Config_validate (sr_load env) c0 = Inr (su_config s)" "0 < pc_StoreTimeout c0"
    by (rule Config_Load_Inr [OF run(1)])
  then have "0 < pc_StoreTimeout (su_config s)"
    by (cases rule: Config_validate_Inr) simp_all
  then have "case su_roster s of
        InMemory \<Rightarrow> rc_Store (sn_roster snap) = RosterMemory
      | OnRedis url pre t \<Rightarrow> rc_Store (sn_roster snap) \<noteq> RosterMemory \<and> url \<noteq> [] \<and> sr_redis env url \<and>
          pre = rc_Prefix (sn_roster snap) \<and> 0 < t"
    using openRoster_Inr [OF run(4)] by (simp add: snap(1) Snapshot_Roster_def split: roster_kind.split_asm)
  moreover have "listed_sets (Some snap) \<noteq> [] \<longrightarrow> su_bus s \<noteq> None \<and> sr_bus env (Join '','' (pc_Servers (su_config s)))"
    using openBus_Inr [OF run(5)] snap(1) by auto
  moreover have "su_bus s = None \<longrightarrow> su_store s = st" by (simp add: run(7))
  ultimately show ?thesis
    using run(2,3) snap cur Secrets_New_Inr [OF run(6)] by (intro exI [of _ st] exI [of _ snap]) simp
qed

definition sample_surroundings :: "unit surroundings" where
  "sample_surroundings =
     \<lparr>sr_load = sample_load_env, sr_config = sample_config_env, sr_secrets = sample_secrets,
      sr_dir = \<lparr>dd_live = None, dd_next = None, dd_prev = None\<rparr>, sr_redis = (\<lambda>_. True), sr_bus = (\<lambda>_. True),
      sr_blobs = (\<lambda>_. True), sr_geo = (\<lambda>_. True), sr_subscribed = True, sr_pages = (\<lambda>_. True)\<rparr>"

lemma sample_site_runs: "\<exists>s. site_run 0 sample_surroundings = Inr s"
proof -
  obtain c where c: "Config_Load sample_load_env RoleHTTP = Inr c" "pc_ProfilesDir c = ''/d''"
    "pc_InternalURL c = ''redis://r:6379''" "pc_DataDir c = []" "pc_Servers c \<noteq> []" "pc_ControllerURL c = []"
    using sample_loads [of RoleHTTP] by blast
  obtain st where st: "LoadProfiles sample_config_env ''/d'' = Inr st" using sample_load by blast
  have "\<exists>r. openRoster c (cs_cur st) (\<lambda>_. True) = Inr r"
    by (simp add: openRoster_def Let_def c)
  then obtain r where r: "openRoster c (cs_cur st) (\<lambda>_. True) = Inr r" by blast
  have "\<exists>b. openBus c (cs_cur st) (\<lambda>_. True) = Inr b"
    by (simp add: openBus_def Let_def c)
  then obtain b where b: "openBus c (cs_cur st) (\<lambda>_. True) = Inr b" by blast
  have "Secrets_New sample_secrets [] (pc_Scope c) (pc_ContourKeyFile c) = Inr None"
    by (simp add: Secrets_New_def Let_def split: prod.split)
  then show ?thesis
    by (simp add: site_run_def sample_surroundings_def c st r b)
qed

theorem started_site_witness:
  "\<exists>s cur. site_run 0 sample_surroundings = Inr s \<and> cs_cur (su_store s) = Some cur \<and> snapshot_ok cur"
proof -
  obtain s where s: "site_run 0 sample_surroundings = Inr s" using sample_site_runs by blast
  from started_site [OF s] s show ?thesis by blast
qed



section \<open>The probe\<close>

text \<open>The message of the probe is one that the inspector takes.\<close>

lemma probe_request_parses:
  assumes "unmarshal data = Some (probe_request name uri method ip profile timeout now)"
    and "name \<noteq> []" "method \<noteq> []" "uri \<noteq> []" "hd uri \<noteq> CHR ''?''"
  shows "Parse unmarshal data = Inr (probe_request name uri method ip profile timeout now)"
proof -
  have "http_URI (req_HTTP (probe_request name uri method ip profile timeout now)) \<noteq> []"
    using assms(4,5) by (cases uri) (auto simp: probe_request_def Let_def split: option.split)
  then show ?thesis
    using assms(1-3)
    by (simp add: Parse_def probe_request_def probe_rid_def Locator_validate_def ProtocolVersion_def Let_def)
qed

text \<open>With its version configured the probe is queued for a verdict.\<close>

lemma probe_is_queued:
  assumes "ie_request_json base data = Some (probe_request name uri method ip profile timeout now)"
    and "name \<noteq> []" "method \<noteq> []" "uri \<noteq> []" "hd uri \<noteq> CHR ''?''" "ProtocolVersion \<in> set (pc_Versions cfg)"
  shows "ou_submitted (receive (wire_handler cfg st base) subject data u) =
    ou_submitted u @ [(probe_request name uri method ip profile timeout now, subject)]"
proof -
  let ?req = "probe_request name uri method ip profile timeout now"
  have "ie_request_json (wire_handler cfg st base) data = Some ?req"
    using assms(1) by (simp add: wire_handler_def)
  then have "Parse (ie_request_json (wire_handler cfg st base)) data = Inr ?req"
    using assms(2-5) by (rule probe_request_parses)
  moreover have "req_V ?req = ProtocolVersion" "req_Phase ?req = PhaseRequest"
    by (simp_all add: probe_request_def Let_def)
  moreover have "Supports (wire_handler cfg st base) ProtocolVersion"
    using assms(6) by (simp add: Supports_def wire_handler_def)
  ultimately show ?thesis by (simp add: receive_def)
qed

end
