(* ===== verification/Gate_Props.thy ===== *)
theory Gate_Props
  imports Decide_Props Login_Props
begin

text \<open>
  The login site and the gate together: what the one seals, the other opens.
\<close>

section \<open>From the form to the gate\<close>

text \<open>A sealed session that was issued for the same client opens.\<close>

lemma issued_is_valid:
  assumes "aead_ok (sv_Key env)" "\<And>n. sv_rand_session env = Some n \<Longrightarrow> length n = NonceSize"
    and "SealSession (sv_Key env) (sv_session_bytes env) (sv_rand_session env) s = Some sealed"
    and "\<And>b. sv_session_bytes env s = Some b \<Longrightarrow> de_session_json denv b = Some s"
    and "s = new_session env rq src i" "sv_session_id env \<noteq> []"
    and "de_key denv = sv_Key env" "in_Cookie inp = sealed" "want_bind denv inp src = bindOf env rq src"
    and "0 \<le> in_Now inp" "unix (in_Now inp) < ts_Expiry s"
    and "List_Enabled (src_List src) \<Longrightarrow>
      in_Now inp \<le> unix_time (ts_Issued s) + lc_Grace (src_List src) \<or> listed ses (src_List src) (ts_SID s)"
  shows "in_Cookie inp \<noteq> [] \<and> own_valid denv inp src ses s"
proof -
  obtain n b where parts: "sv_rand_session env = Some n" "sv_session_bytes env s = Some b"
    using assms(3) by (auto simp: SealSession_def Key_seal_def split: option.splits)
  have "Key_open (de_key denv) (de_session_json denv) sessionPrefix sealed = Inr s"
    unfolding assms(7)
    by (rule Key_open_seal [OF assms(1), where marshal = "sv_session_bytes env" and body = b and nonce = n])
      (use assms(2-4) parts in \<open>simp_all add: SealSession_def\<close>)
  moreover have "ts_SID s \<noteq> []" using assms(6) by (simp add: assms(5) new_session_def Let_def NewID_def)
  moreover have "ts_Expiry s \<noteq> 0"
    using assms(10,11) unix_mono [OF assms(10)] by (simp add: unix_def)
  moreover have "bound_to (want_bind denv inp src) s"
    by (simp add: bound_to_def assms(5,9) new_session_def Let_def)
  moreover have "ts_Scope s = sc_Cookie (src_Session src)" "ts_Iss s = src_Name src"
    by (simp_all add: assms(5) new_session_def Let_def)
  moreover have "sealed \<noteq> []"
    using assms(3) by (auto simp: SealSession_def Key_seal_def split: option.splits)
  ultimately show ?thesis
    using assms(8,11,12) by (simp add: own_valid_def)
qed

text \<open>C3: Signing in opens the gate: when a submitted form signs in, the source's own provider, asked
  with the credentials of that form and with who the client was at the step before, answered with an
  identity; the answer carries a sealed session whose user, groups and methods are those of this
  identity, and it is announced to the session list if there is one; and from then on every
  inspector with the same key lets a request through that presents that cookie from the same
  client, at every profile of the source that accepts the groups, and tells the protected service
  exactly this identity's user, groups and methods, until the session has to be renewed or expires,
  as long as the list (past its grace) still holds it and no earlier verdict asks to sign in anew.\<close>

theorem login_opens_the_gate:
  assumes "submit env li ops rq src r d new_writer = (r', d', Some w)" "wr_Location w \<noteq> []"
    and "aead_ok (sv_Key env)" "\<And>n. sv_rand_session env = Some n \<Longrightarrow> length n = NonceSize"
    and "sv_session_id env \<noteq> []"
  shows "\<exists>f prov prior i s sealed.
    rq_Form rq = Some f \<and> Provider_Build src = Inr prov \<and> priorIdentity env rq src = Some prior \<and>
    Provider_Run (provider_env_of env li) (li_ldap li) prov (credentials_of env rq f) prior d = (Some (Inr i), d') \<and>
    s = new_session env rq src i \<and> ts_Sub s = id_Subject i \<and> ts_Groups s = id_Groups i \<and> ts_AMR s = id_AMR i \<and>
    session_cookie env src s sealed \<in> set (wr_Cookies w) \<and>
    (List_Enabled (src_List src) \<and> sv_list env \<longrightarrow>
       (\<exists>ttl why. ListAdd (lc_Sessions (src_List src)) (ts_SID s) ttl why \<in> set (wr_published w))) \<and>
    (\<forall>denv inp p ses.
       in_Profile inp = Some p \<and> pf_Mode p \<noteq> ModeOff \<and> pf_Src p = Some src \<and> \<not> OwnPath p (in_URI inp) \<and>
       in_Cookie inp = sealed \<and> de_key denv = sv_Key env \<and>
       (\<forall>b. sv_session_bytes env s = Some b \<longrightarrow> de_session_json denv b = Some s) \<and>
       want_bind denv inp src = bindOf env rq src \<and>
       0 \<le> in_Now inp \<and> unix (in_Now inp) < ts_Expiry s \<and> \<not> NeedsRenew s (in_Now inp) \<and>
       (List_Enabled (src_List src) \<longrightarrow>
          in_Now inp \<le> unix_time (ts_Issued s) + lc_Grace (src_List src) \<or> listed ses (src_List src) (ts_SID s)) \<and>
       GroupsAllow (de_ct denv) (ts_Groups s) (gt_Groups (pf_Gate p)) \<and> \<not> asks_for p (in_Prior inp) DoReauth \<longrightarrow>
       (\<exists>res. Check denv inp ses = Some res \<and> rs_Verdict res = VerdictAllow \<and> rs_Session res = Some s \<and>
          rs_Headers res = setHeader (up_Method (src_Upstream src)) (Join ''+'' (id_AMR i))
            (setHeader (up_Groups (src_Upstream src)) (Join '','' (id_Groups i))
              (setHeader (up_User (src_Upstream src)) (id_Subject i) Map.empty))))"
proof -
  obtain f t prov prior i r1 r2 r3 counts r4 w2 sealed where
    form: "rq_Form rq = Some f" and
    "OpenTicket (sv_Key env) (sv_ticket_json env) (rq_cookie rq (tc_Cookie (src_Ticket src))) (sv_Now env) = (Some t, None)"
    "tk_Scope t = src_Name src" "tk_Nonce t = f ''csrf''"
    "fst (lockedFor ops (sv_Now env) (lockScopes env src (credentials_of env rq f)) r) \<le> 0"
    "ro_Burn ops (sv_Now env) ''nonce'' (tk_Nonce t) (tc_TTL (src_Ticket src)) r1 = (Some True, r2)"
    and prov: "Provider_Build src = Inr prov" and prior: "priorIdentity env rq src = Some prior" and
    "reserve ops (sv_Now env) src (lockScopes env src (credentials_of env rq f)) r2 = (counts, False, r3)"
    and run: "Provider_Run (provider_env_of env li) (li_ldap li) prov (credentials_of env rq f) prior d = (Some (Inr i), d')" and
    "burnCode ops (sv_Now env) src i (credentials_of env rq f) r3 = (None, r4)"
    and issued: "issue env src (new_session env rq src i) new_writer = (True, w2)"
    and sealed: "SealSession (sv_Key env) (sv_session_bytes env) (sv_rand_session env) (new_session env rq src i) = Some sealed"
    and cookie: "session_cookie env src (new_session env rq src i) sealed \<in> set (wr_Cookies w)"
    and w: "w = redirectTo (if tk_Return t = [] then backTo rq else tk_Return t) w2"
    using assms(1,2) by (rule submit_signed_in)
  let ?s = "new_session env rq src i"
  have own: "src_Provider src \<noteq> ProviderJWT" "src_Provider src \<noteq> ProviderApp"
    using prov by (auto simp: Provider_Build_def)
  have lists: "\<exists>ttl why. ListAdd (lc_Sessions (src_List src)) (ts_SID ?s) ttl why \<in> set (wr_published w)"
    if "List_Enabled (src_List src) \<and> sv_list env"
    using issue_lists [OF issued] that by (simp add: w redirectTo_def)
  have "\<exists>res. Check denv inp ses = Some res \<and> rs_Verdict res = VerdictAllow \<and> rs_Session res = Some ?s \<and>
      rs_Headers res = setHeader (up_Method (src_Upstream src)) (Join ''+'' (id_AMR i))
        (setHeader (up_Groups (src_Upstream src)) (Join '','' (id_Groups i))
          (setHeader (up_User (src_Upstream src)) (id_Subject i) Map.empty))"
    if "in_Profile inp = Some p" "pf_Mode p \<noteq> ModeOff" "pf_Src p = Some src" "\<not> OwnPath p (in_URI inp)"
      "in_Cookie inp = sealed" "de_key denv = sv_Key env"
      "\<forall>b. sv_session_bytes env ?s = Some b \<longrightarrow> de_session_json denv b = Some ?s"
      "want_bind denv inp src = bindOf env rq src" "0 \<le> in_Now inp" "unix (in_Now inp) < ts_Expiry ?s" "\<not> NeedsRenew ?s (in_Now inp)"
      "List_Enabled (src_List src) \<longrightarrow>
         in_Now inp \<le> unix_time (ts_Issued ?s) + lc_Grace (src_List src) \<or> listed ses (src_List src) (ts_SID ?s)"
      "GroupsAllow (de_ct denv) (ts_Groups ?s) (gt_Groups (pf_Gate p))" "\<not> asks_for p (in_Prior inp) DoReauth"
    for denv inp p ses
  proof -
    have "in_Cookie inp \<noteq> [] \<and> own_valid denv inp src ses ?s"
      by (rule issued_is_valid [OF assms(3,4) sealed _ refl assms(5)]) (use that in simp_all)
    then show ?thesis
      using own_valid_allows [OF that(1-4) own _ _ that(13,14,11)] that(3) by (simp add: allow_def Let_def) (simp add: new_session_def Let_def)
  qed
  moreover have "ts_Sub ?s = id_Subject i" "ts_Groups ?s = id_Groups i" "ts_AMR ?s = id_AMR i"
    by (simp_all add: new_session_def Let_def)
  ultimately show ?thesis using form prov prior run cookie lists
    by (intro exI [of _ f] exI [of _ prov] exI [of _ prior] exI [of _ i] exI [of _ ?s] exI [of _ sealed] conjI allI impI)
      (rule refl | assumption | blast)+
qed

definition login_profile :: profile where
  "login_profile = (sample_profile ModeEnforce)\<lparr>pf_Src := Some login_source\<rparr>"

definition login_input :: "string \<Rightarrow> decide_input" where
  "login_input cookie = (sample_input ModeEnforce cookie (2600 * second))\<lparr>in_Profile := Some login_profile\<rparr>"

lemma login_profile_simps:
  "pf_Mode login_profile = ModeEnforce" "pf_Src login_profile = Some login_source" "in_Profile (login_input cookie) = Some login_profile"
  "in_Cookie (login_input cookie) = cookie" "in_Now (login_input cookie) = 2600 * second"
  "gt_Groups (pf_Gate login_profile) = []" "in_Prior (login_input cookie) = []" "in_URI (login_input cookie) = ''/a''"
  "\<not> List_Enabled (src_List login_source)"
  by (simp_all add: login_profile_def login_input_def sample_profile_def sample_input_def List_Enabled_def login_source_def sample_source_def)

lemma login_not_own_path: "\<not> OwnPath login_profile ''/a''"
  by (simp add: OwnPath_def login_profile_def login_source_def sample_profile_def sample_source_def Learns_def under_login_def
      TrimRightBytes_def HasPrefix_def)

theorem login_opens_the_gate_witness:
  "\<exists>s sealed res. session_cookie (login_env (2500 * second)) login_source s sealed \<in>
     (case submit (login_env (2500 * second)) login_tools memory_ops login_req login_source NewMemory () new_writer of
        (_, _, Some w) \<Rightarrow> set (wr_Cookies w) | _ \<Rightarrow> {}) \<and>
     Check (sample_env\<lparr>de_session_json := \<lambda>_. Some s\<rparr>) (login_input sealed) None = Some res \<and> rs_Verdict res = VerdictAllow"
proof -
  let ?env = "login_env (2500 * second)"
  obtain r' w where sub: "submit ?env login_tools memory_ops login_req login_source NewMemory () new_writer = (r', (), Some w)"
    and "wr_Location w = ''/app''" using sample_sign_in by blast
  then have loc: "wr_Location w \<noteq> []" by simp
  have env: "aead_ok (sv_Key ?env)" "\<And>n. sv_rand_session ?env = Some n \<Longrightarrow> length n = NonceSize" "sv_session_id ?env \<noteq> []"
    by (simp_all add: login_env_def sample_senv_def sample_aead_ok sample_nonce_def NonceSize_def)
  obtain s sealed i where s: "s = new_session ?env login_req login_source i" "session_cookie ?env login_source s sealed \<in> set (wr_Cookies w)"
    and opens: "in_Profile inp = Some p \<and> pf_Mode p \<noteq> ModeOff \<and> pf_Src p = Some login_source \<and> \<not> OwnPath p (in_URI inp) \<and>
       in_Cookie inp = sealed \<and> de_key denv = sv_Key ?env \<and>
       (\<forall>b. sv_session_bytes ?env s = Some b \<longrightarrow> de_session_json denv b = Some s) \<and>
       want_bind denv inp login_source = bindOf ?env login_req login_source \<and>
       0 \<le> in_Now inp \<and> unix (in_Now inp) < ts_Expiry s \<and> \<not> NeedsRenew s (in_Now inp) \<and>
       (List_Enabled (src_List login_source) \<longrightarrow>
          in_Now inp \<le> unix_time (ts_Issued s) + lc_Grace (src_List login_source) \<or> listed ses (src_List login_source) (ts_SID s)) \<and>
       GroupsAllow (de_ct denv) (ts_Groups s) (gt_Groups (pf_Gate p)) \<and> \<not> asks_for p (in_Prior inp) DoReauth \<Longrightarrow>
       \<exists>res. Check denv inp ses = Some res \<and> rs_Verdict res = VerdictAllow \<and> rs_Session res = Some s"
      for denv :: decide_env and inp :: decide_input and p :: profile and ses
    using login_opens_the_gate [OF sub loc env] by blast
  have "ts_Expiry s = 6100" "ts_Renew s = 4300"
    by (simp_all add: s(1) new_session_def Let_def expiryOf_def renewAt_def login_env_def sample_senv_def login_source_def sample_source_def
        unix_def second_def)
  then have times: "unix (2600 * second) < ts_Expiry s" "\<not> NeedsRenew s (2600 * second)" "(0::int) \<le> 2600 * second"
    by (simp_all add: NeedsRenew_def unix_def second_def)
  have "want_bind (sample_env\<lparr>de_session_json := \<lambda>_. Some s\<rparr>) (login_input sealed) login_source = bindOf ?env login_req login_source"
    by (simp add: want_bind_def bindOf_def BindsNet_def BindsUA_def hasBind_def login_source_def sample_source_def)
  moreover have "de_key (sample_env\<lparr>de_session_json := \<lambda>_. Some s\<rparr>) = sv_Key ?env"
    by (simp add: sample_env_def login_env_def sample_senv_def)
  moreover have "GroupsAllow ct (ts_Groups s) []" for ct by (simp add: GroupsAllow_def)
  moreover have "\<not> asks_for login_profile [] DoReauth" by (simp add: asks_for_def)
  ultimately have "\<exists>res. Check (sample_env\<lparr>de_session_json := \<lambda>_. Some s\<rparr>) (login_input sealed) None = Some res \<and> rs_Verdict res = VerdictAllow \<and>
      rs_Session res = Some s"
    using times login_not_own_path by (intro opens [where p = login_profile]) (simp add: login_profile_simps)
  with sub s(2) show ?thesis by (intro exI [of _ s] exI [of _ sealed]) auto
qed

section \<open>From the gate to the form\<close>

definition gate_ticket :: "decide_env \<Rightarrow> decide_input \<Rightarrow> source \<Rightarrow> ticket" where
  "gate_ticket env inp src =
     \<lparr>tk_Nonce = NewID (de_id env), tk_Return = returnPath (in_URI inp) (in_Args inp), tk_Scope = src_Name src,
      tk_Expiry = unix (in_Now inp + tc_TTL (src_Ticket src))\<rparr>"

definition gate_query :: "decide_input \<Rightarrow> string" where
  "gate_query inp = (let back = returnPath (in_URI inp) (in_Args inp) in if back \<noteq> [] then ''rd='' @ QueryEscape back else [])"

text \<open>The two ways to the form carry the ticket and the address.\<close>

definition leads_to_form :: "decide_env \<Rightarrow> decide_input \<Rightarrow> source \<Rightarrow> result \<Rightarrow> bool" where
  "leads_to_form env inp src r \<longleftrightarrow> (\<exists>sealed.
     SealTicket (de_key env) (de_ticket_json env) (de_rand env) (gate_ticket env inp src) = Some sealed \<and>
     rs_RedirectURL r = lg_URI (src_Login src) @ (if gate_query inp = [] then [] else CHR ''?'' # gate_query inp) \<and>
     rs_Cookies r = [\<lparr>ck_Name = tc_Cookie (src_Ticket src), ck_Value = sealed, ck_Path = lg_URI (src_Login src),
        ck_MaxAge = whole_seconds (tc_TTL (src_Ticket src))\<rparr>])"

lemma gate_leads_to_form:
  assumes "\<not> External src" "rs_Verdict (gate env inp p src code eng) = VerdictRedirect"
  shows "leads_to_form env inp src (gate env inp p src code eng)"
proof (cases "SealTicket (de_key env) (de_ticket_json env) (de_rand env) (gate_ticket env inp src)")
  case None
  then have "redirect env inp p src code eng = deny p code eng"
    using assms(1) by (simp add: redirect_def gate_ticket_def Let_def)
  then show ?thesis using assms(2) by (simp add: gate_def deny_def)
next
  case (Some sealed)
  then show ?thesis
    using assms by (auto simp: leads_to_form_def gate_def redirect_def gate_ticket_def gate_query_def Let_def split: if_splits)
qed

lemma redirected_leads_to_form:
  assumes "in_Profile inp = Some p" "pf_Src p = Some src" "\<not> External src" "Check env inp ses = Some r"
    and "rs_Verdict r = VerdictRedirect" "rs_Code r \<noteq> CodeRenew"
  shows "leads_to_form env inp src r"
proof -
  have [simp]: "leads_to_form env inp src (r\<lparr>rs_Event := e\<rparr>) = leads_to_form env inp src r"
    "leads_to_form env inp src (r\<lparr>rs_Findings := fs\<rparr>) = leads_to_form env inp src r" for src r e fs
    by (simp_all add: leads_to_form_def)
  from assms(1,4) show ?thesis
  proof (cases rule: Check_cases)
    case (forbidden src' s)
    then show ?thesis using assms(5) by (auto simp: not_allowed_def Let_def split: if_splits)
  next
    case (signed_in src' s)
    then show ?thesis
      using assms(2,3,5,6) gate_leads_to_form
      by (auto simp: with_session_def Let_def split: if_splits)
  next
    case (anonymous src' code fs)
    then show ?thesis
      using assms(2,3,5,6) gate_leads_to_form
      by (auto simp: without_session_def Let_def split: if_splits)
  qed (use assms(5) in simp_all)
qed

lemma no_return: "localPath (query_get [] name) = []"
  by (simp add: query_get_def query_values_def localPath_def)

text \<open>C13: The way to the form is whole: when the gate sends a client to the form of our own source, and the
  client follows with the cookie it was given, the site with the same key finds the ticket as the
  gate made it, shows the form with its nonce and sets no other, and the address it will lead to
  after signing in is the one that was asked for.\<close>

theorem redirect_opens_the_form:
  assumes "in_Profile inp = Some p" "pf_Src p = Some src" "\<not> External src" "Check env inp ses = Some r"
    and "rs_Verdict r = VerdictRedirect" "rs_Code r \<noteq> CodeRenew"
    and "aead_ok (de_key env)" "\<And>n. de_rand env = Some n \<Longrightarrow> length n = NonceSize" "de_id env \<noteq> []"
  shows "\<exists>t c query. rs_Cookies r = [c] \<and> ck_Name c = tc_Cookie (src_Ticket src) \<and>
    rs_RedirectURL r = lg_URI (src_Login src) @ (if query = [] then [] else CHR ''?'' # query) \<and>
    tk_Return t = returnPath (in_URI inp) (in_Args inp) \<and>
    (\<forall>senv rq. sv_Key senv = de_key env \<and> (\<forall>b. de_ticket_json env t = Some b \<longrightarrow> sv_ticket_json senv b = Some t) \<and>
       rq_cookie rq (ck_Name c) = ck_Value c \<and> rq_Query rq = query \<and>
       0 \<le> sv_Now senv \<and> unix (sv_Now senv) < unix (in_Now inp + tc_TTL (src_Ticket src)) \<longrightarrow>
       OpenTicket (sv_Key senv) (sv_ticket_json senv) (rq_cookie rq (tc_Cookie (src_Ticket src))) (sv_Now senv) = (Some t, None) \<and>
       form senv rq src [] new_writer = render src (tk_Nonce t) [] False [] (statusFor []) new_writer)"
proof -
  let ?t = "gate_ticket env inp src"
  obtain sealed where sealed: "SealTicket (de_key env) (de_ticket_json env) (de_rand env) ?t = Some sealed"
    and r: "rs_RedirectURL r = lg_URI (src_Login src) @ (if gate_query inp = [] then [] else CHR ''?'' # gate_query inp)"
      "rs_Cookies r = [\<lparr>ck_Name = tc_Cookie (src_Ticket src), ck_Value = sealed, ck_Path = lg_URI (src_Login src),
        ck_MaxAge = whole_seconds (tc_TTL (src_Ticket src))\<rparr>]"
    using redirected_leads_to_form [OF assms(1-6)] by (auto simp: leads_to_form_def)
  obtain n b where parts: "de_rand env = Some n" "de_ticket_json env ?t = Some b"
    using sealed by (auto simp: SealTicket_def Key_seal_def split: option.splits)
  have returns: "localPath (query_get (gate_query inp) ''rd'') = tk_Return ?t"
    using return_address_round_trip [of "in_URI inp" "in_Args inp"]
    by (simp add: gate_query_def gate_ticket_def no_return Let_def)
  have opened: "OpenTicket (sv_Key senv) (sv_ticket_json senv) sealed (sv_Now senv) = (Some ?t, None)"
    if "sv_Key senv = de_key env" "\<forall>b. de_ticket_json env ?t = Some b \<longrightarrow> sv_ticket_json senv b = Some ?t"
      "0 \<le> sv_Now senv" "unix (sv_Now senv) < unix (in_Now inp + tc_TTL (src_Ticket src))" for senv
  proof -
    have "Key_open (sv_Key senv) (sv_ticket_json senv) ticketPrefix sealed = Inr ?t"
      unfolding that(1)
      by (rule Key_open_seal [OF assms(7), where marshal = "de_ticket_json env" and body = b and nonce = n])
        (use assms(8) parts that(2) sealed in \<open>simp_all add: SealTicket_def\<close>)
    moreover have "0 \<le> unix (sv_Now senv)" using unix_mono [OF that(3)] by (simp add: unix_def)
    ultimately show ?thesis
      using that(4) assms(9) by (simp add: OpenTicket_accepts gate_ticket_def NewID_def)
  qed
  have "form senv rq src [] new_writer = render src (tk_Nonce ?t) [] False [] (statusFor []) new_writer"
    if "OpenTicket (sv_Key senv) (sv_ticket_json senv) (rq_cookie rq (tc_Cookie (src_Ticket src))) (sv_Now senv) = (Some ?t, None)"
      "rq_Query rq = gate_query inp" for senv rq
  proof -
    have "page_ticket senv rq src = Some ?t"
      by (simp add: page_ticket_def that(1)) (simp add: gate_ticket_def)
    then show ?thesis by (simp add: page_def that(2) returns Let_def)
  qed
  moreover have "tk_Return ?t = returnPath (in_URI inp) (in_Args inp)" by (simp add: gate_ticket_def)
  ultimately show ?thesis
    using opened r by (intro exI [of _ ?t] exI [of _ "hd (rs_Cookies r)"] exI [of _ "gate_query inp"]) auto
qed

theorem redirect_opens_the_form_witness:
  "\<exists>r t c. Check sample_env (sample_input ModeEnforce [] 0) None = Some r \<and> rs_Cookies r = [c] \<and>
     OpenTicket sample_aead (\<lambda>_. Some t) (ck_Value c) 0 = (Some t, None)"
proof -
  obtain r where r: "Check sample_env (sample_input ModeEnforce [] 0) None = Some r" "rs_Verdict r = VerdictRedirect"
    and code: "rs_Code r \<noteq> CodeRenew" using sample_redirects by auto
  have p: "in_Profile (sample_input ModeEnforce [] 0) = Some (sample_profile ModeEnforce)" "pf_Src (sample_profile ModeEnforce) = Some sample_source"
    "\<not> External sample_source"
    by (simp_all add: sample_input_def sample_profile_def External_def sample_source_def)
  have env: "aead_ok (de_key sample_env)" "\<And>n. de_rand sample_env = Some n \<Longrightarrow> length n = NonceSize" "de_id sample_env \<noteq> []"
    by (simp_all add: sample_env_def sample_aead_ok sample_nonce_def NonceSize_def)
  have late: "(0::int) < unix (in_Now (sample_input ModeEnforce [] 0) + tc_TTL (src_Ticket sample_source))"
    by (simp add: sample_input_def sample_source_def unix_def second_def)
  obtain t c query where c: "rs_Cookies r = [c]" "ck_Name c = tc_Cookie (src_Ticket sample_source)" and opens: "sv_Key senv = de_key sample_env \<and>
       (\<forall>b. de_ticket_json sample_env t = Some b \<longrightarrow> sv_ticket_json senv b = Some t) \<and>
       rq_cookie rq (ck_Name c) = ck_Value c \<and> rq_Query rq = query \<and>
       0 \<le> sv_Now senv \<and> unix (sv_Now senv) < unix (in_Now (sample_input ModeEnforce [] 0) + tc_TTL (src_Ticket sample_source)) \<Longrightarrow>
       OpenTicket (sv_Key senv) (sv_ticket_json senv) (rq_cookie rq (tc_Cookie (src_Ticket sample_source))) (sv_Now senv) = (Some t, None)"
    for senv :: server_env and rq :: http_req
    using redirect_opens_the_form [OF p r code env] by blast
  have "OpenTicket sample_aead (\<lambda>_. Some t) (ck_Value c) 0 = (Some t, None)"
    using opens [of "(sample_senv 0)\<lparr>sv_ticket_json := \<lambda>_. Some t\<rparr>" "login_req\<lparr>rq_cookie := \<lambda>_. ck_Value c, rq_Query := query\<rparr>"] late
    by (simp add: sample_senv_def sample_env_def unix_def)
  then show ?thesis using r(1) c(1) by blast
qed

end
