(* ===== verification/Spec2Isabelle.thy ===== *)
theory Spec2Isabelle
  imports Queue Config_Props Login_Props Inspector_Props List_Props Secrets Desired_Props ProcConfig Slots Process_Props Gate_Props
begin

text \<open>
  A model of placitum-auth, the authentication inspector of the Placitum firewall and its login
  site, with the theorems that make it correct.

  The program runs as two processes. The inspector (\<open>cmd/inspector\<close>) receives one message per
  HTTP request (\<open>internal/protocol\<close>), queues it (\<open>internal/queue\<close>), fetches the request's headers
  and arguments (\<open>internal/store\<close>), decides (\<open>internal/decide\<close>) with the configuration in use
  (\<open>internal/config\<close>), the sealed or signed credential (\<open>internal/token\<close>, \<open>internal/jwt\<close>) and
  the list of live sessions (\<open>internal/livelist\<close>), and answers; an application's own logins are
  learned from its responses (\<open>internal/learn\<close>); what was decided goes to the audit stream
  (\<open>internal/audit\<close>). Both processes take their configuration from the environment and
  \<open>inspector.conf\<close>, their profiles from a directory, and a controller may push another one
  (\<open>internal/desired\<close>) and keep the secrets of the providers (\<open>internal/secrets\<close>). The login site (\<open>cmd/http\<close>) shows the form, checks a submitted one with a
  provider (\<open>internal/provider\<close>, \<open>internal/otp\<close>), counts attempts and spends one-time values in
  the roster (\<open>internal/roster\<close>), and issues, renews and ends sessions.

  The theories, in the order in which they build on each other:

  \<^item> \<open>Prelude\<close>: Go's strings, bytes, integers at their width, times and durations; the collections
    of lemmas that the components share. \<open>Encoding\<close>: hexadecimal, base64 and base32 with their
    round trips. \<open>Netip\<close>, \<open>Url\<close>: addresses, prefixes and query strings.
  \<^item> \<open>Protocol\<close>: the messages, \<open>Parse\<close> and the replies (\<open>protocol.go\<close>, \<open>overload.go\<close>).
  \<^item> \<open>Config\<close>: sources and profiles (\<open>source.go\<close>, \<open>profile.go\<close>); \<open>Validate\<close>: their defaults and
    checks; \<open>Profiles\<close>: the directory, the snapshot and its reloads (\<open>profiles.go\<close>).
  \<^item> \<open>Token\<close>, \<open>Json\<close>, \<open>Jwt\<close>, \<open>Store\<close>, \<open>Learn\<close>, \<open>AuditSink\<close>: the files of these names.
  \<^item> \<open>Siphash\<close>, \<open>Wafs\<close>, \<open>Composition\<close>, \<open>Livelist\<close>: the mirror of a list of the object store, from
    the packed records up to the life of one set; \<open>Siphash_Spec\<close>: SipHash-2-4 as its paper has it,
    apart from the program's; \<open>List_Props\<close>: what a mirror promises.
  \<^item> \<open>Decide\<close>, \<open>Decide_Props\<close>: \<open>Check\<close> and the verdicts (\<open>decide.go\<close>).
  \<^item> \<open>Queue\<close>: the pool as a step relation, one step per critical section (\<open>queue.go\<close>).
  \<^item> \<open>Roster\<close>: \<open>Memory\<close> and \<open>Redis\<close>, and the interface as the locale \<open>roster\<close> (\<open>roster.go\<close>).
  \<^item> \<open>Otp\<close>, \<open>Provider\<close>: codes and the four providers, with the locale \<open>identity_provider\<close>.
  \<^item> \<open>Server\<close>, \<open>Login\<close> with \<open>Server_Props\<close>, \<open>Login_Props\<close>: the site (\<open>server.go\<close>, \<open>login.go\<close>).
  \<^item> \<open>Inspector\<close>, \<open>Inspector_Props\<close>: the inspector's handler, which ties the queue, the store, the
    decision, the lists, learning and the audit together (\<open>handler.go\<close>, \<open>learn.go\<close>, \<open>lists.go\<close>,
    \<open>form.go\<close>).
  \<^item> \<open>Gate_Props\<close>: the site and the gate together, from the redirect to the form and from the form
    back through the gate.
  \<^item> \<open>Secrets\<close>: the sealed envelope and the client of the secret store, its cache, and calls that run
    at the same time as a step relation (\<open>secrets.go\<close>).
  \<^item> \<open>Desired\<close>, \<open>Desired_Props\<close>: the manifest that a controller pushes, the swap of the trees under
    failing file operations, the report and the watcher (\<open>desired.go\<close>, \<open>settings.go\<close>).
  \<^item> \<open>ConfFile\<close>, \<open>ProcConfig\<close>: \<open>inspector.conf\<close>, with a printer that is not in the repository but
    specifies its reader, the environment, the checks of both roles (\<open>file.go\<close>, \<open>config.go\<close>, \<open>logship.go\<close>).
  \<^item> \<open>Slots\<close>: the channel that bounds the password checks (\<open>verifySlot\<close> of \<open>login.go\<close>).
  \<^item> \<open>Processes\<close>, \<open>Process_Props\<close>: how both processes start, the heartbeat, signals, and the message
    of the probe (\<open>main.go\<close> of the three commands).

  Conventions. A Go struct is a record, with a prefix of two letters to its fields. A function
  that may fail returns a sum or an option; \<open>None\<close> in place of a whole result is a panic. Go's
  \<open>int\<close> and \<open>time.Duration\<close> are \<open>int\<close>, with the wrap-around written out (\<open>i64\<close>) where it shows;
  strings are lists of bytes. What is not in the repository comes in as a parameter: the ciphers
  and hashes, the case tables of Unicode, JSON and YAML decoding, regular expressions of the
  configuration, the clock, randomness, the file system, Redis, LDAP, the message bus and the
  object store. Theorems that need a law of one of them name it (for instance \<open>aead_ok\<close>).

  What the theorems show. The gate: no request of an enforcing profile passes without a valid
  credential or a trusted ask; a valid one passes; what is sent upstream is the session's
  identity, header by header; its event and its reported asks tell exactly what was decided. The
  two processes fit: the ticket of a redirect opens the form, and the session of a sign-in opens the
  gate, as exactly the identity that the provider gave. Signing in: a session only after every
  check; a provider's answer rests on the secret it asks for (a password compared by bcrypt, a code
  of the account's secret, a bind that the directory took); with the roster in memory tickets are
  good once, codes once for a subject as it is spelled, and at most the configured number of guesses
  passes, however submits interleave. Sessions: no
  renewal outlives \<open>max_ttl\<close> or the account. The pool: every task is answered exactly once, within
  its depth and budget; every message is answered exactly once, and a failure never lets a
  request through. The mirror: it holds exactly the list it names, and handling a frame ends.
  The configuration: the snapshot in use is always consistent; what was pushed is in force whole
  and reported truthfully, or the tree and the configuration from before are back; no manifest
  names a path outside its tree; \<open>inspector.conf\<close> is read back as it was written; a process starts
  only with settings it can work with and with what its profiles ask for. Secrets: none is older
  than the cache allows or belongs to another reference, however calls interleave. Several
  theorems record what the code does and does not mean to (the codes that can be replayed under
  another spelling of the login, the form at the root path, the period below a second, the check
  that panics and keeps its slot for good, ten-digit codes, the expiry that wraps, the hash that two
  manifests share).

  Bounds and fuel. No definition uses fuel: every loop is structural or has its termination proof.
  Panics are values.

  Not modelled: what \<open>main.go\<close> does with connections, timers, flags and the drain at the end;
  logging; the HTML template, of which only the values it is given are modelled; the dialling of
  Redis, NATS and LDAP; the texts of error messages, which are shortened; version strings; the
  counters of traffic. These are input and output with no decision of the program in them.
  Goroutines appear where their order matters: as step relations of the pool, the roster's submits,
  the mirror, the secret store, the configuration store (whose reads may be stored late) and the
  password checks. A reload of the store, and a pushed manifest with its report, are single steps in
  \<open>Desired\<close>: what a heartbeat between the two says, and a reload that stores the tree before after
  the swap until the next tick, are outside its theorems.
\<close>

end
